(* ===== verification/IM_Prelude.thy ===== *)
theory IM_Prelude
  imports Main "HOL-Library.Word"
begin

text \<open>
  Shared vocabulary of the development: the machine types of the program
  (\<open>server/include/common/types.h\<close> and \<open><cstdint>\<close>), C memory operations on byte
  buffers, the collections of rewrite rules the component theories fill, and
  generic facts on lists and maps that several components need.
\<close>

unbundle bit_operations_syntax

section \<open>Machine types\<close>

type_synonym byte = "8 word"
type_synonym u8 = "8 word"
type_synonym u16 = "16 word"
type_synonym u32 = "32 word"
type_synonym u64 = "64 word"

text \<open>A buffer (\<open>std::vector<uint8_t>\<close>), a \<open>char\<close> array and a \<open>std::string\<close> are byte lists.\<close>

type_synonym bytes = "byte list"

text \<open>A C string literal of the source as the bytes it denotes (without its final NUL).\<close>

definition lit :: "string \<Rightarrow> bytes" where
  "lit s = map of_char s"

section \<open>Rule collections\<close>

named_theorems layout_simps \<open>sizes and layouts of the wire structures\<close>
named_theorems pack_simps \<open>wire form of each packing function\<close>
named_theorems parse_simps \<open>each parsing function on the bodies it accepts\<close>
named_theorems frame_simps \<open>fields of the state an operation leaves alone\<close>

section \<open>C memory operations on buffers\<close>

text \<open>\<open>std::memcpy(buffer.data() + off, src, n)\<close>, with \<open>src\<close> the \<open>n\<close> bytes copied.\<close>

definition memcpy :: "bytes \<Rightarrow> nat \<Rightarrow> bytes \<Rightarrow> bytes" where
  "memcpy dst off src = take off dst @ src @ drop (off + length src) dst"

text \<open>\<open>memset(p, 0, n)\<close>, and the zero-initialised \<open>std::vector<uint8_t>(n)\<close>.\<close>

definition zeros :: "nat \<Rightarrow> bytes" where
  "zeros n = replicate n 0"

lemma length_zeros [simp]: "length (zeros n) = n"
  by (simp add: zeros_def)

lemma take_zeros [simp]: "take k (zeros n) = zeros (min k n)"
  by (simp add: zeros_def)

lemma drop_zeros [simp]: "drop k (zeros n) = zeros (n - k)"
  by (simp add: zeros_def)

lemma zeros_0 [simp]: "zeros 0 = []"
  by (simp add: zeros_def)

lemma length_memcpy [simp]:
  "off + length src \<le> length dst \<Longrightarrow> length (memcpy dst off src) = length dst"
  by (simp add: memcpy_def)

text \<open>Filling a fresh buffer front to back leaves the concatenation of what was copied.\<close>

lemma memcpy_zeros_head:
  "length src \<le> n \<Longrightarrow> memcpy (zeros n) 0 src = src @ zeros (n - length src)"
  by (simp add: memcpy_def)

lemma memcpy_append_zeros:
  "length pre = off \<Longrightarrow> length src \<le> n \<Longrightarrow>
   memcpy (pre @ zeros n) off src = (pre @ src) @ zeros (n - length src)"
  by (simp add: memcpy_def)

section \<open>Lists\<close>

lemma take_append_exact: "length xs = n \<Longrightarrow> take n (xs @ ys) = xs"
  by simp

lemma drop_append_exact: "length xs = n \<Longrightarrow> drop n (xs @ ys) = ys"
  by simp

lemma takeWhile_take_prefix:
  "takeWhile P (take n xs) = take n (takeWhile P xs)"
proof (induction xs arbitrary: n)
  case (Cons x xs)
  then show ?case by (cases n) simp_all
qed simp

lemma fold_invariant_on:
  assumes "\<And>x s. x \<in> set xs \<Longrightarrow> I s \<Longrightarrow> I (f x s)" and "I s"
  shows "I (fold f xs s)"
  using assms by (induction xs arbitrary: s) auto

lemma fold_frame:
  assumes "\<And>x s. g (f x s) = g s"
  shows "g (fold f xs s) = g s"
  using assms by (induction xs arbitrary: s) auto

end
