(* ===== verification/Byte_Order.thy ===== *)
theory Byte_Order
  imports IM_Prelude
begin

text \<open>
  Byte order. A host stores an integer in memory in its own byte order; the
  program converts with \<open>htonl\<close>, \<open>htons\<close>, \<open>ntohl\<close>, \<open>ntohs\<close> (C library) and its own
  \<open>swap64\<close>, \<open>hostToNetwork64\<close>, \<open>networkToHost64\<close> (\<open>server/src/protocol.cpp\<close> and
  \<open>client/network/protocol.cpp\<close>, the same text in both). The host's order is an
  argument, so what is proved holds for the little-endian hosts the program runs
  on and for the big-endian branch of its preprocessor conditions.
\<close>

section \<open>Words in memory\<close>

datatype endian = Little | Big

text \<open>The \<open>n\<close> low bytes of a word, least significant first.\<close>

definition le_bytes :: "nat \<Rightarrow> 'a::len word \<Rightarrow> bytes" where
  "le_bytes n w = map (\<lambda>i. ucast (drop_bit (8 * i) w)) [0..<n]"

fun of_le :: "bytes \<Rightarrow> 'a::len word" where
  "of_le [] = 0"
| "of_le (b # bs) = ucast b OR push_bit 8 (of_le bs)"

text \<open>The bytes of an integer object in the host's memory, and the integer read back.\<close>

definition mem_bytes :: "endian \<Rightarrow> 'a::len word \<Rightarrow> bytes" where
  "mem_bytes e w = (case e of Little \<Rightarrow> le_bytes (LENGTH('a) div 8) w
                            | Big \<Rightarrow> rev (le_bytes (LENGTH('a) div 8) w))"

definition mem_word :: "endian \<Rightarrow> bytes \<Rightarrow> 'a::len word" where
  "mem_word e bs = (case e of Little \<Rightarrow> of_le bs | Big \<Rightarrow> of_le (rev bs))"

text \<open>Network order: most significant byte first.\<close>

definition be_bytes :: "'a::len word \<Rightarrow> bytes" where
  "be_bytes w = rev (le_bytes (LENGTH('a) div 8) w)"

definition be_word :: "bytes \<Rightarrow> 'a::len word" where
  "be_word bs = of_le (rev bs)"

section \<open>Conversions\<close>

definition byte_swap :: "'a::len word \<Rightarrow> 'a word" where
  "byte_swap w = of_le (rev (le_bytes (LENGTH('a) div 8) w))"

definition htonl :: "endian \<Rightarrow> u32 \<Rightarrow> u32" where
  "htonl e w = (case e of Little \<Rightarrow> byte_swap w | Big \<Rightarrow> w)"

definition ntohl :: "endian \<Rightarrow> u32 \<Rightarrow> u32" where
  "ntohl e w = (case e of Little \<Rightarrow> byte_swap w | Big \<Rightarrow> w)"

definition htons :: "endian \<Rightarrow> u16 \<Rightarrow> u16" where
  "htons e w = (case e of Little \<Rightarrow> byte_swap w | Big \<Rightarrow> w)"

definition ntohs :: "endian \<Rightarrow> u16 \<Rightarrow> u16" where
  "ntohs e w = (case e of Little \<Rightarrow> byte_swap w | Big \<Rightarrow> w)"

definition swap64 :: "endian \<Rightarrow> u64 \<Rightarrow> u64" where
  "swap64 e value =
     push_bit 32 (ucast (htonl e (ucast (value AND 0xFFFFFFFF)))) OR
     ucast (htonl e (ucast (drop_bit 32 value)))"

definition hostToNetwork64 :: "endian \<Rightarrow> u64 \<Rightarrow> u64" where
  "hostToNetwork64 e value = (case e of Big \<Rightarrow> value | Little \<Rightarrow> swap64 e value)"

definition networkToHost64 :: "endian \<Rightarrow> u64 \<Rightarrow> u64" where
  "networkToHost64 e value = (case e of Big \<Rightarrow> value | Little \<Rightarrow> swap64 e value)"

section \<open>Bytes of words\<close>

lemma length_le_bytes [simp]: "length (le_bytes n w) = n"
  by (simp add: le_bytes_def)

lemma length_mem_bytes [simp]: "length (mem_bytes e (w :: 'a::len word)) = LENGTH('a) div 8"
  by (simp add: mem_bytes_def split: endian.split)

lemma length_be_bytes [simp]: "length (be_bytes (w :: 'a::len word)) = LENGTH('a) div 8"
  by (simp add: be_bytes_def)

lemma bit_of_le:
  "bit (of_le bs :: 'a::len word) i \<longleftrightarrow>
     i < LENGTH('a) \<and> i div 8 < length bs \<and> bit (bs ! (i div 8)) (i mod 8)"
proof (induction bs arbitrary: i)
  case (Cons b bs)
  show ?case
  proof (cases "i < 8")
    case True
    then show ?thesis by (auto simp: bit_simps)
  next
    case False
    then have "\<not> bit b i" using bit_imp_le_length [of b i] by auto
    moreover have "i div 8 = Suc ((i - 8) div 8)" and "(i - 8) mod 8 = i mod 8"
      using False by (simp_all add: le_div_geq le_mod_geq)
    ultimately show ?thesis
      using False Cons.IH [of "i - 8"] by (auto simp: bit_simps)
  qed
qed simp

lemma bit_le_bytes_nth:
  "i < n \<Longrightarrow> bit (le_bytes n w ! i) j \<longleftrightarrow> j < 8 \<and> bit w (8 * i + j)"
  by (auto simp: le_bytes_def bit_simps)

lemma of_le_le_bytes:
  "8 * n = LENGTH('a) \<Longrightarrow> of_le (le_bytes n w) = (w :: 'a::len word)"
  by (rule bit_word_eqI) (auto simp: bit_of_le bit_le_bytes_nth)

lemma le_bytes_of_le:
  assumes "length bs = n" and "8 * n \<le> LENGTH('a)"
  shows "le_bytes n (of_le bs :: 'a::len word) = bs"
proof (rule nth_equalityI)
  show "length (le_bytes n (of_le bs :: 'a word)) = length bs" using assms by simp
next
  fix i assume "i < length (le_bytes n (of_le bs :: 'a word))"
  then have i: "i < n" by simp
  show "le_bytes n (of_le bs :: 'a word) ! i = bs ! i"
  proof (rule bit_word_eqI)
    fix j assume "j < LENGTH(8)"
    then have "j < 8" by simp
    then show "bit (le_bytes n (of_le bs :: 'a word) ! i) j = bit (bs ! i) j"
      using i assms by (auto simp: bit_of_le bit_le_bytes_nth)
  qed
qed

lemma byte_swap_le_bytes:
  assumes "8 * n = LENGTH('a)"
  shows "le_bytes n (byte_swap w) = rev (le_bytes n (w :: 'a::len word))"
proof -
  have "LENGTH('a) div 8 = n" using assms by arith
  then show ?thesis using assms by (simp add: byte_swap_def le_bytes_of_le)
qed

lemma byte_swap_of_le:
  assumes "8 * n = LENGTH('a)" and "length bs = n"
  shows "byte_swap (of_le bs :: 'a::len word) = of_le (rev bs)"
proof -
  have "LENGTH('a) div 8 = n" using assms by arith
  then show ?thesis using assms by (simp add: byte_swap_def le_bytes_of_le)
qed

text \<open>Reading a network-order field and packing one are inverse, at every whole-byte width.\<close>

lemma be_word_be_bytes:
  "8 * (LENGTH('a) div 8) = LENGTH('a) \<Longrightarrow> be_word (be_bytes w) = (w :: 'a::len word)"
  by (simp add: be_word_def be_bytes_def of_le_le_bytes)

lemma be_bytes_be_word:
  "8 * (LENGTH('a) div 8) = LENGTH('a) \<Longrightarrow> length bs = LENGTH('a) div 8 \<Longrightarrow>
   be_bytes (be_word bs :: 'a::len word) = bs"
  by (simp add: be_word_def be_bytes_def le_bytes_of_le)

lemma be_word_be_bytes_sizes [simp]:
  "be_word (be_bytes (v :: u16)) = v"
  "be_word (be_bytes (w :: u32)) = w"
  "be_word (be_bytes (x :: u64)) = x"
  by (simp_all add: be_word_be_bytes)

lemma mem_word_mem_bytes:
  "8 * (LENGTH('a) div 8) = LENGTH('a) \<Longrightarrow> mem_word e (mem_bytes e w) = (w :: 'a::len word)"
  by (simp add: mem_word_def mem_bytes_def of_le_le_bytes split: endian.split)

lemma mem_word_mem_bytes_sizes [simp]:
  "mem_word e (mem_bytes e (v :: u16)) = v"
  "mem_word e (mem_bytes e (w :: u32)) = w"
  "mem_word e (mem_bytes e (x :: u64)) = x"
  by (simp_all add: mem_word_mem_bytes)

section \<open>What the conversions put on the wire\<close>

text \<open>
  On either host, storing a converted integer writes its network-order bytes, and
  converting a loaded field yields the integer those bytes denote.
\<close>

lemma mem_bytes_hton [simp]:
  "mem_bytes e (htonl e w) = be_bytes w"
  "mem_bytes e (htons e v) = be_bytes v"
  by (simp_all add: mem_bytes_def be_bytes_def htonl_def htons_def byte_swap_le_bytes
      split: endian.split)

lemma ntoh_mem_word:
  "length bs = 4 \<Longrightarrow> ntohl e (mem_word e bs) = be_word bs"
  "length cs = 2 \<Longrightarrow> ntohs e (mem_word e cs) = be_word cs"
  by (simp_all add: ntohl_def ntohs_def mem_word_def be_word_def byte_swap_of_le
      split: endian.split)

text \<open>The hand-written \<open>swap64\<close> is the byte reversal of the 64-bit integer.\<close>

lemma bit_byte_swap:
  assumes n: "8 * n = LENGTH('a)" and i: "i < LENGTH('a)"
  shows "bit (byte_swap (w :: 'a::len word)) i = bit w (8 * (n - 1 - i div 8) + i mod 8)"
proof -
  have "LENGTH('a) div 8 = n" and "i div 8 < n" using n i by arith+
  then show ?thesis
    using i by (simp add: byte_swap_def bit_of_le rev_nth bit_le_bytes_nth)
qed

lemma ucast_low_half: "(ucast (v AND 0xFFFFFFFF :: u64) :: u32) = ucast v"
proof -
  have m: "(0xFFFFFFFF :: u64) = mask 32" by (simp add: mask_eq_exp_minus_1)
  show ?thesis unfolding m by (rule bit_word_eqI) (simp add: bit_simps)
qed

lemma swap64_Little: "swap64 Little v = byte_swap v"
proof (rule bit_word_eqI)
  fix i assume "i < LENGTH(64)"
  then have i: "i < 64" by simp
  show "bit (swap64 Little v) i = bit (byte_swap v) i"
  proof (cases "i < 32")
    case True
    then have "bit (swap64 Little v) i = bit v (32 + (8 * (3 - i div 8) + i mod 8))"
      by (auto simp: swap64_def htonl_def bit_simps bit_byte_swap [where n = 4])
    moreover have "32 + (8 * (3 - i div 8) + i mod 8) = 8 * (7 - i div 8) + i mod 8"
      using True by simp
    ultimately show ?thesis using i by (simp add: bit_byte_swap [where n = 8])
  next
    case False
    define j where "j = i - 32"
    have j: "i = j + 32" "j < 32" using False i by (auto simp: j_def)
    have "bit (swap64 Little v) i = bit v (8 * (3 - j div 8) + j mod 8)"
      using j by (auto simp: swap64_def ucast_low_half htonl_def bit_simps
          bit_byte_swap [where n = 4] dest: bit_imp_le_length)
    moreover have "i div 8 = j div 8 + 4" and "i mod 8 = j mod 8"
      unfolding j(1) by presburger+
    ultimately show ?thesis using i by (simp add: bit_byte_swap [where n = 8])
  qed
qed

lemma mem_bytes_hostToNetwork64 [simp]:
  "mem_bytes e (hostToNetwork64 e x) = be_bytes x"
  by (simp add: hostToNetwork64_def swap64_Little mem_bytes_def be_bytes_def
      byte_swap_le_bytes split: endian.split)

lemma networkToHost64_mem_word:
  "length bs = 8 \<Longrightarrow> networkToHost64 e (mem_word e bs) = be_word bs"
  by (simp add: networkToHost64_def swap64_Little mem_word_def be_word_def byte_swap_of_le
      split: endian.split)

section \<open>Properties\<close>

text \<open>
  The 64-bit conversions give the same eight bytes on the wire on every host, the
  big-endian representation of the value, and a host of any byte order reads them back.
\<close>

theorem wire64_host_independent:
  "mem_bytes e (hostToNetwork64 e v) = be_bytes v \<and>
   networkToHost64 e' (mem_word e' (mem_bytes e (hostToNetwork64 e v))) = v"
  by (simp add: mem_bytes_hostToNetwork64 networkToHost64_mem_word)

end
