(* ===== verification/C_Strings.thy ===== *)
theory C_Strings
  imports Byte_Order
begin

text \<open>
  Strings in fixed-size \<open>char\<close> arrays: \<open>std::strncpy\<close> into a zeroed field, the
  terminator every parser writes into the last byte, \<open>boundedStrnlen\<close>
  (\<open>server/src/utils.h\<close>) and the \<open>std::string(p, n)\<close> the server builds from a field.
  A \<open>std::string\<close> may hold NUL bytes; its \<open>c_str()\<close> reads as C text up to the first.
\<close>

section \<open>Definitions\<close>

text \<open>The C text at the start of a byte sequence.\<close>

definition c_text :: "bytes \<Rightarrow> bytes" where
  "c_text s = takeWhile (\<lambda>c. c \<noteq> 0) s"

text \<open>\<open>std::strncpy(dst, src.c_str(), n)\<close>: at most \<open>n\<close> bytes, padded with NULs to \<open>n\<close>.\<close>

definition strncpy :: "bytes \<Rightarrow> bytes \<Rightarrow> nat \<Rightarrow> bytes" where
  "strncpy dst src n =
     (let s = take n (c_text src) in s @ zeros (n - length s) @ drop n dst)"

text \<open>\<open>arr[sizeof(arr) - 1] = '\\0'\<close>.\<close>

definition terminate :: "bytes \<Rightarrow> bytes" where
  "terminate arr = arr[length arr - 1 := 0]"

text \<open>
  \<open>boundedStrnlen\<close> scans from \<open>len\<close> while \<open>len < max_len\<close> and the byte is not NUL.
  Every caller passes the size of the array it scans as \<open>max_len\<close>.
\<close>

function strnlen_from :: "bytes \<Rightarrow> nat \<Rightarrow> nat \<Rightarrow> nat" where
  "strnlen_from s max_len len =
     (if len < max_len \<and> s ! len \<noteq> 0 then strnlen_from s max_len (Suc len) else len)"
  by pat_completeness auto
termination
  by (relation "measure (\<lambda>(s, max_len, len). max_len - len)") auto

declare strnlen_from.simps [simp del]

definition boundedStrnlen :: "bytes \<Rightarrow> nat \<Rightarrow> nat" where
  "boundedStrnlen s max_len = strnlen_from s max_len 0"

text \<open>\<open>std::string(arr, boundedStrnlen(arr, sizeof(arr)))\<close>.\<close>

definition field_string :: "bytes \<Rightarrow> bytes" where
  "field_string arr = take (boundedStrnlen arr (length arr)) arr"

text \<open>A field of \<open>n\<close> bytes, zeroed and then filled by \<open>strncpy(field, s.c_str(), n - 1)\<close>.\<close>

definition text_field :: "nat \<Rightarrow> bytes \<Rightarrow> bytes" where
  "text_field n s = strncpy (zeros n) s (n - 1)"

text \<open>What such a field can carry of a string: its C text cut to \<open>n - 1\<close> bytes.\<close>

definition clip :: "nat \<Rightarrow> bytes \<Rightarrow> bytes" where
  "clip n s = take (n - 1) (c_text s)"

section \<open>Scanning\<close>

lemma strnlen_from_takeWhile:
  "len \<le> max_len \<Longrightarrow> max_len \<le> length s \<Longrightarrow>
   strnlen_from s max_len len = len + length (c_text (take (max_len - len) (drop len s)))"
proof (induction s max_len len rule: strnlen_from.induct)
  case (1 s max_len len)
  show ?case
  proof (cases "len < max_len")
    case True
    then have d: "drop len s = s ! len # drop (Suc len) s"
      using "1.prems" by (simp add: Cons_nth_drop_Suc)
    have t: "take (max_len - len) (drop len s) =
        s ! len # take (max_len - Suc len) (drop (Suc len) s)"
      using True by (simp add: d Suc_diff_Suc [symmetric])
    show ?thesis
      using True "1.IH" "1.prems"
      by (subst strnlen_from.simps) (simp add: t c_text_def)
  next
    case False
    with "1.prems" show ?thesis by (subst strnlen_from.simps) (simp add: c_text_def)
  qed
qed

lemma boundedStrnlen_eq:
  "max_len \<le> length s \<Longrightarrow> boundedStrnlen s max_len = length (c_text (take max_len s))"
  by (simp add: boundedStrnlen_def strnlen_from_takeWhile)

lemma field_string_eq: "field_string arr = c_text arr"
  by (simp add: field_string_def boundedStrnlen_eq c_text_def takeWhile_eq_take [symmetric])

section \<open>C text\<close>

lemma c_text_no_nul [simp]: "0 \<notin> set (c_text s)"
  by (auto simp: c_text_def dest: set_takeWhileD)

lemma c_text_id: "0 \<notin> set s \<Longrightarrow> c_text s = s"
  by (auto simp: c_text_def takeWhile_eq_all_conv)

lemma c_text_idem [simp]: "c_text (c_text s) = c_text s"
  by (simp add: c_text_id)

lemma c_text_Nil [simp]: "c_text [] = []"
  by (simp add: c_text_def)

lemma c_text_append_zero [simp]: "0 \<notin> set s \<Longrightarrow> c_text (s @ 0 # t) = s"
  by (induction s) (auto simp: c_text_def)

lemma length_c_text_le: "length (c_text s) \<le> length s"
  by (simp add: c_text_def length_takeWhile_le)

lemma c_text_append_zeros: "0 \<notin> set s \<Longrightarrow> c_text (s @ zeros n) = s"
  by (cases n) (simp_all add: c_text_id zeros_def)

lemma c_text_take: "c_text (take n s) = take n (c_text s)"
  by (simp add: c_text_def takeWhile_take_prefix)

section \<open>Clipping\<close>

lemma clip_no_nul [simp]: "0 \<notin> set (clip n s)"
  using c_text_no_nul [of s] by (auto simp: clip_def dest: in_set_takeD)

lemma length_clip: "length (clip n s) \<le> n - 1"
  by (simp add: clip_def)

lemma clip_id: "0 \<notin> set s \<Longrightarrow> length s < n \<Longrightarrow> clip n s = s"
  by (simp add: clip_def c_text_id)

lemma clip_idem [simp]: "clip n (clip n s) = clip n s"
  by (simp add: clip_def c_text_take)

lemma clip_c_text [simp]: "clip n (c_text s) = clip n s"
  by (simp add: clip_def)

lemma c_text_clip [simp]: "c_text (clip n s) = clip n s"
  by (simp add: clip_def c_text_take)

lemma clip_Nil [simp]: "clip n [] = []"
  by (simp add: clip_def)

section \<open>Fields\<close>

lemma text_field_eq:
  "0 < n \<Longrightarrow> text_field n s = clip n s @ zeros (n - length (clip n s))"
proof -
  assume n: "0 < n"
  have "length (clip n s) < n" using length_clip [of n s] n by simp
  then have "n - length (clip n s) = Suc (n - 1 - length (clip n s))" by simp
  then have "zeros (n - length (clip n s)) = zeros (n - 1 - length (clip n s)) @ zeros 1"
    by (simp add: zeros_def replicate_append_same)
  moreover have "drop (n - 1) (zeros n) = zeros 1" using n by simp
  ultimately show ?thesis
    by (simp only: text_field_def strncpy_def Let_def clip_def [symmetric])
qed

lemma length_text_field [simp]: "0 < n \<Longrightarrow> length (text_field n s) = n"
  using length_clip [of n s] by (simp add: text_field_eq)

text \<open>A packed field already ends in a NUL, so the parser's terminator leaves it alone.\<close>

lemma terminate_text_field [simp]: "0 < n \<Longrightarrow> terminate (text_field n s) = text_field n s"
proof -
  assume n: "0 < n"
  have len: "length (clip n s) < n" using length_clip [of n s] n by simp
  have "\<not> n - 1 < length (clip n s)" using n len by simp
  moreover have "n - 1 - length (clip n s) < n - length (clip n s)" using n len by simp
  ultimately have "text_field n s ! (n - 1) = 0"
    unfolding text_field_eq [OF n] nth_append by (simp add: zeros_def)
  then show ?thesis
    using n by (metis length_text_field list_update_id terminate_def)
qed

lemma length_terminate [simp]: "length (terminate arr) = length arr"
  by (simp add: terminate_def)

lemma c_text_text_field [simp]: "0 < n \<Longrightarrow> c_text (text_field n s) = clip n s"
  by (simp add: text_field_eq c_text_append_zeros)

text \<open>Reading back a packed field gives the clipped string.\<close>

lemma field_string_text_field [simp]: "0 < n \<Longrightarrow> field_string (text_field n s) = clip n s"
  by (simp add: field_string_eq)

text \<open>Whatever a peer sent, a terminated field holds a string shorter than the field.\<close>

lemma length_c_text_terminate:
  assumes "arr \<noteq> []"
  shows "length (c_text (terminate arr)) < length arr"
proof -
  have "terminate arr ! (length arr - 1) = 0" and l: "length arr - 1 < length (terminate arr)"
    using assms by (simp_all add: terminate_def)
  then have "0 \<in> set (terminate arr)" by (metis nth_mem)
  then have "c_text (terminate arr) \<noteq> terminate arr" by (metis c_text_no_nul)
  then have "length (c_text (terminate arr)) \<noteq> length (terminate arr)"
    by (metis c_text_def takeWhile_eq_take take_all_iff order_refl)
  then show ?thesis using length_c_text_le [of "terminate arr"] by simp
qed

lemma clip_c_text_terminate:
  assumes "length arr = n" and "0 < n"
  shows "clip n (c_text (terminate arr)) = c_text (terminate arr)"
  using assms length_c_text_terminate [of arr] by (intro clip_id) auto

text \<open>The string of a field whose last byte is overwritten with the terminator.\<close>

lemma c_text_snoc: "c_text (xs @ [0]) = c_text xs"
  by (induction xs) (simp_all add: c_text_def)

lemma field_string_terminate_clip:
  assumes "arr \<noteq> []"
  shows "field_string (terminate arr) = clip (length arr) arr"
proof -
  have "terminate arr = (butlast arr @ [last arr])[length (butlast arr) := 0]"
    using assms by (simp add: terminate_def)
  also have "\<dots> = take (length arr - 1) arr @ [0]"
    by (simp only: list_update_length) (simp add: butlast_conv_take)
  finally have "c_text (terminate arr) = c_text (take (length arr - 1) arr)"
    by (simp add: c_text_snoc)
  then show ?thesis by (simp add: field_string_eq clip_def c_text_take)
qed

section \<open>Properties\<close>

text \<open>
  Whatever bytes a peer put into a text field, the string the program takes from it
  after writing the terminator is shorter than the field, free of NUL bytes, and equal to
  the field's contents up to the first NUL, cut by one byte at most.
\<close>

theorem field_string_safe:
  assumes "0 < length arr"
  shows "field_string (terminate arr) = take (length arr - 1) (takeWhile (\<lambda>c. c \<noteq> 0) arr) \<and>
    length (field_string (terminate arr)) < length arr \<and> 0 \<notin> set (field_string (terminate arr))"
proof -
  have "arr \<noteq> []" using assms by auto
  then have eq: "field_string (terminate arr) = clip (length arr) arr"
    by (rule field_string_terminate_clip)
  have "length (clip (length arr) arr) < length arr"
    using assms length_clip [of "length arr" arr] by linarith
  moreover have "clip (length arr) arr = take (length arr - 1) (takeWhile (\<lambda>c. c \<noteq> 0) arr)"
    by (simp add: clip_def c_text_def)
  ultimately show ?thesis unfolding eq by (metis clip_no_nul)
qed

theorem field_string_safe_witness:
  "field_string (terminate [65, 66, 67]) = [65, 66]"
  using field_string_safe [of "[65, 66, 67]"] by simp

end
