(* ===== verification/Messages.thy ===== *)
theory Messages
  imports C_Strings
begin

text \<open>
  The packed wire structures of \<open>server/include/common/message.h\<close> (the client has the
  same declarations in \<open>client/network/protocol.h\<close>), their sizes, and the memory
  image of each: \<open>std::memcpy\<close> of a structure to and from a buffer. Field names carry
  a prefix per structure, since the structures share names.
\<close>

section \<open>Message types and result codes\<close>

definition MSG_HEARTBEAT_REQ :: u16 where "MSG_HEARTBEAT_REQ = 0x0001"
definition MSG_HEARTBEAT_RSP :: u16 where "MSG_HEARTBEAT_RSP = 0x0002"
definition MSG_LOGIN_REQ :: u16 where "MSG_LOGIN_REQ = 0x0101"
definition MSG_LOGIN_RSP :: u16 where "MSG_LOGIN_RSP = 0x0102"
definition MSG_LOGOUT_REQ :: u16 where "MSG_LOGOUT_REQ = 0x0103"
definition MSG_CHAT_MSG :: u16 where "MSG_CHAT_MSG = 0x0201"
definition MSG_USER_LIST_REQ :: u16 where "MSG_USER_LIST_REQ = 0x0202"
definition MSG_USER_LIST_RSP :: u16 where "MSG_USER_LIST_RSP = 0x0203"
definition MSG_FILE_OFFER :: u16 where "MSG_FILE_OFFER = 0x0301"
definition MSG_FILE_OFFER_RSP :: u16 where "MSG_FILE_OFFER_RSP = 0x0302"
definition MSG_FILE_DATA :: u16 where "MSG_FILE_DATA = 0x0303"
definition MSG_FILE_DATA_ACK :: u16 where "MSG_FILE_DATA_ACK = 0x0304"

lemmas msg_type_defs =
  MSG_HEARTBEAT_REQ_def MSG_HEARTBEAT_RSP_def MSG_LOGIN_REQ_def MSG_LOGIN_RSP_def
  MSG_LOGOUT_REQ_def MSG_CHAT_MSG_def MSG_USER_LIST_REQ_def MSG_USER_LIST_RSP_def
  MSG_FILE_OFFER_def MSG_FILE_OFFER_RSP_def MSG_FILE_DATA_def MSG_FILE_DATA_ACK_def

definition LOGIN_SUCCESS :: u32 where "LOGIN_SUCCESS = 0"
definition LOGIN_INVALID_PARAM :: u32 where "LOGIN_INVALID_PARAM = 1"
definition LOGIN_SERVER_FULL :: u32 where "LOGIN_SERVER_FULL = 2"
definition LOGIN_ALREADY_ONLINE :: u32 where "LOGIN_ALREADY_ONLINE = 3"
definition LOGIN_NICKNAME_TAKEN :: u32 where "LOGIN_NICKNAME_TAKEN = 4"

lemmas login_result_defs =
  LOGIN_SUCCESS_def LOGIN_INVALID_PARAM_def LOGIN_SERVER_FULL_def
  LOGIN_ALREADY_ONLINE_def LOGIN_NICKNAME_TAKEN_def

text \<open>\<open>enum ChatScope : uint8_t\<close>, and the cast of an enumerator to its byte.\<close>

datatype ChatScope = CHAT_GROUP | CHAT_PRIVATE

fun scope_byte :: "ChatScope \<Rightarrow> u8" where
  "scope_byte CHAT_GROUP = 0"
| "scope_byte CHAT_PRIVATE = 1"

definition FILE_OFFER_ACCEPT :: u32 where "FILE_OFFER_ACCEPT = 0"
definition FILE_OFFER_DECLINE :: u32 where "FILE_OFFER_DECLINE = 1"
definition FILE_OFFER_BUSY :: u32 where "FILE_OFFER_BUSY = 2"

lemmas offer_result_defs =
  FILE_OFFER_ACCEPT_def FILE_OFFER_DECLINE_def FILE_OFFER_BUSY_def

section \<open>Structures\<close>

record MessageHeader =
  magic :: u32
  version :: u16
  msgType :: u16
  bodyLength :: u32
  sequence :: u32

record LoginRequest =
  lrq_clientId :: bytes
  lrq_nickname :: bytes

record LoginResponse =
  lrs_result :: u32
  lrs_message :: bytes

record ChatMessage =
  cm_chatType :: u8
  cm_fromId :: bytes
  cm_fromNick :: bytes
  cm_toId :: bytes
  cm_timestamp :: u64
  cm_message :: bytes

record UserInfo =
  ui_clientId :: bytes
  ui_nickname :: bytes

record FileOffer =
  fo_fileId :: bytes
  fo_fromId :: bytes
  fo_fromNick :: bytes
  fo_toId :: bytes
  fo_fileSize :: u64
  fo_fileName :: bytes

record FileOfferResponse =
  fr_fileId :: bytes
  fr_result :: u32
  fr_message :: bytes

record FileDataHeader =
  fd_fileId :: bytes
  fd_offset :: u64
  fd_chunkSize :: u32

section \<open>Sizes\<close>

abbreviation "sizeof_MessageHeader \<equiv> (16 :: nat)"
abbreviation "sizeof_LoginRequest \<equiv> (96 :: nat)"
abbreviation "sizeof_LoginResponse \<equiv> (132 :: nat)"
abbreviation "sizeof_ChatMessage \<equiv> (393 :: nat)"
abbreviation "sizeof_UserInfo \<equiv> (96 :: nat)"
abbreviation "sizeof_FileOffer \<equiv> (429 :: nat)"
abbreviation "sizeof_FileOfferResponse \<equiv> (105 :: nat)"
abbreviation "sizeof_FileDataHeader \<equiv> (49 :: nat)"

section \<open>Memory images\<close>

text \<open>
  With \<open>#pragma pack(push, 1)\<close> a structure's image is its fields one after the other.
  \<open>get off n bs\<close> is the \<open>n\<close>-byte field at offset \<open>off\<close>.
\<close>

definition get :: "nat \<Rightarrow> nat \<Rightarrow> bytes \<Rightarrow> bytes" where
  "get off n bs = take n (drop off bs)"

definition MessageHeader_image :: "endian \<Rightarrow> MessageHeader \<Rightarrow> bytes" where
  "MessageHeader_image e h =
     mem_bytes e (magic h) @ mem_bytes e (version h) @ mem_bytes e (msgType h) @
     mem_bytes e (bodyLength h) @ mem_bytes e (sequence h)"

definition MessageHeader_load :: "endian \<Rightarrow> bytes \<Rightarrow> MessageHeader" where
  "MessageHeader_load e bs =
     \<lparr>magic = mem_word e (get 0 4 bs), version = mem_word e (get 4 2 bs),
      msgType = mem_word e (get 6 2 bs), bodyLength = mem_word e (get 8 4 bs),
      sequence = mem_word e (get 12 4 bs)\<rparr>"

definition LoginRequest_image :: "LoginRequest \<Rightarrow> bytes" where
  "LoginRequest_image r = lrq_clientId r @ lrq_nickname r"

definition LoginRequest_load :: "bytes \<Rightarrow> LoginRequest" where
  "LoginRequest_load bs = \<lparr>lrq_clientId = get 0 32 bs, lrq_nickname = get 32 64 bs\<rparr>"

definition LoginResponse_image :: "endian \<Rightarrow> LoginResponse \<Rightarrow> bytes" where
  "LoginResponse_image e r = mem_bytes e (lrs_result r) @ lrs_message r"

definition LoginResponse_load :: "endian \<Rightarrow> bytes \<Rightarrow> LoginResponse" where
  "LoginResponse_load e bs =
     \<lparr>lrs_result = mem_word e (get 0 4 bs), lrs_message = get 4 128 bs\<rparr>"

definition ChatMessage_image :: "endian \<Rightarrow> ChatMessage \<Rightarrow> bytes" where
  "ChatMessage_image e m =
     cm_chatType m # cm_fromId m @ cm_fromNick m @ cm_toId m @
     mem_bytes e (cm_timestamp m) @ cm_message m"

definition ChatMessage_load :: "endian \<Rightarrow> bytes \<Rightarrow> ChatMessage" where
  "ChatMessage_load e bs =
     \<lparr>cm_chatType = bs ! 0, cm_fromId = get 1 32 bs, cm_fromNick = get 33 64 bs,
      cm_toId = get 97 32 bs, cm_timestamp = mem_word e (get 129 8 bs),
      cm_message = get 137 256 bs\<rparr>"

definition UserInfo_image :: "UserInfo \<Rightarrow> bytes" where
  "UserInfo_image u = ui_clientId u @ ui_nickname u"

definition UserInfo_load :: "bytes \<Rightarrow> UserInfo" where
  "UserInfo_load bs = \<lparr>ui_clientId = get 0 32 bs, ui_nickname = get 32 64 bs\<rparr>"

definition FileOffer_image :: "endian \<Rightarrow> FileOffer \<Rightarrow> bytes" where
  "FileOffer_image e f =
     fo_fileId f @ fo_fromId f @ fo_fromNick f @ fo_toId f @
     mem_bytes e (fo_fileSize f) @ fo_fileName f"

definition FileOffer_load :: "endian \<Rightarrow> bytes \<Rightarrow> FileOffer" where
  "FileOffer_load e bs =
     \<lparr>fo_fileId = get 0 37 bs, fo_fromId = get 37 32 bs, fo_fromNick = get 69 64 bs,
      fo_toId = get 133 32 bs, fo_fileSize = mem_word e (get 165 8 bs),
      fo_fileName = get 173 256 bs\<rparr>"

definition FileOfferResponse_image :: "endian \<Rightarrow> FileOfferResponse \<Rightarrow> bytes" where
  "FileOfferResponse_image e r = fr_fileId r @ mem_bytes e (fr_result r) @ fr_message r"

definition FileOfferResponse_load :: "endian \<Rightarrow> bytes \<Rightarrow> FileOfferResponse" where
  "FileOfferResponse_load e bs =
     \<lparr>fr_fileId = get 0 37 bs, fr_result = mem_word e (get 37 4 bs),
      fr_message = get 41 64 bs\<rparr>"

definition FileDataHeader_image :: "endian \<Rightarrow> FileDataHeader \<Rightarrow> bytes" where
  "FileDataHeader_image e h =
     fd_fileId h @ mem_bytes e (fd_offset h) @ mem_bytes e (fd_chunkSize h)"

definition FileDataHeader_load :: "endian \<Rightarrow> bytes \<Rightarrow> FileDataHeader" where
  "FileDataHeader_load e bs =
     \<lparr>fd_fileId = get 0 37 bs, fd_offset = mem_word e (get 37 8 bs),
      fd_chunkSize = mem_word e (get 45 4 bs)\<rparr>"

section \<open>Field access in concatenations\<close>

lemma get_0 [simp]: "get 0 n bs = take n bs"
  by (simp add: get_def)

lemma length_get [simp]: "off + n \<le> length bs \<Longrightarrow> length (get off n bs) = n"
  by (simp add: get_def)

text \<open>
  Skipping whole leading fields and reading the one that starts the rest: rewriting
  with these resolves every field of an image whose leading fields have known lengths.
\<close>

lemma get_skip [layout_simps]:
  "length xs \<le> off \<Longrightarrow> get off n (xs @ ys) = get (off - length xs) n ys"
  by (simp add: get_def)

lemma get_skip_Cons [layout_simps]:
  "0 < off \<Longrightarrow> get off n (x # ys) = get (off - 1) n ys"
  by (cases off) (simp_all add: get_def)

lemma get_append_left: "off + n \<le> length xs \<Longrightarrow> get off n (xs @ ys) = get off n xs"
  by (simp add: get_def)

lemma get_take: "off + n \<le> k \<Longrightarrow> get off n (take k bs) = get off n bs"
  by (simp add: get_def drop_take min_def)

section \<open>The header on the wire\<close>

text \<open>The 16 bytes every message starts with, whatever the host's byte order.\<close>

definition MAGIC_NUMBER :: u32 where "MAGIC_NUMBER = 0x12345678"
definition PROTOCOL_VERSION :: u16 where "PROTOCOL_VERSION = 0x0001"

definition wire_header :: "u16 \<Rightarrow> u32 \<Rightarrow> u32 \<Rightarrow> bytes" where
  "wire_header ty len sq =
     be_bytes MAGIC_NUMBER @ be_bytes PROTOCOL_VERSION @ be_bytes ty @ be_bytes len @ be_bytes sq"

lemma length_wire_header [simp]: "length (wire_header ty len sq) = sizeof_MessageHeader"
  by (simp add: wire_header_def)

lemma MessageHeader_image_net [layout_simps]:
  "MessageHeader_image e
     \<lparr>magic = htonl e MAGIC_NUMBER, version = htons e PROTOCOL_VERSION, msgType = htons e ty,
      bodyLength = htonl e len, sequence = htonl e sq\<rparr> = wire_header ty len sq"
  by (simp add: MessageHeader_image_def wire_header_def)

lemma length_MessageHeader_image [simp]:
  "length (MessageHeader_image e h) = sizeof_MessageHeader"
  by (simp add: MessageHeader_image_def)

end
