(* ===== verification/Stream_Parser.thy ===== *)
theory Stream_Parser
  imports Messages
begin

text \<open>
  \<open>ProtocolParser::parseData\<close> (\<open>server/src/protocol.cpp\<close>): one receive buffer per
  connection, from which complete messages are cut and handed to a callback. The
  callback is a state transformer; the parser's own state is the map of buffers.
  \<open>deframe\<close> is the abstract specification: what a byte stream means as a sequence of
  messages, independent of how TCP cut it into reads.
\<close>

section \<open>The code\<close>

definition header_ntoh :: "endian \<Rightarrow> MessageHeader \<Rightarrow> MessageHeader" where
  "header_ntoh e h =
     \<lparr>magic = ntohl e (magic h), version = ntohs e (version h), msgType = ntohs e (msgType h),
      bodyLength = ntohl e (bodyLength h), sequence = ntohl e (sequence h)\<rparr>"

definition MAX_BODY :: u32 where "MAX_BODY = 1024 * 1024"

definition validateHeader :: "MessageHeader \<Rightarrow> bool" where
  "validateHeader header =
     (if magic header \<noteq> MAGIC_NUMBER then False
      else if version header \<noteq> PROTOCOL_VERSION then False
      else if bodyLength header > MAX_BODY then False
      else True)"

text \<open>
  The \<open>while\<close> loop over one buffer. The result is the buffer that stays behind and the
  state after the callbacks; an invalid header clears the buffer and stops.
\<close>

function parse_loop ::
    "endian \<Rightarrow> (int \<Rightarrow> MessageHeader \<Rightarrow> bytes \<Rightarrow> 's \<Rightarrow> 's) \<Rightarrow> int \<Rightarrow> bytes \<Rightarrow> 's \<Rightarrow> bytes \<times> 's" where
  "parse_loop e callback fd buffer s =
     (if length buffer \<ge> sizeof_MessageHeader then
        let header = header_ntoh e (MessageHeader_load e buffer) in
        if \<not> validateHeader header then ([], s)
        else
          let totalLen = sizeof_MessageHeader + unat (bodyLength header) in
          if length buffer < totalLen then (buffer, s)
          else
            let body = take (unat (bodyLength header)) (drop sizeof_MessageHeader buffer);
                s' = callback fd header body s
            in parse_loop e callback fd (drop totalLen buffer) s'
      else (buffer, s))"
  by pat_completeness auto
termination
  by (relation "measure (\<lambda>(e, callback, fd, buffer, s). length buffer)") auto

declare parse_loop.simps [simp del]

text \<open>\<open>std::map<int, std::vector<uint8_t>> recvBuffers_\<close>.\<close>

type_synonym recv_buffers = "int \<rightharpoonup> bytes"

text \<open>\<open>recvBuffers_[fd]\<close> inserts an empty buffer when there is none.\<close>

definition buffer_of :: "recv_buffers \<Rightarrow> int \<Rightarrow> bytes" where
  "buffer_of bufs fd = (case bufs fd of None \<Rightarrow> [] | Some b \<Rightarrow> b)"

definition parseData ::
    "endian \<Rightarrow> (int \<Rightarrow> MessageHeader \<Rightarrow> bytes \<Rightarrow> 's \<Rightarrow> 's) \<Rightarrow> int \<Rightarrow> bytes \<Rightarrow>
     recv_buffers \<times> 's \<Rightarrow> recv_buffers \<times> 's" where
  "parseData e callback fd data st =
     (let (bufs, s) = st;
          (rest, s') = parse_loop e callback fd (buffer_of bufs fd @ data) s
      in (bufs(fd \<mapsto> rest), s'))"

definition parser_removeClient :: "int \<Rightarrow> recv_buffers \<Rightarrow> recv_buffers" where
  "parser_removeClient fd bufs = bufs(fd := None)"

section \<open>Specification: the messages of a byte stream\<close>

text \<open>The header the first 16 bytes denote in network order.\<close>

definition decode_header :: "bytes \<Rightarrow> MessageHeader" where
  "decode_header bs =
     \<lparr>magic = be_word (get 0 4 bs), version = be_word (get 4 2 bs),
      msgType = be_word (get 6 2 bs), bodyLength = be_word (get 8 4 bs),
      sequence = be_word (get 12 4 bs)\<rparr>"

definition frame_len :: "bytes \<Rightarrow> nat" where
  "frame_len bs = sizeof_MessageHeader + unat (bodyLength (decode_header bs))"

text \<open>
  The complete messages at the front of a stream, and what follows them: \<open>Some rest\<close>
  when the rest is an unfinished message, \<open>None\<close> when an invalid header was met.
\<close>

function deframe :: "bytes \<Rightarrow> (MessageHeader \<times> bytes) list \<times> bytes option" where
  "deframe bs =
     (if length bs < sizeof_MessageHeader then ([], Some bs)
      else if \<not> validateHeader (decode_header bs) then ([], None)
      else if length bs < frame_len bs then ([], Some bs)
      else
        let (fs, r) = deframe (drop (frame_len bs) bs) in
        ((decode_header bs, get sizeof_MessageHeader (frame_len bs - sizeof_MessageHeader) bs) # fs, r))"
  by pat_completeness auto
termination
  by (relation "measure length") (auto simp: frame_len_def)

declare deframe.simps [simp del]

definition feed :: "(int \<Rightarrow> MessageHeader \<Rightarrow> bytes \<Rightarrow> 's \<Rightarrow> 's) \<Rightarrow> int \<Rightarrow>
    (MessageHeader \<times> bytes) list \<Rightarrow> 's \<Rightarrow> 's" where
  "feed callback fd fs s = fold (\<lambda>(h, b). callback fd h b) fs s"

lemma feed_Nil [simp]: "feed cb fd [] s = s"
  by (simp add: feed_def)

lemma feed_Cons [simp]: "feed cb fd ((h, b) # fs) s = feed cb fd fs (cb fd h b s)"
  by (simp add: feed_def)

lemma feed_append [simp]: "feed cb fd (fs @ gs) s = feed cb fd gs (feed cb fd fs s)"
  by (simp add: feed_def)

section \<open>The loop implements the specification\<close>

lemma header_load_decode:
  "sizeof_MessageHeader \<le> length bs \<Longrightarrow>
   header_ntoh e (MessageHeader_load e bs) = decode_header bs"
  by (simp add: header_ntoh_def MessageHeader_load_def decode_header_def ntoh_mem_word
      del: get_0)

lemma validate_bound: "validateHeader h \<Longrightarrow> unat (bodyLength h) \<le> 1048576"
proof -
  assume "validateHeader h"
  then have "bodyLength h \<le> MAX_BODY" by (auto simp: validateHeader_def split: if_splits)
  then have "unat (bodyLength h) \<le> unat MAX_BODY" by (simp add: word_le_nat_alt)
  then show ?thesis by (simp add: MAX_BODY_def)
qed

lemma parse_loop_deframe:
  "parse_loop e cb fd buf s =
     (case deframe buf of (fs, r) \<Rightarrow>
        ((case r of None \<Rightarrow> [] | Some b \<Rightarrow> b), feed cb fd fs s))"
proof (induction buf arbitrary: s rule: deframe.induct)
  case (1 bs)
  show ?case
  proof (cases "sizeof_MessageHeader \<le> length bs \<and> validateHeader (decode_header bs)
      \<and> frame_len bs \<le> length bs")
    case True
    then show ?thesis
      using "1.IH" by (subst parse_loop.simps, subst deframe.simps)
        (simp add: header_load_decode Let_def frame_len_def get_def split: prod.split)
  next
    case False
    then show ?thesis
      by (subst parse_loop.simps, subst deframe.simps)
        (auto simp: header_load_decode Let_def frame_len_def)
  qed
qed

section \<open>Streams cut into reads\<close>

lemma decode_header_append:
  "sizeof_MessageHeader \<le> length a \<Longrightarrow> decode_header (a @ b) = decode_header a"
  by (simp add: decode_header_def get_append_left del: get_0)

lemma frame_len_append:
  "sizeof_MessageHeader \<le> length a \<Longrightarrow> frame_len (a @ b) = frame_len a"
  by (simp add: frame_len_def decode_header_append)

lemma frame_len_ge: "sizeof_MessageHeader \<le> frame_len bs"
  by (simp add: frame_len_def)

text \<open>What arrives later only continues the unfinished message left by what came before.\<close>

lemma deframe_append:
  "deframe (a @ b) =
     (case deframe a of (fs, r) \<Rightarrow>
        (case r of None \<Rightarrow> (fs, None)
         | Some u \<Rightarrow> (case deframe (u @ b) of (gs, q) \<Rightarrow> (fs @ gs, q))))"
proof (induction a rule: deframe.induct)
  case (1 bs)
  show ?case
  proof (cases "sizeof_MessageHeader \<le> length bs")
    case False
    then show ?thesis by (simp add: deframe.simps [of bs] split: prod.split)
  next
    case len: True
    show ?thesis
    proof (cases "validateHeader (decode_header bs)")
      case False
      with len show ?thesis
        by (simp add: deframe.simps [of bs] deframe.simps [of "bs @ b"] decode_header_append)
    next
      case valid: True
      show ?thesis
      proof (cases "length bs < frame_len bs")
        case True
        with len valid show ?thesis by (simp add: deframe.simps [of bs] split: prod.split)
      next
        case False
        with len valid "1.IH" show ?thesis
          using frame_len_ge [of bs]
          by (simp add: deframe.simps [of bs] deframe.simps [of "bs @ b"] decode_header_append
              frame_len_append get_append_left Let_def split: prod.split option.split)
      qed
    qed
  qed
qed

lemma deframe_rest_stuck: "deframe bs = (fs, Some r) \<Longrightarrow> deframe r = ([], Some r)"
proof (induction bs arbitrary: fs rule: deframe.induct)
  case (1 bs)
  show ?case
  proof (cases "sizeof_MessageHeader \<le> length bs \<and> validateHeader (decode_header bs)
      \<and> frame_len bs \<le> length bs")
    case True
    with "1.prems" obtain gs where "deframe (drop (frame_len bs) bs) = (gs, Some r)"
      by (subst (asm) deframe.simps) (auto simp: Let_def split: prod.splits)
    with True "1.IH" show ?thesis by simp
  next
    case False
    with "1.prems" have "r = bs"
      by (subst (asm) deframe.simps) (auto split: if_splits)
    with False "1.prems" show ?thesis
      by (subst deframe.simps) (auto simp: deframe.simps [of bs] split: if_splits)
  qed
qed

lemma deframe_rest_short:
  assumes "deframe bs = (fs, Some r)"
  shows "length r < sizeof_MessageHeader + 1048576"
proof -
  from assms have "deframe r = ([], Some r)" by (rule deframe_rest_stuck)
  then have "length r < sizeof_MessageHeader \<or>
      validateHeader (decode_header r) \<and> length r < frame_len r"
    by (subst (asm) deframe.simps) (auto simp: Let_def split: if_splits prod.splits)
  then show ?thesis using validate_bound [of "decode_header r"] by (auto simp: frame_len_def)
qed

section \<open>Reading a stream in several pieces\<close>

definition parse_chunks ::
    "endian \<Rightarrow> (int \<Rightarrow> MessageHeader \<Rightarrow> bytes \<Rightarrow> 's \<Rightarrow> 's) \<Rightarrow> int \<Rightarrow> bytes list \<Rightarrow>
     recv_buffers \<times> 's \<Rightarrow> recv_buffers \<times> 's" where
  "parse_chunks e cb fd chunks st = fold (parseData e cb fd) chunks st"

lemma buffer_of_upd [simp]:
  "buffer_of (bufs(fd \<mapsto> b)) fd' = (if fd' = fd then b else buffer_of bufs fd')"
  by (simp add: buffer_of_def)

lemma buffer_of_removed [simp]:
  "buffer_of (parser_removeClient fd bufs) fd' = (if fd' = fd then [] else buffer_of bufs fd')"
  by (simp add: buffer_of_def parser_removeClient_def)

lemma parseData_deframe:
  "parseData e cb fd data (bufs, s) =
     (case deframe (buffer_of bufs fd @ data) of (fs, r) \<Rightarrow>
        (bufs(fd \<mapsto> (case r of None \<Rightarrow> [] | Some b \<Rightarrow> b)), feed cb fd fs s))"
  by (simp add: parseData_def parse_loop_deframe split: prod.split)

lemma parse_chunks_deframe:
  assumes "deframe (buffer_of bufs fd @ concat chunks) = (fs, Some r)" and "chunks \<noteq> []"
  shows "parse_chunks e cb fd chunks (bufs, s) = (bufs(fd \<mapsto> r), feed cb fd fs s)"
  using assms
proof (induction chunks arbitrary: bufs fs s)
  case (Cons c cs)
  obtain gs q where g: "deframe (buffer_of bufs fd @ c) = (gs, q)" by fastforce
  with Cons.prems(1) obtain u hs where u: "q = Some u"
    and h: "deframe (u @ concat cs) = (hs, Some r)" and fs: "fs = gs @ hs"
    using deframe_append [of "buffer_of bufs fd @ c" "concat cs"]
    by (auto split: option.splits prod.splits)
  have head: "parse_chunks e cb fd (c # cs) (bufs, s) =
      parse_chunks e cb fd cs (bufs(fd \<mapsto> u), feed cb fd gs s)"
    by (simp add: parse_chunks_def parseData_deframe g u)
  show ?case
  proof (cases "cs = []")
    case True
    with h have hs: "hs = []" and ur: "u = r"
      using deframe_rest_stuck [OF g [unfolded u]] by simp_all
    show ?thesis
      unfolding head by (simp add: True hs ur fs parse_chunks_def fun_upd_def)
  next
    case False
    have "deframe (buffer_of (bufs(fd \<mapsto> u)) fd @ concat cs) = (hs, Some r)" using h by simp
    note IH = Cons.IH [OF this False]
    show ?thesis
      unfolding head using IH by (simp add: fs fun_upd_def cong: if_cong)
  qed
qed simp

section \<open>Messages on the wire\<close>

definition wire_message :: "u16 \<Rightarrow> u32 \<Rightarrow> bytes \<Rightarrow> bytes" where
  "wire_message ty sq body = wire_header ty (of_nat (length body)) sq @ body"

definition host_header :: "u16 \<Rightarrow> u32 \<Rightarrow> bytes \<Rightarrow> MessageHeader" where
  "host_header ty sq body =
     \<lparr>magic = MAGIC_NUMBER, version = PROTOCOL_VERSION, msgType = ty,
      bodyLength = of_nat (length body), sequence = sq\<rparr>"

lemma host_header_simps [simp]:
  "msgType (host_header ty sq body) = ty"
  "sequence (host_header ty sq body) = sq"
  "bodyLength (host_header ty sq body) = of_nat (length body)"
  by (simp_all add: host_header_def)

lemma length_wire_message [simp]:
  "length (wire_message ty sq body) = sizeof_MessageHeader + length body"
  by (simp add: wire_message_def)

lemma decode_wire_message:
  "decode_header (wire_message ty sq body @ rest) = host_header ty sq body"
  by (simp add: decode_header_def wire_message_def wire_header_def host_header_def layout_simps)

lemma body_length_word:
  assumes "length body \<le> 1048576"
  shows "unat (of_nat (length body) :: u32) = length body"
    and "(of_nat (length body) :: u32) \<le> MAX_BODY"
proof -
  show u: "unat (of_nat (length body) :: u32) = length body"
    using assms by (simp add: unat_of_nat)
  show "(of_nat (length body) :: u32) \<le> MAX_BODY"
    using assms by (simp add: word_le_nat_alt u MAX_BODY_def)
qed

lemma deframe_message:
  assumes "length body \<le> 1048576"
  shows "deframe (wire_message ty sq body @ rest) =
     (case deframe rest of (fs, r) \<Rightarrow> ((host_header ty sq body, body) # fs, r))"
proof -
  let ?bs = "wire_message ty sq body @ rest"
  have valid: "validateHeader (host_header ty sq body)"
    using body_length_word [OF assms] by (simp add: validateHeader_def host_header_def not_less)
  have len: "frame_len ?bs = sizeof_MessageHeader + length body"
    using body_length_word [OF assms] by (simp add: frame_len_def decode_wire_message)
  have body: "get sizeof_MessageHeader (length body) ?bs = body"
    by (simp add: wire_message_def get_skip)
  show ?thesis
    by (subst deframe.simps) (simp add: valid len body decode_wire_message split: prod.split)
qed

type_synonym message = "u16 \<times> u32 \<times> bytes"

definition wire_stream :: "message list \<Rightarrow> bytes" where
  "wire_stream ms = concat (map (\<lambda>(ty, sq, b). wire_message ty sq b) ms)"

definition host_frames :: "message list \<Rightarrow> (MessageHeader \<times> bytes) list" where
  "host_frames ms = map (\<lambda>(ty, sq, b). (host_header ty sq b, b)) ms"

lemma deframe_Nil [simp]: "deframe [] = ([], Some [])"
  by (simp add: deframe.simps)

lemma deframe_stream:
  "(\<And>ty sq b. (ty, sq, b) \<in> set ms \<Longrightarrow> length b \<le> 1048576) \<Longrightarrow>
   deframe (wire_stream ms @ rest) =
     (case deframe rest of (fs, r) \<Rightarrow> (host_frames ms @ fs, r))"
proof (induction ms)
  case (Cons m ms)
  obtain ty sq b where m: "m = (ty, sq, b)" by (cases m)
  have "length b \<le> 1048576" using Cons.prems m by auto
  moreover have "deframe (wire_stream ms @ rest) =
      (case deframe rest of (fs, r) \<Rightarrow> (host_frames ms @ fs, r))"
    using Cons.prems by (intro Cons.IH) auto
  ultimately show ?case
    by (simp add: m wire_stream_def host_frames_def deframe_message split: prod.split)
qed (simp add: wire_stream_def host_frames_def split: prod.split)

section \<open>What the parser relies on from a packing function\<close>

text \<open>
  A packing function promises one well-formed message of its type for every legal
  input; a codec also promises that the peer's body parser accepts it. Everything the
  stream parser does with such a packet follows from these laws, once, for every
  message of the protocol.
\<close>

locale packet =
  fixes pack :: "u32 \<Rightarrow> 'a \<Rightarrow> bytes"
    and ty :: u16
    and body :: "'a \<Rightarrow> bytes"
    and legal :: "'a \<Rightarrow> bool"
  assumes pack_wire: "legal x \<Longrightarrow> pack sq x = wire_message ty sq (body x)"
    and body_bound: "legal x \<Longrightarrow> length (body x) \<le> 1048576"
begin

lemma deframe_pack:
  "legal x \<Longrightarrow> deframe (pack sq x @ rest) =
     (case deframe rest of (fs, r) \<Rightarrow> ((host_header ty sq (body x), body x) # fs, r))"
  by (simp add: pack_wire body_bound deframe_message)

text \<open>A packet that arrives on an empty buffer causes exactly its own callback.\<close>

lemma parseData_pack:
  "legal x \<Longrightarrow> buffer_of bufs fd = [] \<Longrightarrow>
   parseData e cb fd (pack sq x) (bufs, s) =
     (bufs(fd \<mapsto> []), cb fd (host_header ty sq (body x)) (body x) s)"
  using deframe_pack [of x sq "[]"] by (simp add: parseData_deframe)

lemma length_pack: "legal x \<Longrightarrow> length (pack sq x) = sizeof_MessageHeader + length (body x)"
  by (simp add: pack_wire)

end

locale codec = packet pack ty body legal
  for pack :: "u32 \<Rightarrow> 'a \<Rightarrow> bytes" and ty :: u16 and body :: "'a \<Rightarrow> bytes"
    and legal :: "'a \<Rightarrow> bool" +
  fixes parse :: "bytes \<Rightarrow> 'b option"
    and view :: "'a \<Rightarrow> 'b"
  assumes parse_body: "legal x \<Longrightarrow> parse (body x) = Some (view x)"
begin

text \<open>Packed by one side, cut into any reads, parsed by the other.\<close>

lemma transported:
  assumes "legal x" and "buffer_of bufs fd = []" and "concat chunks = pack sq x"
  shows "parse_chunks e cb fd chunks (bufs, s) =
      (bufs(fd \<mapsto> []), cb fd (host_header ty sq (body x)) (body x) s)"
    and "parse (body x) = Some (view x)"
proof -
  have "chunks \<noteq> []" using assms(1,3) length_pack [of x sq] by auto
  then show "parse_chunks e cb fd chunks (bufs, s) =
      (bufs(fd \<mapsto> []), cb fd (host_header ty sq (body x)) (body x) s)"
    using deframe_pack [OF assms(1), of sq "[]"] assms(2,3)
    by (subst parse_chunks_deframe) auto
  show "parse (body x) = Some (view x)" using assms(1) by (rule parse_body)
qed

end

section \<open>Properties\<close>

text \<open>
  C3: \<open>parseData\<close> hands exactly the messages of its specification \<open>deframe\<close> to the
  callback, in order, and keeps the unfinished rest; after an invalid header it keeps
  nothing. Other connections' buffers are untouched.
\<close>

theorem parseData_refines_deframe:
  "parseData e cb fd data (bufs, s) =
     (case deframe (buffer_of bufs fd @ data) of (fs, r) \<Rightarrow>
        (\<lambda>g. if g = fd then Some (case r of None \<Rightarrow> [] | Some b \<Rightarrow> b) else bufs g,
         fold (\<lambda>(h, b). cb fd h b) fs s))"
  by (simp add: parseData_deframe feed_def fun_upd_def split: prod.split)

text \<open>
  C4: however TCP cuts a stream of messages into reads, the callback sees the same
  messages in the same order, and nothing is left over.
\<close>

theorem stream_fragmentation:
  assumes "\<forall>(ty, sq, b) \<in> set ms. length b \<le> 1048576" and "chunks \<noteq> []"
    and "concat chunks = wire_stream ms" and "buffer_of bufs fd = []"
  shows "parse_chunks e cb fd chunks (bufs, s) =
    (bufs(fd \<mapsto> []), fold (\<lambda>(ty, sq, b). cb fd (host_header ty sq b) b) ms s)"
proof -
  have "deframe (wire_stream ms @ []) = (case deframe [] of (fs, r) \<Rightarrow> (host_frames ms @ fs, r))"
    using assms(1) by (intro deframe_stream) auto
  then have "deframe (buffer_of bufs fd @ concat chunks) = (host_frames ms, Some [])"
    using assms(3,4) by simp
  from parse_chunks_deframe [OF this assms(2), of e cb s] show ?thesis
    by (simp add: feed_def host_frames_def fold_map comp_def case_prod_beta')
qed

theorem stream_fragmentation_witness:
  "parse_chunks Little (\<lambda>fd h b s. s @ [(msgType h, sequence h, b)]) 5
     [take 7 (wire_stream [(1, 2, [3]), (4, 5, [])]), drop 7 (wire_stream [(1, 2, [3]), (4, 5, [])])]
     (\<lambda>_. None, []) = ((\<lambda>_. None)(5 \<mapsto> []), [(1, 2, [3]), (4, 5, [])])"
  using stream_fragmentation [of "[(1, 2, [3]), (4, 5, [])]"
      "[take 7 (wire_stream [(1, 2, [3]), (4, 5, [])]), drop 7 (wire_stream [(1, 2, [3]), (4, 5, [])])]"
      "\<lambda>_. None" 5 Little "\<lambda>fd h b s. s @ [(msgType h, sequence h, b)]" "[]"]
  by (simp add: buffer_of_def)

text \<open>
  C37: between two reads a connection's buffer holds less than one message of the largest
  size, whatever the peer sends.
\<close>

theorem receive_buffer_bounded:
  "length (buffer_of (fst (parseData e cb fd data st)) fd) < sizeof_MessageHeader + 1048576"
proof -
  obtain bufs s where st: "st = (bufs, s)" by fastforce
  obtain fs r where d: "deframe (buffer_of bufs fd @ data) = (fs, r)" by fastforce
  show ?thesis
    using deframe_rest_short [of "buffer_of bufs fd @ data" fs]
    by (cases r) (simp_all add: st parseData_deframe d)
qed

text \<open>
  C38: a header with a wrong magic number, version or length costs everything behind it:
  the messages before it are handled, the buffer is emptied, and valid messages that came
  in the same read after it are lost.
\<close>

theorem invalid_header_discards:
  assumes "\<forall>(ty, sq, b) \<in> set ms. length b \<le> 1048576" and "sizeof_MessageHeader \<le> length bad"
    and "\<not> validateHeader (decode_header bad)"
    and "buffer_of bufs fd @ data = wire_stream ms @ bad @ rest"
  shows "parseData e cb fd data (bufs, s) =
    (bufs(fd \<mapsto> []), fold (\<lambda>(ty, sq, b). cb fd (host_header ty sq b) b) ms s)"
proof -
  have "deframe (bad @ rest) = ([], None)"
    using assms(2,3) by (subst deframe.simps) (simp add: decode_header_append)
  moreover have "deframe (wire_stream ms @ (bad @ rest)) =
      (case deframe (bad @ rest) of (fs, r) \<Rightarrow> (host_frames ms @ fs, r))"
    using assms(1) by (intro deframe_stream) auto
  ultimately show ?thesis
    by (simp add: parseData_deframe assms(4) feed_def host_frames_def fold_map comp_def case_prod_beta')
qed

theorem invalid_header_discards_witness:
  "parseData Little (\<lambda>fd h b s. s @ [msgType h]) 5
     (wire_stream [(1, 2, [])] @ zeros 16 @ wire_stream [(3, 4, [])]) (\<lambda>_. None, []) =
   ((\<lambda>_. None)(5 \<mapsto> []), [1])"
proof -
  have "\<not> validateHeader (decode_header (zeros 16))"
  proof -
    have "magic (decode_header (zeros 16)) = 0"
      by (simp add: decode_header_def be_word_def zeros_def numeral_eq_Suc)
    then show ?thesis by (simp add: validateHeader_def MAGIC_NUMBER_def)
  qed
  then show ?thesis
    using invalid_header_discards [of "[(1, 2, [])]" "zeros 16" "\<lambda>_. None" 5
        "wire_stream [(1, 2, [])] @ zeros 16 @ wire_stream [(3, 4, [])]"
        "wire_stream [(3, 4, [])]" Little "\<lambda>fd h b s. s @ [msgType h]" "[]"]
    by (simp add: buffer_of_def)
qed

end
