(* ===== verification/Wire_Format.thy ===== *)
theory Wire_Format
  imports Stream_Parser
begin

text \<open>
  The wire format of every message body, as \<open>docs/module3_protocol_design.md\<close> and the
  packed structures lay it out: the abstract form that both the server's and the
  client's packing functions are proved to produce, and that both sides' parsers are
  proved to read. Integers are in network order, strings are NUL-padded fields.
\<close>

section \<open>Bodies\<close>

definition wire_login_req :: "bytes \<Rightarrow> bytes \<Rightarrow> bytes" where
  "wire_login_req clientId nickname = text_field 32 clientId @ text_field 64 nickname"

definition wire_login_rsp :: "u32 \<Rightarrow> bytes \<Rightarrow> bytes" where
  "wire_login_rsp result msg = be_bytes result @ text_field 128 msg"

definition wire_chat :: "ChatScope \<Rightarrow> bytes \<Rightarrow> bytes \<Rightarrow> bytes \<Rightarrow> bytes \<Rightarrow> u64 \<Rightarrow> bytes" where
  "wire_chat scope fromId fromNick toId msg ts =
     scope_byte scope # text_field 32 fromId @ text_field 64 fromNick @ text_field 32 toId @
     be_bytes ts @ text_field 256 msg"

definition wire_user :: "bytes \<times> bytes \<Rightarrow> bytes" where
  "wire_user u = text_field 32 (fst u) @ text_field 64 (snd u)"

definition wire_user_list :: "(bytes \<times> bytes) list \<Rightarrow> bytes" where
  "wire_user_list us = be_bytes (of_nat (length us) :: u32) @ concat (map wire_user us)"

definition wire_offer :: "bytes \<Rightarrow> bytes \<Rightarrow> u64 \<Rightarrow> bytes \<Rightarrow> bytes \<Rightarrow> bytes \<Rightarrow> bytes" where
  "wire_offer fileId fileName fileSize fromId fromNick toId =
     text_field 37 fileId @ text_field 32 fromId @ text_field 64 fromNick @
     text_field 32 toId @ be_bytes fileSize @ text_field 256 fileName"

definition wire_offer_rsp :: "bytes \<Rightarrow> u32 \<Rightarrow> bytes \<Rightarrow> bytes" where
  "wire_offer_rsp fileId result msg =
     text_field 37 fileId @ be_bytes result @ text_field 64 msg"

definition wire_file_data :: "bytes \<Rightarrow> u64 \<Rightarrow> bytes \<Rightarrow> bytes" where
  "wire_file_data fileId off data =
     text_field 37 fileId @ be_bytes off @ be_bytes (of_nat (length data) :: u32) @ data"

lemmas wire_defs =
  wire_login_req_def wire_login_rsp_def wire_chat_def wire_user_list_def
  wire_offer_def wire_offer_rsp_def wire_file_data_def

section \<open>Lengths\<close>

lemma length_wire_user [simp]: "length (wire_user u) = sizeof_UserInfo"
  by (simp add: wire_user_def)

lemma length_concat_users [simp]:
  "length (concat (map wire_user us)) = length us * sizeof_UserInfo"
  by (induction us) simp_all

lemma length_wire_bodies [simp]:
  "length (wire_login_req i n) = sizeof_LoginRequest"
  "length (wire_login_rsp r m) = sizeof_LoginResponse"
  "length (wire_chat sc i n t m ts) = sizeof_ChatMessage"
  "length (wire_user_list us) = 4 + length us * sizeof_UserInfo"
  "length (wire_offer f nm sz i n t) = sizeof_FileOffer"
  "length (wire_offer_rsp f r m) = sizeof_FileOfferResponse"
  "length (wire_file_data f off data) = sizeof_FileDataHeader + length data"
  by (simp_all add: wire_defs)

section \<open>Writing a header and a body into a fresh buffer\<close>

text \<open>The two \<open>memcpy\<close> calls that end every packing function.\<close>

lemma memcpy_header_body [pack_simps]:
  assumes "length hdr = k" and "m = k + length bd"
  shows "memcpy (memcpy (zeros m) 0 hdr) k bd = hdr @ bd"
  using assms by (simp add: memcpy_zeros_head memcpy_append_zeros)

lemma memcpy_header_only [pack_simps]:
  "length hdr = k \<Longrightarrow> memcpy (zeros k) 0 hdr = hdr"
  by (simp add: memcpy_zeros_head)

text \<open>The five field sizes of the protocol.\<close>

lemma text_field_sizes [pack_simps]:
  "strncpy (zeros 32) s 31 = text_field 32 s"
  "strncpy (zeros 37) s 36 = text_field 37 s"
  "strncpy (zeros 64) s 63 = text_field 64 s"
  "strncpy (zeros 128) s 127 = text_field 128 s"
  "strncpy (zeros 256) s 255 = text_field 256 s"
  by (simp_all add: text_field_def)

lemma wire_message_Nil: "wire_message ty sq [] = wire_header ty 0 sq"
  by (simp add: wire_message_def)

end
