(* ===== verification/Server_Protocol.thy ===== *)
theory Server_Protocol
  imports Wire_Format
begin

text \<open>
  The packing and body-parsing functions of \<open>server/src/protocol.cpp\<close>. A parsing
  function returns \<open>None\<close> where the code returns \<open>false\<close>; a buffer and its length
  argument are one byte list. Each packing function builds the structures field by
  field, in host order, and copies their images into a zeroed buffer, as the code does.
\<close>

section \<open>Packing\<close>

definition packHeartbeatResponse :: "endian \<Rightarrow> u32 \<Rightarrow> bytes" where
  "packHeartbeatResponse e sq =
     (let buffer = zeros sizeof_MessageHeader;
          header = \<lparr>magic = htonl e MAGIC_NUMBER, version = htons e PROTOCOL_VERSION,
                    msgType = htons e MSG_HEARTBEAT_RSP, bodyLength = htonl e 0,
                    sequence = htonl e sq\<rparr>
      in memcpy buffer 0 (MessageHeader_image e header))"

definition packLoginResponse :: "endian \<Rightarrow> u32 \<Rightarrow> u32 \<Rightarrow> bytes \<Rightarrow> bytes" where
  "packLoginResponse e sq result msg =
     (let buffer = zeros (sizeof_MessageHeader + sizeof_LoginResponse);
          header = \<lparr>magic = htonl e MAGIC_NUMBER, version = htons e PROTOCOL_VERSION,
                    msgType = htons e MSG_LOGIN_RSP,
                    bodyLength = htonl e (of_nat sizeof_LoginResponse),
                    sequence = htonl e sq\<rparr>;
          rsp = \<lparr>lrs_result = htonl e result, lrs_message = strncpy (zeros 128) msg (128 - 1)\<rparr>;
          buffer = memcpy buffer 0 (MessageHeader_image e header)
      in memcpy buffer sizeof_MessageHeader (LoginResponse_image e rsp))"

definition packChatMessage ::
    "endian \<Rightarrow> u32 \<Rightarrow> ChatScope \<Rightarrow> bytes \<Rightarrow> bytes \<Rightarrow> bytes \<Rightarrow> bytes \<Rightarrow> u64 \<Rightarrow> bytes" where
  "packChatMessage e sq scope fromId fromNick toId text timestamp =
     (let buffer = zeros (sizeof_MessageHeader + sizeof_ChatMessage);
          header = \<lparr>magic = htonl e MAGIC_NUMBER, version = htons e PROTOCOL_VERSION,
                    msgType = htons e MSG_CHAT_MSG,
                    bodyLength = htonl e (of_nat sizeof_ChatMessage),
                    sequence = htonl e sq\<rparr>;
          msg = \<lparr>cm_chatType = scope_byte scope,
                 cm_fromId = strncpy (zeros 32) fromId (32 - 1),
                 cm_fromNick = strncpy (zeros 64) fromNick (64 - 1),
                 cm_toId = strncpy (zeros 32) toId (32 - 1),
                 cm_timestamp = hostToNetwork64 e timestamp,
                 cm_message = strncpy (zeros 256) text (256 - 1)\<rparr>;
          buffer = memcpy buffer 0 (MessageHeader_image e header)
      in memcpy buffer sizeof_MessageHeader (ChatMessage_image e msg))"

text \<open>The \<open>for\<close> loop that copies one \<open>UserInfo\<close> after the other, advancing \<open>offset\<close>.\<close>

fun copy_users :: "bytes \<Rightarrow> nat \<Rightarrow> UserInfo list \<Rightarrow> bytes" where
  "copy_users buffer off [] = buffer"
| "copy_users buffer off (user # users) =
     copy_users (memcpy buffer off (UserInfo_image user)) (off + sizeof_UserInfo) users"

definition packUserListResponse :: "endian \<Rightarrow> u32 \<Rightarrow> UserInfo list \<Rightarrow> bytes" where
  "packUserListResponse e sq users =
     (let count = (of_nat (length users) :: u32);
          bodyLen = 4 + length users * sizeof_UserInfo;
          buffer = zeros (sizeof_MessageHeader + bodyLen);
          header = \<lparr>magic = htonl e MAGIC_NUMBER, version = htons e PROTOCOL_VERSION,
                    msgType = htons e MSG_USER_LIST_RSP,
                    bodyLength = htonl e (of_nat bodyLen), sequence = htonl e sq\<rparr>;
          countNet = htonl e count;
          buffer = memcpy buffer 0 (MessageHeader_image e header);
          buffer = memcpy buffer sizeof_MessageHeader (mem_bytes e countNet)
      in copy_users buffer (sizeof_MessageHeader + 4) users)"

definition packFileOffer ::
    "endian \<Rightarrow> u32 \<Rightarrow> bytes \<Rightarrow> bytes \<Rightarrow> u64 \<Rightarrow> bytes \<Rightarrow> bytes \<Rightarrow> bytes \<Rightarrow> bytes" where
  "packFileOffer e sq fileId fileName fileSize fromId fromNick toId =
     (let buffer = zeros (sizeof_MessageHeader + sizeof_FileOffer);
          header = \<lparr>magic = htonl e MAGIC_NUMBER, version = htons e PROTOCOL_VERSION,
                    msgType = htons e MSG_FILE_OFFER,
                    bodyLength = htonl e (of_nat sizeof_FileOffer),
                    sequence = htonl e sq\<rparr>;
          offer = \<lparr>fo_fileId = strncpy (zeros 37) fileId (37 - 1),
                   fo_fromId = strncpy (zeros 32) fromId (32 - 1),
                   fo_fromNick = strncpy (zeros 64) fromNick (64 - 1),
                   fo_toId = strncpy (zeros 32) toId (32 - 1),
                   fo_fileSize = hostToNetwork64 e fileSize,
                   fo_fileName = strncpy (zeros 256) fileName (256 - 1)\<rparr>;
          buffer = memcpy buffer 0 (MessageHeader_image e header)
      in memcpy buffer sizeof_MessageHeader (FileOffer_image e offer))"

definition packFileOfferResponse :: "endian \<Rightarrow> u32 \<Rightarrow> bytes \<Rightarrow> u32 \<Rightarrow> bytes \<Rightarrow> bytes" where
  "packFileOfferResponse e sq fileId result msg =
     (let buffer = zeros (sizeof_MessageHeader + sizeof_FileOfferResponse);
          header = \<lparr>magic = htonl e MAGIC_NUMBER, version = htons e PROTOCOL_VERSION,
                    msgType = htons e MSG_FILE_OFFER_RSP,
                    bodyLength = htonl e (of_nat sizeof_FileOfferResponse),
                    sequence = htonl e sq\<rparr>;
          rsp = \<lparr>fr_fileId = strncpy (zeros 37) fileId (37 - 1),
                 fr_result = htonl e result,
                 fr_message = strncpy (zeros 64) msg (64 - 1)\<rparr>;
          buffer = memcpy buffer 0 (MessageHeader_image e header)
      in memcpy buffer sizeof_MessageHeader (FileOfferResponse_image e rsp))"

definition packRawMessage :: "endian \<Rightarrow> u16 \<Rightarrow> u32 \<Rightarrow> bytes \<Rightarrow> bytes" where
  "packRawMessage e ty sq body =
     (let buffer = zeros (sizeof_MessageHeader + length body);
          header = \<lparr>magic = htonl e MAGIC_NUMBER, version = htons e PROTOCOL_VERSION,
                    msgType = htons e ty, bodyLength = htonl e (of_nat (length body)),
                    sequence = htonl e sq\<rparr>;
          buffer = memcpy buffer 0 (MessageHeader_image e header)
      in if length body > 0 then memcpy buffer sizeof_MessageHeader body else buffer)"

section \<open>Parsing\<close>

definition parseLoginRequest :: "bytes \<Rightarrow> LoginRequest option" where
  "parseLoginRequest data =
     (if length data < sizeof_LoginRequest then None
      else let req = LoginRequest_load data in
        Some (req\<lparr>lrq_clientId := terminate (lrq_clientId req),
                  lrq_nickname := terminate (lrq_nickname req)\<rparr>))"

definition parseChatMessage :: "endian \<Rightarrow> bytes \<Rightarrow> ChatMessage option" where
  "parseChatMessage e data =
     (if length data < sizeof_ChatMessage then None
      else let msg = ChatMessage_load e data in
        Some (msg\<lparr>cm_fromId := terminate (cm_fromId msg),
                  cm_fromNick := terminate (cm_fromNick msg),
                  cm_toId := terminate (cm_toId msg),
                  cm_message := terminate (cm_message msg),
                  cm_timestamp := networkToHost64 e (cm_timestamp msg)\<rparr>))"

definition parseFileOffer :: "endian \<Rightarrow> bytes \<Rightarrow> FileOffer option" where
  "parseFileOffer e data =
     (if length data < sizeof_FileOffer then None
      else let offer = FileOffer_load e data in
        Some (offer\<lparr>fo_fileId := terminate (fo_fileId offer),
                    fo_fromId := terminate (fo_fromId offer),
                    fo_fromNick := terminate (fo_fromNick offer),
                    fo_toId := terminate (fo_toId offer),
                    fo_fileName := terminate (fo_fileName offer),
                    fo_fileSize := networkToHost64 e (fo_fileSize offer)\<rparr>))"

definition parseFileOfferResponse :: "endian \<Rightarrow> bytes \<Rightarrow> FileOfferResponse option" where
  "parseFileOfferResponse e data =
     (if length data < sizeof_FileOfferResponse then None
      else let rsp = FileOfferResponse_load e data in
        Some (rsp\<lparr>fr_fileId := terminate (fr_fileId rsp),
                  fr_result := ntohl e (fr_result rsp),
                  fr_message := terminate (fr_message rsp)\<rparr>))"

section \<open>Every packing function writes its wire form\<close>

lemma packHeartbeatResponse_wire [pack_simps]:
  "packHeartbeatResponse e sq = wire_message MSG_HEARTBEAT_RSP sq []"
  by (simp add: packHeartbeatResponse_def wire_message_Nil layout_simps pack_simps)

lemma packLoginResponse_wire [pack_simps]:
  "packLoginResponse e sq result msg =
     wire_message MSG_LOGIN_RSP sq (wire_login_rsp result msg)"
  by (simp add: packLoginResponse_def wire_message_def wire_login_rsp_def
      LoginResponse_image_def layout_simps pack_simps)

lemma packChatMessage_wire [pack_simps]:
  "packChatMessage e sq scope fromId fromNick toId text timestamp =
     wire_message MSG_CHAT_MSG sq (wire_chat scope fromId fromNick toId text timestamp)"
  by (simp add: packChatMessage_def wire_message_def wire_chat_def
      ChatMessage_image_def layout_simps pack_simps)

lemma packFileOffer_wire [pack_simps]:
  "packFileOffer e sq fileId fileName fileSize fromId fromNick toId =
     wire_message MSG_FILE_OFFER sq (wire_offer fileId fileName fileSize fromId fromNick toId)"
  by (simp add: packFileOffer_def wire_message_def wire_offer_def
      FileOffer_image_def layout_simps pack_simps)

lemma packFileOfferResponse_wire [pack_simps]:
  "packFileOfferResponse e sq fileId result msg =
     wire_message MSG_FILE_OFFER_RSP sq (wire_offer_rsp fileId result msg)"
  by (simp add: packFileOfferResponse_def wire_message_def wire_offer_rsp_def
      FileOfferResponse_image_def layout_simps pack_simps)

lemma packRawMessage_wire [pack_simps]:
  "packRawMessage e ty sq body = wire_message ty sq body"
  by (cases "body = []") (simp_all add: packRawMessage_def Let_def wire_message_def layout_simps pack_simps)

text \<open>
  For the user list the code copies the users one by one; the buffer ends as their
  concatenation.
\<close>

lemma copy_users_zeros:
  "length pre = off \<Longrightarrow>
   (\<And>u. u \<in> set users \<Longrightarrow> length (UserInfo_image u) = sizeof_UserInfo) \<Longrightarrow>
   copy_users (pre @ zeros (length users * sizeof_UserInfo)) off users =
     pre @ concat (map UserInfo_image users)"
proof (induction users arbitrary: pre off)
  case (Cons u us)
  have u: "length (UserInfo_image u) = sizeof_UserInfo" using Cons.prems by simp
  have "memcpy (pre @ zeros (length (u # us) * sizeof_UserInfo)) off (UserInfo_image u) =
      (pre @ UserInfo_image u) @ zeros (length us * sizeof_UserInfo)"
    using Cons.prems(1) u by (simp add: memcpy_append_zeros)
  then show ?case
    using Cons.IH [of "pre @ UserInfo_image u" "off + sizeof_UserInfo"] Cons.prems u by simp
qed simp

text \<open>The server fills every entry with clipped, NUL-padded strings.\<close>

definition user_entry :: "bytes \<times> bytes \<Rightarrow> UserInfo" where
  "user_entry u = \<lparr>ui_clientId = text_field 32 (fst u), ui_nickname = text_field 64 (snd u)\<rparr>"

lemma user_entry_image: "UserInfo_image (user_entry u) = wire_user u"
  by (simp add: UserInfo_image_def user_entry_def wire_user_def)

lemma packUserListResponse_wire [pack_simps]:
  "packUserListResponse e sq (map user_entry us) =
     wire_message MSG_USER_LIST_RSP sq (wire_user_list us)"
proof -
  let ?n = "length us * sizeof_UserInfo" and ?h = "wire_header MSG_USER_LIST_RSP (of_nat (4 + length us * sizeof_UserInfo)) sq"
  let ?c = "be_bytes (of_nat (length us) :: u32)"
  have "memcpy (memcpy (zeros (sizeof_MessageHeader + (4 + ?n))) 0 ?h) sizeof_MessageHeader ?c =
      (?h @ ?c) @ zeros ?n"
    by (simp add: memcpy_zeros_head memcpy_append_zeros)
  then have "packUserListResponse e sq (map user_entry us) =
      copy_users ((?h @ ?c) @ zeros ?n) (sizeof_MessageHeader + 4) (map user_entry us)"
    by (simp add: packUserListResponse_def Let_def MessageHeader_image_net del: append_assoc)
  also have "\<dots> = (?h @ ?c) @ concat (map UserInfo_image (map user_entry us))"
    using copy_users_zeros [of "?h @ ?c" "sizeof_MessageHeader + 4" "map user_entry us"]
    by (simp add: user_entry_image image_iff) (use user_entry_image in force)
  finally show ?thesis
    by (simp add: wire_message_def wire_user_list_def user_entry_image comp_def)
qed

section \<open>Parsing what arrives\<close>

text \<open>
  On bodies in wire form the parsers read back the clipped fields; trailing bytes after
  the structure are ignored.
\<close>

lemma get_field [layout_simps]: "length xs = n \<Longrightarrow> get 0 n (xs @ ys) = xs"
  by simp

lemma parseLoginRequest_wire [parse_simps]:
  "parseLoginRequest (wire_login_req i n @ extra) =
     Some \<lparr>lrq_clientId = text_field 32 i, lrq_nickname = text_field 64 n\<rparr>"
  by (simp add: parseLoginRequest_def LoginRequest_load_def wire_login_req_def layout_simps)

lemma parseChatMessage_wire [parse_simps]:
  "parseChatMessage e (wire_chat sc i n t m ts @ extra) =
     Some \<lparr>cm_chatType = scope_byte sc, cm_fromId = text_field 32 i, cm_fromNick = text_field 64 n,
           cm_toId = text_field 32 t, cm_timestamp = ts, cm_message = text_field 256 m\<rparr>"
  by (simp add: parseChatMessage_def ChatMessage_load_def wire_chat_def layout_simps
      networkToHost64_mem_word)

lemma parseFileOffer_wire [parse_simps]:
  "parseFileOffer e (wire_offer f nm sz i n t @ extra) =
     Some \<lparr>fo_fileId = text_field 37 f, fo_fromId = text_field 32 i, fo_fromNick = text_field 64 n,
           fo_toId = text_field 32 t, fo_fileSize = sz, fo_fileName = text_field 256 nm\<rparr>"
  by (simp add: parseFileOffer_def FileOffer_load_def wire_offer_def layout_simps
      networkToHost64_mem_word)

lemma parseFileOfferResponse_wire [parse_simps]:
  "parseFileOfferResponse e (wire_offer_rsp f r m @ extra) =
     Some \<lparr>fr_fileId = text_field 37 f, fr_result = r, fr_message = text_field 64 m\<rparr>"
  by (simp add: parseFileOfferResponse_def FileOfferResponse_load_def wire_offer_rsp_def
      layout_simps ntoh_mem_word)

lemmas server_parse_exact =
  parseLoginRequest_wire [where extra = "[]", simplified]
  parseChatMessage_wire [where extra = "[]", simplified]
  parseFileOffer_wire [where extra = "[]", simplified]
  parseFileOfferResponse_wire [where extra = "[]", simplified]

text \<open>Short bodies are refused, and nothing else is.\<close>

lemma parse_None_iff:
  "parseLoginRequest data = None \<longleftrightarrow> length data < sizeof_LoginRequest"
  "parseChatMessage e data = None \<longleftrightarrow> length data < sizeof_ChatMessage"
  "parseFileOffer e data = None \<longleftrightarrow> length data < sizeof_FileOffer"
  "parseFileOfferResponse e data = None \<longleftrightarrow> length data < sizeof_FileOfferResponse"
  by (simp_all add: parseLoginRequest_def parseChatMessage_def parseFileOffer_def
      parseFileOfferResponse_def Let_def)

text \<open>
  Whatever a peer sent, each string the server takes from a parsed structure is free of
  NUL bytes and shorter than its field, so packing it again loses nothing.
\<close>

lemma field_string_terminate:
  assumes "length arr = n" and "0 < n"
  shows "length (field_string (terminate arr)) < n"
    and "0 \<notin> set (field_string (terminate arr))"
    and "clip n (field_string (terminate arr)) = field_string (terminate arr)"
  using assms length_c_text_terminate [of arr] clip_c_text_terminate [of arr n]
  by (auto simp: field_string_eq)

lemma parseLoginRequest_fields:
  assumes "parseLoginRequest data = Some r"
  shows "\<exists>a b. length a = 32 \<and> length b = 64 \<and>
    lrq_clientId r = terminate a \<and> lrq_nickname r = terminate b"
proof -
  have "sizeof_LoginRequest \<le> length data"
    and r: "r = \<lparr>lrq_clientId = terminate (take 32 data), lrq_nickname = terminate (get 32 64 data)\<rparr>"
    using assms by (auto simp: parseLoginRequest_def LoginRequest_load_def Let_def split: if_splits)
  then show ?thesis by (intro exI [of _ "take 32 data"] exI [of _ "get 32 64 data"]) simp
qed

lemma parseFileOffer_fields:
  assumes "parseFileOffer e data = Some r"
  shows "\<exists>a b c. length a = 37 \<and> length b = 32 \<and> length c = 256 \<and>
    fo_fileId r = terminate a \<and> fo_toId r = terminate b \<and> fo_fileName r = terminate c"
proof -
  have "sizeof_FileOffer \<le> length data"
    and "fo_fileId r = terminate (take 37 data)" "fo_toId r = terminate (get 133 32 data)"
      "fo_fileName r = terminate (get 173 256 data)"
    using assms by (auto simp: parseFileOffer_def FileOffer_load_def Let_def split: if_splits)
  then show ?thesis
    by (intro exI [of _ "take 37 data"] exI [of _ "get 133 32 data"] exI [of _ "get 173 256 data"])
      simp
qed

lemma parseFileOfferResponse_fields:
  assumes "parseFileOfferResponse e data = Some r"
  shows "\<exists>a b. length a = 37 \<and> length b = 64 \<and>
    fr_fileId r = terminate a \<and> fr_message r = terminate b"
proof -
  have "sizeof_FileOfferResponse \<le> length data"
    and "fr_fileId r = terminate (take 37 data)" "fr_message r = terminate (get 41 64 data)"
    using assms
    by (auto simp: parseFileOfferResponse_def FileOfferResponse_load_def Let_def split: if_splits)
  then show ?thesis by (intro exI [of _ "take 37 data"] exI [of _ "get 41 64 data"]) simp
qed

end
