(* ===== verification/Client_Protocol.thy ===== *)
theory Client_Protocol
  imports Server_Protocol
begin

text \<open>
  The packing and parsing functions of \<open>client/network/protocol.cpp\<close>. Six functions,
  the header check and the 64-bit conversions have the names of the server's; they are
  defined here from the client's text with the prefix \<open>client_\<close> and proved to agree.
  The last part interprets the codec contract for every message that crosses the
  connection, in the direction it travels, for any byte order at either end.
\<close>

section \<open>Byte order and header\<close>

definition client_swap64 :: "endian \<Rightarrow> u64 \<Rightarrow> u64" where
  "client_swap64 e value =
     push_bit 32 (ucast (htonl e (ucast (value AND 0xFFFFFFFF)))) OR
     ucast (htonl e (ucast (drop_bit 32 value)))"

definition client_hostToNetwork64 :: "endian \<Rightarrow> u64 \<Rightarrow> u64" where
  "client_hostToNetwork64 e value =
     (case e of Big \<Rightarrow> value | Little \<Rightarrow> client_swap64 e value)"

definition client_networkToHost64 :: "endian \<Rightarrow> u64 \<Rightarrow> u64" where
  "client_networkToHost64 e value =
     (case e of Big \<Rightarrow> value | Little \<Rightarrow> client_swap64 e value)"

text \<open>The client's own copies of the two constants, and that they are the server's.\<close>

definition client_MAGIC_NUMBER :: u32 where "client_MAGIC_NUMBER = 0x12345678"
definition client_PROTOCOL_VERSION :: u16 where "client_PROTOCOL_VERSION = 0x0001"

lemma client_constants [simp]:
  "client_MAGIC_NUMBER = MAGIC_NUMBER" "client_PROTOCOL_VERSION = PROTOCOL_VERSION"
  by (simp_all add: client_MAGIC_NUMBER_def MAGIC_NUMBER_def client_PROTOCOL_VERSION_def PROTOCOL_VERSION_def)

definition client_validateHeader :: "MessageHeader \<Rightarrow> bool" where
  "client_validateHeader header =
     (if magic header \<noteq> client_MAGIC_NUMBER then False
      else if version header \<noteq> client_PROTOCOL_VERSION then False
      else if bodyLength header > 1024 * 1024 then False
      else True)"

section \<open>Packing\<close>

definition packHeartbeatRequest :: "endian \<Rightarrow> u32 \<Rightarrow> bytes" where
  "packHeartbeatRequest e sq =
     (let buffer = zeros sizeof_MessageHeader;
          header = \<lparr>magic = htonl e client_MAGIC_NUMBER,
                    version = htons e client_PROTOCOL_VERSION,
                    msgType = htons e MSG_HEARTBEAT_REQ, bodyLength = htonl e 0,
                    sequence = htonl e sq\<rparr>
      in memcpy buffer 0 (MessageHeader_image e header))"

definition packLoginRequest :: "endian \<Rightarrow> u32 \<Rightarrow> bytes \<Rightarrow> bytes \<Rightarrow> bytes" where
  "packLoginRequest e sq clientId nickname =
     (let buffer = zeros (sizeof_MessageHeader + sizeof_LoginRequest);
          header = \<lparr>magic = htonl e client_MAGIC_NUMBER,
                    version = htons e client_PROTOCOL_VERSION,
                    msgType = htons e MSG_LOGIN_REQ,
                    bodyLength = htonl e (of_nat sizeof_LoginRequest),
                    sequence = htonl e sq\<rparr>;
          req = \<lparr>lrq_clientId = strncpy (zeros 32) clientId (32 - 1),
                 lrq_nickname = strncpy (zeros 64) nickname (64 - 1)\<rparr>;
          buffer = memcpy buffer 0 (MessageHeader_image e header)
      in memcpy buffer sizeof_MessageHeader (LoginRequest_image req))"

definition packLogoutRequest :: "endian \<Rightarrow> u32 \<Rightarrow> bytes" where
  "packLogoutRequest e sq =
     (let buffer = zeros sizeof_MessageHeader;
          header = \<lparr>magic = htonl e client_MAGIC_NUMBER,
                    version = htons e client_PROTOCOL_VERSION,
                    msgType = htons e MSG_LOGOUT_REQ, bodyLength = htonl e 0,
                    sequence = htonl e sq\<rparr>
      in memcpy buffer 0 (MessageHeader_image e header))"

definition client_packChatMessage ::
    "endian \<Rightarrow> u32 \<Rightarrow> ChatScope \<Rightarrow> bytes \<Rightarrow> bytes \<Rightarrow> bytes \<Rightarrow> bytes \<Rightarrow> u64 \<Rightarrow> bytes" where
  "client_packChatMessage e sq scope fromId fromNick toId text timestamp =
     (let buffer = zeros (sizeof_MessageHeader + sizeof_ChatMessage);
          header = \<lparr>magic = htonl e client_MAGIC_NUMBER,
                    version = htons e client_PROTOCOL_VERSION,
                    msgType = htons e MSG_CHAT_MSG,
                    bodyLength = htonl e (of_nat sizeof_ChatMessage),
                    sequence = htonl e sq\<rparr>;
          msg = \<lparr>cm_chatType = scope_byte scope,
                 cm_fromId = strncpy (zeros 32) fromId (32 - 1),
                 cm_fromNick = strncpy (zeros 64) fromNick (64 - 1),
                 cm_toId = strncpy (zeros 32) toId (32 - 1),
                 cm_timestamp = client_hostToNetwork64 e timestamp,
                 cm_message = strncpy (zeros 256) text (256 - 1)\<rparr>;
          buffer = memcpy buffer 0 (MessageHeader_image e header)
      in memcpy buffer sizeof_MessageHeader (ChatMessage_image e msg))"

definition packUserListRequest :: "endian \<Rightarrow> u32 \<Rightarrow> bytes" where
  "packUserListRequest e sq =
     (let buffer = zeros sizeof_MessageHeader;
          header = \<lparr>magic = htonl e client_MAGIC_NUMBER,
                    version = htons e client_PROTOCOL_VERSION,
                    msgType = htons e MSG_USER_LIST_REQ, bodyLength = htonl e 0,
                    sequence = htonl e sq\<rparr>
      in memcpy buffer 0 (MessageHeader_image e header))"

definition client_packFileOffer ::
    "endian \<Rightarrow> u32 \<Rightarrow> bytes \<Rightarrow> bytes \<Rightarrow> u64 \<Rightarrow> bytes \<Rightarrow> bytes \<Rightarrow> bytes \<Rightarrow> bytes" where
  "client_packFileOffer e sq fileId fileName fileSize fromId fromNick toId =
     (let buffer = zeros (sizeof_MessageHeader + sizeof_FileOffer);
          header = \<lparr>magic = htonl e client_MAGIC_NUMBER,
                    version = htons e client_PROTOCOL_VERSION,
                    msgType = htons e MSG_FILE_OFFER,
                    bodyLength = htonl e (of_nat sizeof_FileOffer),
                    sequence = htonl e sq\<rparr>;
          offer = \<lparr>fo_fileId = strncpy (zeros 37) fileId (37 - 1),
                   fo_fromId = strncpy (zeros 32) fromId (32 - 1),
                   fo_fromNick = strncpy (zeros 64) fromNick (64 - 1),
                   fo_toId = strncpy (zeros 32) toId (32 - 1),
                   fo_fileSize = client_hostToNetwork64 e fileSize,
                   fo_fileName = strncpy (zeros 256) fileName (256 - 1)\<rparr>;
          buffer = memcpy buffer 0 (MessageHeader_image e header)
      in memcpy buffer sizeof_MessageHeader (FileOffer_image e offer))"

definition client_packFileOfferResponse :: "endian \<Rightarrow> u32 \<Rightarrow> bytes \<Rightarrow> u32 \<Rightarrow> bytes \<Rightarrow> bytes" where
  "client_packFileOfferResponse e sq fileId result msg =
     (let buffer = zeros (sizeof_MessageHeader + sizeof_FileOfferResponse);
          header = \<lparr>magic = htonl e client_MAGIC_NUMBER,
                    version = htons e client_PROTOCOL_VERSION,
                    msgType = htons e MSG_FILE_OFFER_RSP,
                    bodyLength = htonl e (of_nat sizeof_FileOfferResponse),
                    sequence = htonl e sq\<rparr>;
          rsp = \<lparr>fr_fileId = strncpy (zeros 37) fileId (37 - 1),
                 fr_result = htonl e result,
                 fr_message = strncpy (zeros 64) msg (64 - 1)\<rparr>;
          buffer = memcpy buffer 0 (MessageHeader_image e header)
      in memcpy buffer sizeof_MessageHeader (FileOfferResponse_image e rsp))"

definition packFileData :: "endian \<Rightarrow> u32 \<Rightarrow> bytes \<Rightarrow> u64 \<Rightarrow> bytes \<Rightarrow> bytes" where
  "packFileData e sq fileId off data =
     (let dataLen = length data;
          buffer = zeros (sizeof_MessageHeader + sizeof_FileDataHeader + dataLen);
          header = \<lparr>magic = htonl e client_MAGIC_NUMBER,
                    version = htons e client_PROTOCOL_VERSION,
                    msgType = htons e MSG_FILE_DATA,
                    bodyLength = htonl e (of_nat (sizeof_FileDataHeader + dataLen)),
                    sequence = htonl e sq\<rparr>;
          fileHeader = \<lparr>fd_fileId = strncpy (zeros 37) fileId (37 - 1),
                        fd_offset = client_hostToNetwork64 e off,
                        fd_chunkSize = htonl e (of_nat dataLen)\<rparr>;
          buffer = memcpy buffer 0 (MessageHeader_image e header);
          buffer = memcpy buffer sizeof_MessageHeader (FileDataHeader_image e fileHeader)
      in if dataLen > 0
         then memcpy buffer (sizeof_MessageHeader + sizeof_FileDataHeader) data else buffer)"

section \<open>Parsing\<close>

definition parseLoginResponse :: "endian \<Rightarrow> bytes \<Rightarrow> LoginResponse option" where
  "parseLoginResponse e data =
     (if length data < sizeof_LoginResponse then None
      else let rsp = LoginResponse_load e data in
        Some (rsp\<lparr>lrs_result := ntohl e (lrs_result rsp),
                  lrs_message := terminate (lrs_message rsp)\<rparr>))"

definition client_parseChatMessage :: "endian \<Rightarrow> bytes \<Rightarrow> ChatMessage option" where
  "client_parseChatMessage e data =
     (if length data < sizeof_ChatMessage then None
      else let msg = ChatMessage_load e data in
        Some (msg\<lparr>cm_fromId := terminate (cm_fromId msg),
                  cm_fromNick := terminate (cm_fromNick msg),
                  cm_toId := terminate (cm_toId msg),
                  cm_message := terminate (cm_message msg),
                  cm_timestamp := client_networkToHost64 e (cm_timestamp msg)\<rparr>))"

text \<open>The loop that reads \<open>n\<close> user entries from \<open>off\<close> on.\<close>

fun load_users :: "bytes \<Rightarrow> nat \<Rightarrow> nat \<Rightarrow> UserInfo list" where
  "load_users data off 0 = []"
| "load_users data off (Suc n) =
     (let info = UserInfo_load (drop off data) in
      info\<lparr>ui_clientId := terminate (ui_clientId info),
           ui_nickname := terminate (ui_nickname info)\<rparr>
      # load_users data (off + sizeof_UserInfo) n)"

definition parseUserListResponse :: "endian \<Rightarrow> bytes \<Rightarrow> UserInfo list option" where
  "parseUserListResponse e data =
     (if length data < 4 then None
      else
        let count = ntohl e (mem_word e (get 0 4 data));
            expected = 4 + unat count * sizeof_UserInfo in
        if length data < expected then None
        else Some (load_users data 4 (unat count)))"

definition client_parseFileOffer :: "endian \<Rightarrow> bytes \<Rightarrow> FileOffer option" where
  "client_parseFileOffer e data =
     (if length data < sizeof_FileOffer then None
      else let offer = FileOffer_load e data in
        Some (offer\<lparr>fo_fileId := terminate (fo_fileId offer),
                    fo_fromId := terminate (fo_fromId offer),
                    fo_fromNick := terminate (fo_fromNick offer),
                    fo_toId := terminate (fo_toId offer),
                    fo_fileName := terminate (fo_fileName offer),
                    fo_fileSize := client_networkToHost64 e (fo_fileSize offer)\<rparr>))"

definition client_parseFileOfferResponse :: "endian \<Rightarrow> bytes \<Rightarrow> FileOfferResponse option" where
  "client_parseFileOfferResponse e data =
     (if length data < sizeof_FileOfferResponse then None
      else let rsp = FileOfferResponse_load e data in
        Some (rsp\<lparr>fr_fileId := terminate (fr_fileId rsp),
                  fr_result := ntohl e (fr_result rsp),
                  fr_message := terminate (fr_message rsp)\<rparr>))"

text \<open>The header, and the payload the code points into the body.\<close>

definition parseFileData :: "endian \<Rightarrow> bytes \<Rightarrow> (FileDataHeader \<times> bytes) option" where
  "parseFileData e data =
     (if length data < sizeof_FileDataHeader then None
      else
        let header = FileDataHeader_load e data;
            header = header\<lparr>fd_fileId := terminate (fd_fileId header),
                            fd_offset := client_networkToHost64 e (fd_offset header),
                            fd_chunkSize := ntohl e (fd_chunkSize header)\<rparr>;
            total = sizeof_FileDataHeader + unat (fd_chunkSize header) in
        if length data < total then None
        else Some (header,
               take (unat (fd_chunkSize header)) (drop sizeof_FileDataHeader data)))"

section \<open>The two sides agree\<close>

lemma client_byte_order:
  "client_swap64 = swap64"
  "client_hostToNetwork64 = hostToNetwork64"
  "client_networkToHost64 = networkToHost64"
  by (simp_all add: fun_eq_iff client_swap64_def swap64_def client_hostToNetwork64_def
      hostToNetwork64_def client_networkToHost64_def networkToHost64_def split: endian.split)

lemma client_validateHeader_eq: "client_validateHeader = validateHeader"
  by (simp add: fun_eq_iff client_validateHeader_def validateHeader_def MAX_BODY_def)

lemma client_pack_eq:
  "client_packChatMessage = packChatMessage"
  "client_packFileOffer = packFileOffer"
  "client_packFileOfferResponse = packFileOfferResponse"
  by (simp_all add: fun_eq_iff client_byte_order client_packChatMessage_def packChatMessage_def
      client_packFileOffer_def packFileOffer_def client_packFileOfferResponse_def
      packFileOfferResponse_def)

lemma client_parse_eq:
  "client_parseChatMessage = parseChatMessage"
  "client_parseFileOffer = parseFileOffer"
  "client_parseFileOfferResponse = parseFileOfferResponse"
  by (simp_all add: fun_eq_iff client_byte_order client_parseChatMessage_def parseChatMessage_def
      client_parseFileOffer_def parseFileOffer_def client_parseFileOfferResponse_def
      parseFileOfferResponse_def)

section \<open>Wire forms\<close>

lemma client_requests_wire [pack_simps]:
  "packHeartbeatRequest e sq = wire_message MSG_HEARTBEAT_REQ sq []"
  "packLogoutRequest e sq = wire_message MSG_LOGOUT_REQ sq []"
  "packUserListRequest e sq = wire_message MSG_USER_LIST_REQ sq []"
  by (simp_all add: packHeartbeatRequest_def packLogoutRequest_def packUserListRequest_def
      wire_message_Nil layout_simps pack_simps)

lemma packLoginRequest_wire [pack_simps]:
  "packLoginRequest e sq clientId nickname =
     wire_message MSG_LOGIN_REQ sq (wire_login_req clientId nickname)"
  by (simp add: packLoginRequest_def wire_message_def wire_login_req_def LoginRequest_image_def
      layout_simps pack_simps)

lemma packFileData_wire [pack_simps]:
  "packFileData e sq fileId off data =
     wire_message MSG_FILE_DATA sq (wire_file_data fileId off data)"
proof -
  let ?h = "wire_header MSG_FILE_DATA (of_nat (sizeof_FileDataHeader + length data)) sq"
  let ?f = "text_field 37 fileId @ be_bytes off @ be_bytes (of_nat (length data) :: u32)"
  have "memcpy (memcpy (zeros (sizeof_MessageHeader + sizeof_FileDataHeader + length data)) 0 ?h)
      sizeof_MessageHeader ?f = (?h @ ?f) @ zeros (length data)"
    by (simp add: memcpy_zeros_head memcpy_append_zeros)
  moreover have "memcpy ((?h @ ?f) @ zeros (length data)) 65 data = (?h @ ?f) @ data"
    by (simp add: memcpy_append_zeros del: append_assoc)
  ultimately show ?thesis
    by (simp add: packFileData_def Let_def MessageHeader_image_net FileDataHeader_image_def
        client_byte_order pack_simps wire_message_def wire_file_data_def)
qed

lemma parseLoginResponse_wire [parse_simps]:
  "parseLoginResponse e (wire_login_rsp r m) =
     Some \<lparr>lrs_result = r, lrs_message = text_field 128 m\<rparr>"
  by (simp add: parseLoginResponse_def LoginResponse_load_def wire_login_rsp_def layout_simps
      ntoh_mem_word)

lemma parseFileData_wire [parse_simps]:
  assumes "length data < 2 ^ 32"
  shows "parseFileData e (wire_file_data fileId off data) =
     Some (\<lparr>fd_fileId = text_field 37 fileId, fd_offset = off, fd_chunkSize = of_nat (length data)\<rparr>,
           data)"
proof -
  have "unat (of_nat (length data) :: u32) = length data"
    using assms by (simp add: unat_of_nat)
  then show ?thesis
    by (simp add: parseFileData_def FileDataHeader_load_def wire_file_data_def layout_simps
        Let_def client_byte_order networkToHost64_mem_word ntoh_mem_word)
qed

lemma UserInfo_load_wire: "UserInfo_load (wire_user u @ rest) = user_entry u"
  by (simp add: UserInfo_load_def wire_user_def user_entry_def layout_simps)

lemma terminate_user_entry [simp]:
  "(user_entry u)\<lparr>ui_clientId := terminate (ui_clientId (user_entry u)),
                 ui_nickname := terminate (ui_nickname (user_entry u))\<rparr> = user_entry u"
  by (simp add: user_entry_def)

lemma load_users_wire:
  "length pre = off \<Longrightarrow>
   load_users (pre @ concat (map wire_user us)) off (length us) = map user_entry us"
proof (induction us arbitrary: pre off)
  case (Cons u us)
  have "load_users (pre @ wire_user u @ concat (map wire_user us)) (off + sizeof_UserInfo) (length us)
      = map user_entry us"
    using Cons.IH [of "pre @ wire_user u" "off + sizeof_UserInfo"] Cons.prems by simp
  then show ?case using Cons.prems by (simp add: UserInfo_load_wire)
qed simp

lemma parseUserListResponse_wire [parse_simps]:
  assumes "length us < 2 ^ 32"
  shows "parseUserListResponse e (wire_user_list us) = Some (map user_entry us)"
proof -
  have "unat (of_nat (length us) :: u32) = length us"
    using assms by (simp add: unat_of_nat)
  then show ?thesis
    using load_users_wire [of "be_bytes (of_nat (length us) :: u32)" 4 us]
    by (simp add: parseUserListResponse_def wire_user_list_def ntoh_mem_word Let_def)
qed

section \<open>Codecs of the protocol\<close>

text \<open>
  From client to server. \<open>e\<close> is the byte order of the sending host, \<open>e'\<close> that of the
  receiving one.
\<close>

interpretation login_req: codec
  "\<lambda>sq (i, n). packLoginRequest e sq i n" MSG_LOGIN_REQ "\<lambda>(i, n). wire_login_req i n"
  "\<lambda>_. True" parseLoginRequest
  "\<lambda>(i, n). \<lparr>lrq_clientId = text_field 32 i, lrq_nickname = text_field 64 n\<rparr>"
  for e :: endian
  by unfold_locales (auto simp: pack_simps server_parse_exact)

interpretation chat: codec
  "\<lambda>sq (sc, i, n, t, m, ts). packChatMessage e sq sc i n t m ts" MSG_CHAT_MSG
  "\<lambda>(sc, i, n, t, m, ts). wire_chat sc i n t m ts" "\<lambda>_. True" "parseChatMessage e'"
  "\<lambda>(sc, i, n, t, m, ts).
     \<lparr>cm_chatType = scope_byte sc, cm_fromId = text_field 32 i, cm_fromNick = text_field 64 n,
      cm_toId = text_field 32 t, cm_timestamp = ts, cm_message = text_field 256 m\<rparr>"
  for e e' :: endian
  by unfold_locales (auto simp: pack_simps server_parse_exact)

interpretation offer: codec
  "\<lambda>sq (f, nm, sz, i, n, t). packFileOffer e sq f nm sz i n t" MSG_FILE_OFFER
  "\<lambda>(f, nm, sz, i, n, t). wire_offer f nm sz i n t" "\<lambda>_. True" "parseFileOffer e'"
  "\<lambda>(f, nm, sz, i, n, t).
     \<lparr>fo_fileId = text_field 37 f, fo_fromId = text_field 32 i, fo_fromNick = text_field 64 n,
      fo_toId = text_field 32 t, fo_fileSize = sz, fo_fileName = text_field 256 nm\<rparr>"
  for e e' :: endian
  by unfold_locales (auto simp: pack_simps server_parse_exact)

interpretation offer_rsp: codec
  "\<lambda>sq (f, r, m). packFileOfferResponse e sq f r m" MSG_FILE_OFFER_RSP
  "\<lambda>(f, r, m). wire_offer_rsp f r m" "\<lambda>_. True" "parseFileOfferResponse e'"
  "\<lambda>(f, r, m). \<lparr>fr_fileId = text_field 37 f, fr_result = r, fr_message = text_field 64 m\<rparr>"
  for e e' :: endian
  by unfold_locales (auto simp: pack_simps server_parse_exact)

text \<open>A data chunk must fit in the 1 MB body the receiver accepts.\<close>

interpretation file_data: codec
  "\<lambda>sq (f, off, d). packFileData e sq f off d" MSG_FILE_DATA
  "\<lambda>(f, off, d). wire_file_data f off d"
  "\<lambda>(f, off, d). sizeof_FileDataHeader + length d \<le> 1048576" "parseFileData e'"
  "\<lambda>(f, off, d).
     (\<lparr>fd_fileId = text_field 37 f, fd_offset = off, fd_chunkSize = of_nat (length d)\<rparr>, d)"
  for e e' :: endian
  by unfold_locales (auto simp: pack_simps parse_simps)

text \<open>From server to client.\<close>

interpretation login_rsp: codec
  "\<lambda>sq (r, m). packLoginResponse e sq r m" MSG_LOGIN_RSP "\<lambda>(r, m). wire_login_rsp r m"
  "\<lambda>_. True" "parseLoginResponse e'"
  "\<lambda>(r, m). \<lparr>lrs_result = r, lrs_message = text_field 128 m\<rparr>"
  for e e' :: endian
  by unfold_locales (auto simp: pack_simps parse_simps)

text \<open>10922 entries are the most that fit in a body of 1 MB.\<close>

interpretation user_list: codec
  "\<lambda>sq us. packUserListResponse e sq (map user_entry us)" MSG_USER_LIST_RSP wire_user_list
  "\<lambda>us. length us \<le> 10922" "parseUserListResponse e'" "map user_entry"
  for e e' :: endian
  by unfold_locales (auto simp: pack_simps parse_simps)

text \<open>The server relays data messages verbatim.\<close>

interpretation raw: packet
  "\<lambda>sq b. packRawMessage e ty sq b" ty "\<lambda>b. b" "\<lambda>b. length b \<le> 1048576"
  for e :: endian and ty :: u16
  by unfold_locales (auto simp: pack_simps)

section \<open>Properties\<close>

text \<open>
  C5: the client's copies of the packing and parsing functions, of the header check and of
  the byte-order conversions agree with the server's on every input.
\<close>

theorem client_server_agree:
  "client_packChatMessage = packChatMessage \<and> client_packFileOffer = packFileOffer \<and>
   client_packFileOfferResponse = packFileOfferResponse \<and>
   client_parseChatMessage = parseChatMessage \<and> client_parseFileOffer = parseFileOffer \<and>
   client_parseFileOfferResponse = parseFileOfferResponse \<and>
   client_validateHeader = validateHeader \<and> client_hostToNetwork64 = hostToNetwork64 \<and>
   client_networkToHost64 = networkToHost64"
  by (simp add: client_pack_eq client_parse_eq client_validateHeader_eq client_byte_order)

text \<open>
  A login request packed by a client of any byte order and cut into any reads arrives
  at the server as one login message, and parses to the client id and nickname as far as
  their fields hold them.
\<close>

theorem login_request_transported:
  assumes "concat chunks = packLoginRequest e sq clientId nickname" and "buffer_of bufs fd = []"
  shows "\<exists>h b req. parse_chunks e' cb fd chunks (bufs, s) = (bufs(fd \<mapsto> []), cb fd h b s) \<and>
    msgType h = MSG_LOGIN_REQ \<and> sequence h = sq \<and> parseLoginRequest b = Some req \<and>
    field_string (lrq_clientId req) = clip 32 clientId \<and>
    field_string (lrq_nickname req) = clip 64 nickname"
proof -
  have "concat chunks = (\<lambda>sq (i, n). packLoginRequest e sq i n) sq (clientId, nickname)"
    using assms(1) by simp
  note T = login_req.transported [OF TrueI assms(2) this, simplified prod.case]
  show ?thesis
    using T
    by (intro exI [of _ "host_header MSG_LOGIN_REQ sq (wire_login_req clientId nickname)"]
        exI [of _ "wire_login_req clientId nickname"]
        exI [of _ "\<lparr>lrq_clientId = text_field 32 clientId, lrq_nickname = text_field 64 nickname\<rparr>"]) simp
qed

theorem login_request_transported_witness:
  "\<exists>h b req. parse_chunks Little (\<lambda>fd h b s. (h, b) # s) 5 [packLoginRequest Big 7 [65] [66]] (\<lambda>_. None, []) =
      ((\<lambda>_. None)(5 \<mapsto> []), [(h, b)]) \<and>
    msgType h = MSG_LOGIN_REQ \<and> sequence h = 7 \<and> parseLoginRequest b = Some req \<and>
    field_string (lrq_clientId req) = [65] \<and> field_string (lrq_nickname req) = [66]"
  using login_request_transported [of "[packLoginRequest Big 7 [65] [66]]" Big 7 "[65]" "[66]"
      "\<lambda>_. None" 5 Little "\<lambda>fd h b s. (h, b) # s" "[]"]
  by (simp add: buffer_of_def clip_id)

text \<open>
  A chat message, packed by either side, reaches the server's parser with its scope, its
  time stamp and its texts (cut to their fields), whatever the byte order of the two hosts
  and the cuts.
\<close>

theorem chat_message_transported:
  assumes "concat chunks = packChatMessage e sq sc fromId fromNick toId msg ts"
    and "buffer_of bufs fd = []"
  shows "\<exists>h b m. parse_chunks e' cb fd chunks (bufs, s) = (bufs(fd \<mapsto> []), cb fd h b s) \<and>
    msgType h = MSG_CHAT_MSG \<and> sequence h = sq \<and> parseChatMessage e' b = Some m \<and>
    cm_chatType m = scope_byte sc \<and> cm_timestamp m = ts \<and>
    field_string (cm_fromId m) = clip 32 fromId \<and> field_string (cm_fromNick m) = clip 64 fromNick \<and>
    field_string (cm_toId m) = clip 32 toId \<and> field_string (cm_message m) = clip 256 msg"
proof -
  let ?b = "wire_chat sc fromId fromNick toId msg ts"
  have "concat chunks = (\<lambda>sq (sc, i, n, t, m, ts). packChatMessage e sq sc i n t m ts) sq
      (sc, fromId, fromNick, toId, msg, ts)"
    using assms(1) by simp
  note T = chat.transported [OF TrueI assms(2) this, simplified prod.case]
  show ?thesis
    using T by (intro exI [of _ "host_header MSG_CHAT_MSG sq ?b"] exI [of _ ?b]) simp
qed

theorem chat_message_transported_witness:
  "\<exists>h b m. parse_chunks Little (\<lambda>fd h b s. (h, b) # s) 5
      [packChatMessage Little 1 CHAT_PRIVATE [65] [66] [67] [72, 105] 9] (\<lambda>_. None, []) =
      ((\<lambda>_. None)(5 \<mapsto> []), [(h, b)]) \<and> parseChatMessage Little b = Some m \<and>
    field_string (cm_message m) = [72, 105] \<and> cm_timestamp m = 9"
  using chat_message_transported [of "[packChatMessage Little 1 CHAT_PRIVATE [65] [66] [67] [72, 105] 9]"
      Little 1 CHAT_PRIVATE "[65]" "[66]" "[67]" "[72, 105]" 9 "\<lambda>_. None" 5 Little
      "\<lambda>fd h b s. (h, b) # s" "[]"]
  by (fastforce simp: buffer_of_def clip_id)

text \<open>
  A list of at most 10922 users, the most that fit in the 1 MB the client accepts,
  arrives complete and in order.
\<close>

theorem user_list_transported:
  assumes "length us \<le> 10922"
    and "concat chunks = packUserListResponse e sq (map user_entry us)" and "buffer_of bufs fd = []"
  shows "\<exists>h b. parse_chunks e' cb fd chunks (bufs, s) = (bufs(fd \<mapsto> []), cb fd h b s) \<and>
    msgType h = MSG_USER_LIST_RSP \<and> sequence h = sq \<and>
    parseUserListResponse e' b = Some (map user_entry us)"
  using user_list.transported [OF assms(1,3,2)] by force

theorem user_list_transported_witness:
  "\<exists>h b. parse_chunks Little (\<lambda>fd h b s. (h, b) # s) 5
      [packUserListResponse Big 0 (map user_entry [([65], [66])])] (\<lambda>_. None, []) =
      ((\<lambda>_. None)(5 \<mapsto> []), [(h, b)]) \<and> parseUserListResponse Little b = Some [user_entry ([65], [66])]"
  using user_list_transported [of "[([65], [66])]"
      "[packUserListResponse Big 0 (map user_entry [([65], [66])])]" Big 0 "\<lambda>_. None" 5 Little
      "\<lambda>fd h b s. (h, b) # s" "[]"]
  by (fastforce simp: buffer_of_def)

text \<open>
  A chunk of file data that fits in a message arrives with its file id, offset and
  bytes; the payload is exactly what was sent.
\<close>

theorem file_data_transported:
  assumes "sizeof_FileDataHeader + length d \<le> 1048576"
    and "concat chunks = packFileData e sq fileId off d" and "buffer_of bufs fd = []"
  shows "\<exists>h b fh. parse_chunks e' cb fd chunks (bufs, s) = (bufs(fd \<mapsto> []), cb fd h b s) \<and>
    msgType h = MSG_FILE_DATA \<and> sequence h = sq \<and> parseFileData e' b = Some (fh, d) \<and>
    field_string (fd_fileId fh) = clip 37 fileId \<and> fd_offset fh = off \<and>
    unat (fd_chunkSize fh) = length d"
proof -
  let ?b = "wire_file_data fileId off d"
  have "unat (of_nat (length d) :: u32) = length d"
    using assms(1) by (simp add: unat_of_nat)
  moreover have "concat chunks = (\<lambda>sq (f, off, d). packFileData e sq f off d) sq (fileId, off, d)"
    using assms(2) by simp
  moreover note file_data.transported [OF _ assms(3) this, simplified prod.case, OF assms(1)]
  ultimately show ?thesis
    by (intro exI [of _ "host_header MSG_FILE_DATA sq ?b"] exI [of _ ?b]) simp
qed

theorem file_data_transported_witness:
  "\<exists>h b fh. parse_chunks Little (\<lambda>fd h b s. (h, b) # s) 5 [packFileData Little 1 [65] 4096 [1, 2, 3]]
      (\<lambda>_. None, []) = ((\<lambda>_. None)(5 \<mapsto> []), [(h, b)]) \<and>
    parseFileData Little b = Some (fh, [1, 2, 3]) \<and> fd_offset fh = 4096"
  using file_data_transported [of "[1, 2, 3]" "[packFileData Little 1 [65] 4096 [1, 2, 3]]" Little 1
      "[65]" 4096 "\<lambda>_. None" 5 Little "\<lambda>fd h b s. (h, b) # s" "[]"]
  by (fastforce simp: buffer_of_def)

text \<open>
  A file offer, its answer and a login response survive the way from packing function
  to the peer's parser, in either byte order.
\<close>

theorem offers_roundtrip:
  "\<exists>h b m. parseData e' cb fd (packFileOffer e sq f nm sz i n t) (\<lambda>_. None, s) = ([fd \<mapsto> []], cb fd h b s) \<and>
     parseFileOffer e' b = Some m \<and> field_string (fo_fileId m) = clip 37 f \<and>
     field_string (fo_fileName m) = clip 256 nm \<and> fo_fileSize m = sz \<and>
     field_string (fo_toId m) = clip 32 t \<and> field_string (fo_fromId m) = clip 32 i \<and>
   (\<exists>h b r. parseData e' cb fd (packFileOfferResponse e sq f res txt) (\<lambda>_. None, s) =
       ([fd \<mapsto> []], cb fd h b s) \<and>
     parseFileOfferResponse e' b = Some r \<and> field_string (fr_fileId r) = clip 37 f \<and>
     fr_result r = res \<and> field_string (fr_message r) = clip 64 txt) \<and>
   (\<exists>h b r. parseData e' cb fd (packLoginResponse e sq res txt) (\<lambda>_. None, s) =
       ([fd \<mapsto> []], cb fd h b s) \<and>
     parseLoginResponse e' b = Some r \<and> lrs_result r = res \<and>
     field_string (lrs_message r) = clip 128 txt)"
proof -
  have emp: "buffer_of (\<lambda>_. None) fd = []" by (simp add: buffer_of_def)
  note A = offer.parseData_pack [OF TrueI emp, where x = "(f, nm, sz, i, n, t)" and sq = sq]
  note B = offer_rsp.parseData_pack [OF TrueI emp, where x = "(f, res, txt)" and sq = sq]
  note C = login_rsp.parseData_pack [OF TrueI emp, where x = "(res, txt)" and sq = sq]
  note P = server_parse_exact parseLoginResponse_wire
  show ?thesis
    using A B C
    by (intro exI [of _ "host_header MSG_FILE_OFFER sq (wire_offer f nm sz i n t)"]
        exI [of _ "wire_offer f nm sz i n t"]) (fastforce simp: P)
qed

end
