(* ===== verification/Message_Types.thy ===== *)
theory Message_Types
  imports Client_Protocol
begin

text \<open>
  What the receiver of a parsed message may rely on: its arrays have their declared sizes
  and hold a NUL, whatever bytes came over the connection, so that neither
  \<open>QString::fromUtf8\<close> nor the server's bounded copies read past them.
\<close>

definition text_array :: "nat \<Rightarrow> bytes \<Rightarrow> bool" where
  "text_array n arr \<longleftrightarrow> length arr = n \<and> 0 \<in> set arr"

lemma text_array_terminate:
  "0 < n \<Longrightarrow> off + n \<le> length bs \<Longrightarrow> text_array n (terminate (get off n bs))"
proof -
  assume a: "0 < n" "off + n \<le> length bs"
  then have "length (get off n bs) = n" by (simp add: get_def)
  then show ?thesis
    using a(1) by (auto simp: text_array_def terminate_def in_set_conv_nth intro!: exI [of _ "n - 1"])
qed

lemma load_users_typed:
  "off + n * sizeof_UserInfo \<le> length bs \<Longrightarrow> u \<in> set (load_users bs off n) \<Longrightarrow>
   text_array 32 (ui_clientId u) \<and> text_array 64 (ui_nickname u)"
proof (induction n arbitrary: off)
  case (Suc n)
  have g: "get 0 32 (drop off bs) = get off 32 bs" "get 32 64 (drop off bs) = get (off + 32) 64 bs"
    by (simp_all add: get_def add.commute)
  have "text_array 32 (terminate (get off 32 bs))" "text_array 64 (terminate (get (off + 32) 64 bs))"
    using Suc.prems(1) by (simp_all add: text_array_terminate)
  moreover have "(off + sizeof_UserInfo) + n * sizeof_UserInfo \<le> length bs" using Suc.prems(1) by simp
  note Suc.IH [OF this]
  ultimately show ?case
    using Suc.prems(2) by (auto simp: UserInfo_load_def g Let_def simp del: get_0)
qed simp

text \<open>
  C35: whatever bytes arrive, every structure a parser of either side accepts is well
  formed: its text arrays have their sizes and are terminated, and the payload of a
  file chunk has the announced size.
\<close>

theorem parsed_messages_well_formed:
  shows "(\<forall>r. parseLoginRequest bs = Some r \<longrightarrow>
        text_array 32 (lrq_clientId r) \<and> text_array 64 (lrq_nickname r)) \<and>
    (\<forall>r. parseLoginResponse e bs = Some r \<longrightarrow> text_array 128 (lrs_message r)) \<and>
    (\<forall>m. parseChatMessage e bs = Some m \<or> client_parseChatMessage e bs = Some m \<longrightarrow>
        text_array 32 (cm_fromId m) \<and> text_array 64 (cm_fromNick m) \<and> text_array 32 (cm_toId m) \<and>
        text_array 256 (cm_message m)) \<and>
    (\<forall>us. parseUserListResponse e bs = Some us \<longrightarrow>
        (\<forall>u \<in> set us. text_array 32 (ui_clientId u) \<and> text_array 64 (ui_nickname u))) \<and>
    (\<forall>f. parseFileOffer e bs = Some f \<or> client_parseFileOffer e bs = Some f \<longrightarrow>
        text_array 37 (fo_fileId f) \<and> text_array 32 (fo_fromId f) \<and> text_array 64 (fo_fromNick f) \<and>
        text_array 32 (fo_toId f) \<and> text_array 256 (fo_fileName f)) \<and>
    (\<forall>r. parseFileOfferResponse e bs = Some r \<or> client_parseFileOfferResponse e bs = Some r \<longrightarrow>
        text_array 37 (fr_fileId r) \<and> text_array 64 (fr_message r)) \<and>
    (\<forall>h d. parseFileData e bs = Some (h, d) \<longrightarrow>
        text_array 37 (fd_fileId h) \<and> length d = unat (fd_chunkSize h))"
proof (intro conjI)
  show "\<forall>us. parseUserListResponse e bs = Some us \<longrightarrow>
      (\<forall>u \<in> set us. text_array 32 (ui_clientId u) \<and> text_array 64 (ui_nickname u))"
    using load_users_typed [of 4 _ bs] by (simp add: parseUserListResponse_def Let_def not_less)
qed (auto simp: parseLoginRequest_def LoginRequest_load_def parseLoginResponse_def LoginResponse_load_def
    client_parse_eq parseChatMessage_def ChatMessage_load_def parseFileOffer_def FileOffer_load_def
    parseFileOfferResponse_def FileOfferResponse_load_def parseFileData_def FileDataHeader_load_def Let_def
    text_array_terminate split: if_splits simp del: get_0)

theorem parsed_messages_well_formed_witness:
  "text_array 32 (replicate 31 255 @ [0]) \<and>
   (\<exists>r. parseLoginRequest (replicate 96 255) = Some r \<and> text_array 32 (lrq_clientId r) \<and>
      text_array 64 (lrq_nickname r))"
proof -
  obtain r where "parseLoginRequest (replicate 96 255) = Some r"
    by (simp add: parseLoginRequest_def Let_def)
  then show ?thesis
    using parsed_messages_well_formed [of "replicate 96 255"] by (auto simp: text_array_def)
qed

end
