(* ===== verification/Header_Layout.thy ===== *)
theory Header_Layout
  imports Message_Types
begin

text \<open>
  The two copies of the wire declarations, the server's \<open>common/message.h\<close> and the
  client's \<open>network/protocol.h\<close>, as data: the members of each packed structure in order,
  and the enumerators. The structures of \<open>Messages\<close> are laid out as both of them say.
\<close>

section \<open>Declarations\<close>

text \<open>An unsigned integer of some bytes, or an array of \<open>char\<close>.\<close>

datatype ctype = UInt nat | CharArray nat

type_synonym struct = "(string \<times> ctype) list"

definition message_h :: "(string \<times> struct) list" where
  "message_h =
     [(''MessageHeader'', [(''magic'', UInt 4), (''version'', UInt 2), (''msgType'', UInt 2),
        (''bodyLength'', UInt 4), (''sequence'', UInt 4)]),
      (''LoginRequest'', [(''clientId'', CharArray 32), (''nickname'', CharArray 64)]),
      (''LoginResponse'', [(''result'', UInt 4), (''message'', CharArray 128)]),
      (''ChatMessage'', [(''chatType'', UInt 1), (''fromId'', CharArray 32), (''fromNick'', CharArray 64),
        (''toId'', CharArray 32), (''timestamp'', UInt 8), (''message'', CharArray 256)]),
      (''UserInfo'', [(''clientId'', CharArray 32), (''nickname'', CharArray 64)]),
      (''FileOffer'', [(''fileId'', CharArray 37), (''fromId'', CharArray 32), (''fromNick'', CharArray 64),
        (''toId'', CharArray 32), (''fileSize'', UInt 8), (''fileName'', CharArray 256)]),
      (''FileOfferResponse'', [(''fileId'', CharArray 37), (''result'', UInt 4), (''message'', CharArray 64)]),
      (''FileDataHeader'', [(''fileId'', CharArray 37), (''offset'', UInt 8), (''chunkSize'', UInt 4)])]"

definition protocol_h :: "(string \<times> struct) list" where
  "protocol_h =
     [(''MessageHeader'', [(''magic'', UInt 4), (''version'', UInt 2), (''msgType'', UInt 2),
        (''bodyLength'', UInt 4), (''sequence'', UInt 4)]),
      (''LoginRequest'', [(''clientId'', CharArray 32), (''nickname'', CharArray 64)]),
      (''LoginResponse'', [(''result'', UInt 4), (''message'', CharArray 128)]),
      (''ChatMessage'', [(''chatType'', UInt 1), (''fromId'', CharArray 32), (''fromNick'', CharArray 64),
        (''toId'', CharArray 32), (''timestamp'', UInt 8), (''message'', CharArray 256)]),
      (''UserInfo'', [(''clientId'', CharArray 32), (''nickname'', CharArray 64)]),
      (''FileOffer'', [(''fileId'', CharArray 37), (''fromId'', CharArray 32), (''fromNick'', CharArray 64),
        (''toId'', CharArray 32), (''fileSize'', UInt 8), (''fileName'', CharArray 256)]),
      (''FileOfferResponse'', [(''fileId'', CharArray 37), (''result'', UInt 4), (''message'', CharArray 64)]),
      (''FileDataHeader'', [(''fileId'', CharArray 37), (''offset'', UInt 8), (''chunkSize'', UInt 4)])]"

definition message_h_enums :: "(string \<times> nat) list" where
  "message_h_enums =
     [(''MSG_HEARTBEAT_REQ'', 0x0001), (''MSG_HEARTBEAT_RSP'', 0x0002), (''MSG_LOGIN_REQ'', 0x0101),
      (''MSG_LOGIN_RSP'', 0x0102), (''MSG_LOGOUT_REQ'', 0x0103), (''MSG_CHAT_MSG'', 0x0201),
      (''MSG_USER_LIST_REQ'', 0x0202), (''MSG_USER_LIST_RSP'', 0x0203), (''MSG_FILE_OFFER'', 0x0301),
      (''MSG_FILE_OFFER_RSP'', 0x0302), (''MSG_FILE_DATA'', 0x0303), (''MSG_FILE_DATA_ACK'', 0x0304),
      (''LOGIN_SUCCESS'', 0), (''LOGIN_INVALID_PARAM'', 1), (''LOGIN_SERVER_FULL'', 2),
      (''LOGIN_ALREADY_ONLINE'', 3), (''LOGIN_NICKNAME_TAKEN'', 4), (''CHAT_GROUP'', 0), (''CHAT_PRIVATE'', 1),
      (''FILE_OFFER_ACCEPT'', 0), (''FILE_OFFER_DECLINE'', 1), (''FILE_OFFER_BUSY'', 2)]"

definition protocol_h_enums :: "(string \<times> nat) list" where
  "protocol_h_enums =
     [(''MSG_HEARTBEAT_REQ'', 0x0001), (''MSG_HEARTBEAT_RSP'', 0x0002), (''MSG_LOGIN_REQ'', 0x0101),
      (''MSG_LOGIN_RSP'', 0x0102), (''MSG_LOGOUT_REQ'', 0x0103), (''MSG_CHAT_MSG'', 0x0201),
      (''MSG_USER_LIST_REQ'', 0x0202), (''MSG_USER_LIST_RSP'', 0x0203), (''MSG_FILE_OFFER'', 0x0301),
      (''MSG_FILE_OFFER_RSP'', 0x0302), (''MSG_FILE_DATA'', 0x0303), (''MSG_FILE_DATA_ACK'', 0x0304),
      (''LOGIN_SUCCESS'', 0), (''LOGIN_INVALID_PARAM'', 1), (''LOGIN_SERVER_FULL'', 2),
      (''LOGIN_ALREADY_ONLINE'', 3), (''LOGIN_NICKNAME_TAKEN'', 4), (''CHAT_GROUP'', 0), (''CHAT_PRIVATE'', 1),
      (''FILE_OFFER_ACCEPT'', 0), (''FILE_OFFER_DECLINE'', 1), (''FILE_OFFER_BUSY'', 2)]"

section \<open>Packed structures in memory\<close>

datatype cvalue = Num nat | Chars bytes

fun ctype_size :: "ctype \<Rightarrow> nat" where
  "ctype_size (UInt n) = n"
| "ctype_size (CharArray n) = n"

definition struct_size :: "struct \<Rightarrow> nat" where
  "struct_size s = sum_list (map (ctype_size \<circ> snd) s)"

definition in_order :: "endian \<Rightarrow> bytes \<Rightarrow> bytes" where
  "in_order e bs = (case e of Little \<Rightarrow> bs | Big \<Rightarrow> rev bs)"

definition nat_bytes :: "nat \<Rightarrow> nat \<Rightarrow> bytes" where
  "nat_bytes n v = map (\<lambda>i. word_of_nat (v div 256 ^ i)) [0..<n]"

fun bytes_nat :: "bytes \<Rightarrow> nat" where
  "bytes_nat [] = 0"
| "bytes_nat (b # bs) = unat b + 256 * bytes_nat bs"

text \<open>The members follow each other without padding.\<close>

type_synonym members = "(string \<times> cvalue) list"

fun pack_struct :: "endian \<Rightarrow> struct \<Rightarrow> members \<Rightarrow> bytes" where
  "pack_struct e ((x, UInt n) # s) ((y, Num v) # vs) = in_order e (nat_bytes n v) @ pack_struct e s vs"
| "pack_struct e ((x, CharArray n) # s) ((y, Chars b) # vs) = take n b @ pack_struct e s vs"
| "pack_struct e _ _ = []"

fun load_struct :: "endian \<Rightarrow> struct \<Rightarrow> bytes \<Rightarrow> members" where
  "load_struct e [] bs = []"
| "load_struct e ((x, UInt n) # s) bs =
     (x, Num (bytes_nat (in_order e (take n bs)))) # load_struct e s (drop n bs)"
| "load_struct e ((x, CharArray n) # s) bs = (x, Chars (take n bs)) # load_struct e s (drop n bs)"

section \<open>Integers\<close>

lemma le_bytes_nat_bytes: "le_bytes n w = nat_bytes n (unat w)"
proof (rule nth_equalityI)
  fix i
  assume "i < length (le_bytes n w)"
  moreover have "(ucast (drop_bit (8 * i) w) :: byte) = word_of_nat (unat w div 256 ^ i)"
  proof -
    have "unat (drop_bit (8 * i) w) = drop_bit (8 * i) (unat w)" by (rule unat_drop_bit_eq)
    also have "\<dots> = unat w div 2 ^ (8 * i)" by (rule drop_bit_eq_div)
    also have "(2 :: nat) ^ (8 * i) = 256 ^ i" by (simp add: power_mult)
    finally show ?thesis by (metis of_nat_unat)
  qed
  ultimately show "le_bytes n w ! i = nat_bytes n (unat w) ! i"
    by (simp add: le_bytes_def nat_bytes_def)
qed (simp add: nat_bytes_def)

lemma bytes_nat_nat_bytes: "bytes_nat (nat_bytes n v) = v mod 256 ^ n"
proof (induction n arbitrary: v)
  case (Suc n)
  have "[0..<Suc n] = 0 # map Suc [0..<n]" by (simp add: upt_conv_Cons map_Suc_upt del: upt_Suc)
  then have "nat_bytes (Suc n) v = word_of_nat v # nat_bytes n (v div 256)"
    by (simp add: nat_bytes_def div_mult2_eq del: upt_Suc)
  moreover have "unat (word_of_nat v :: byte) = v mod 256" by (simp add: unat_of_nat)
  ultimately show ?case by (simp add: Suc.IH mod_mult2_eq)
qed (simp add: nat_bytes_def)

lemma bytes_nat_of_le:
  assumes "8 * length bs = LENGTH('a)"
  shows "bytes_nat bs = unat (of_le bs :: 'a::len word)"
proof -
  have "unat (of_le bs :: 'a word) < 2 ^ LENGTH('a)" by (rule unsigned_less)
  then have "unat (of_le bs :: 'a word) < 256 ^ length bs"
    using assms [symmetric] by (simp add: power_mult)
  moreover have "bs = nat_bytes (length bs) (unat (of_le bs :: 'a word))"
    using le_bytes_of_le [OF refl, of bs, where 'a = 'a] assms by (simp add: le_bytes_nat_bytes)
  ultimately show ?thesis using bytes_nat_nat_bytes by (metis mod_less)
qed

lemma mem_bytes_layout:
  "mem_bytes e (w :: 'a::len word) = in_order e (nat_bytes (LENGTH('a) div 8) (unat w))"
  by (simp add: mem_bytes_def in_order_def le_bytes_nat_bytes split: endian.split)

lemma mem_word_layout:
  assumes "8 * length bs = LENGTH('a)"
  shows "unat (mem_word e bs :: 'a::len word) = bytes_nat (in_order e bs)"
  using bytes_nat_of_le [of bs, where 'a = 'a] bytes_nat_of_le [of "rev bs", where 'a = 'a] assms
  by (simp add: mem_word_def in_order_def split: endian.split)

section \<open>The records as structures\<close>

text \<open>The members of a record, in the order of the declarations.\<close>

definition MessageHeader_values :: "MessageHeader \<Rightarrow> members" where
  "MessageHeader_values h =
     [(''magic'', Num (unat (magic h))), (''version'', Num (unat (version h))),
      (''msgType'', Num (unat (msgType h))),
      (''bodyLength'', Num (unat (bodyLength h))), (''sequence'', Num (unat (sequence h)))]"

definition LoginRequest_values :: "LoginRequest \<Rightarrow> members" where
  "LoginRequest_values r =
     [(''clientId'', Chars (lrq_clientId r)), (''nickname'', Chars (lrq_nickname r))]"

definition LoginResponse_values :: "LoginResponse \<Rightarrow> members" where
  "LoginResponse_values r =
     [(''result'', Num (unat (lrs_result r))), (''message'', Chars (lrs_message r))]"

definition ChatMessage_values :: "ChatMessage \<Rightarrow> members" where
  "ChatMessage_values m =
     [(''chatType'', Num (unat (cm_chatType m))), (''fromId'', Chars (cm_fromId m)),
      (''fromNick'', Chars (cm_fromNick m)), (''toId'', Chars (cm_toId m)),
      (''timestamp'', Num (unat (cm_timestamp m))), (''message'', Chars (cm_message m))]"

definition UserInfo_values :: "UserInfo \<Rightarrow> members" where
  "UserInfo_values u =
     [(''clientId'', Chars (ui_clientId u)), (''nickname'', Chars (ui_nickname u))]"

definition FileOffer_values :: "FileOffer \<Rightarrow> members" where
  "FileOffer_values f =
     [(''fileId'', Chars (fo_fileId f)), (''fromId'', Chars (fo_fromId f)),
      (''fromNick'', Chars (fo_fromNick f)), (''toId'', Chars (fo_toId f)),
      (''fileSize'', Num (unat (fo_fileSize f))), (''fileName'', Chars (fo_fileName f))]"

definition FileOfferResponse_values :: "FileOfferResponse \<Rightarrow> members" where
  "FileOfferResponse_values r =
     [(''fileId'', Chars (fr_fileId r)), (''result'', Num (unat (fr_result r))),
      (''message'', Chars (fr_message r))]"

definition FileDataHeader_values :: "FileDataHeader \<Rightarrow> members" where
  "FileDataHeader_values h =
     [(''fileId'', Chars (fd_fileId h)), (''offset'', Num (unat (fd_offset h))),
      (''chunkSize'', Num (unat (fd_chunkSize h)))]"

lemmas values_defs =
  MessageHeader_values_def LoginRequest_values_def LoginResponse_values_def ChatMessage_values_def
  UserInfo_values_def FileOffer_values_def FileOfferResponse_values_def FileDataHeader_values_def

lemmas load_defs =
  MessageHeader_load_def LoginRequest_load_def LoginResponse_load_def ChatMessage_load_def
  UserInfo_load_def FileOffer_load_def FileOfferResponse_load_def FileDataHeader_load_def

lemmas image_defs =
  MessageHeader_image_def LoginRequest_image_def LoginResponse_image_def ChatMessage_image_def
  UserInfo_image_def FileOffer_image_def FileOfferResponse_image_def FileDataHeader_image_def

text \<open>Reading: the offsets of \<open>Messages\<close> are those the declarations give.\<close>

definition loads :: "(string \<times> struct) list \<Rightarrow> string \<Rightarrow> (endian \<Rightarrow> bytes \<Rightarrow> members) \<Rightarrow> bool" where
  "loads header name values \<longleftrightarrow>
     (\<exists>s. map_of header name = Some s \<and>
        (\<forall>e bs. struct_size s \<le> length bs \<longrightarrow> values e bs = load_struct e s bs))"

lemma read_number:
  "off + n \<le> length bs \<Longrightarrow> 8 * n = LENGTH('a) \<Longrightarrow>
   unat (mem_word e (take n (drop off bs)) :: 'a::len word) = bytes_nat (in_order e (take n (drop off bs)))"
  by (subst mem_word_layout) simp_all

lemmas read_first = read_number [where off = 0, simplified]

lemma read_first_byte: "sizeof_ChatMessage \<le> length bs \<Longrightarrow> unat (bs ! 0) = bytes_nat (in_order e (take (Suc 0) bs))"
  by (cases bs) (simp_all add: in_order_def split: endian.split)

lemma loads_message_h:
  "loads message_h ''MessageHeader'' (\<lambda>e bs. MessageHeader_values (MessageHeader_load e bs))"
  "loads message_h ''LoginRequest'' (\<lambda>e bs. LoginRequest_values (LoginRequest_load bs))"
  "loads message_h ''LoginResponse'' (\<lambda>e bs. LoginResponse_values (LoginResponse_load e bs))"
  "loads message_h ''UserInfo'' (\<lambda>e bs. UserInfo_values (UserInfo_load bs))"
  "loads message_h ''FileOffer'' (\<lambda>e bs. FileOffer_values (FileOffer_load e bs))"
  "loads message_h ''FileOfferResponse'' (\<lambda>e bs. FileOfferResponse_values (FileOfferResponse_load e bs))"
  "loads message_h ''FileDataHeader'' (\<lambda>e bs. FileDataHeader_values (FileDataHeader_load e bs))"
  by (simp_all add: loads_def message_h_def values_defs load_defs struct_size_def read_number read_first get_def)

lemma loads_ChatMessage:
  "loads message_h ''ChatMessage'' (\<lambda>e bs. ChatMessage_values (ChatMessage_load e bs))"
  by (simp add: loads_def message_h_def values_defs load_defs struct_size_def read_number get_def
      read_first_byte)

text \<open>Writing, of values that fit their types.\<close>

fun fits :: "ctype \<Rightarrow> cvalue \<Rightarrow> bool" where
  "fits (UInt n) (Num v) = (v < 256 ^ n)"
| "fits (CharArray n) (Chars b) = (length b = n)"
| "fits _ _ = False"

definition well_typed :: "struct \<Rightarrow> members \<Rightarrow> bool" where
  "well_typed s vs = list_all2 (\<lambda>d v. fits (snd d) (snd v)) s vs"

definition stores ::
    "(string \<times> struct) list \<Rightarrow> string \<Rightarrow> (endian \<Rightarrow> 'r \<Rightarrow> bytes) \<Rightarrow> ('r \<Rightarrow> members) \<Rightarrow> bool" where
  "stores header name img values \<longleftrightarrow>
     (\<exists>s. map_of header name = Some s \<and> (\<forall>r. map fst (values r) = map fst s) \<and>
        (\<forall>e r. well_typed s (values r) \<longrightarrow> img e r = pack_struct e s (values r)))"

lemma byte_layout: "[b] = in_order e (nat_bytes (Suc 0) (unat b))"
  by (simp add: in_order_def nat_bytes_def split: endian.split)

lemma stores_message_h:
  "stores message_h ''MessageHeader'' MessageHeader_image MessageHeader_values"
  "stores message_h ''LoginRequest'' (\<lambda>_. LoginRequest_image) LoginRequest_values"
  "stores message_h ''LoginResponse'' LoginResponse_image LoginResponse_values"
  "stores message_h ''UserInfo'' (\<lambda>_. UserInfo_image) UserInfo_values"
  "stores message_h ''FileOffer'' FileOffer_image FileOffer_values"
  "stores message_h ''FileOfferResponse'' FileOfferResponse_image FileOfferResponse_values"
  "stores message_h ''FileDataHeader'' FileDataHeader_image FileDataHeader_values"
  by (simp_all add: stores_def message_h_def values_defs image_defs well_typed_def mem_bytes_layout)

lemma stores_ChatMessage: "stores message_h ''ChatMessage'' ChatMessage_image ChatMessage_values"
proof -
  have "x # ys = in_order e (nat_bytes (Suc 0) (unat x)) @ ys" for e x ys
    using byte_layout [of x e] by simp
  then show ?thesis
    by (simp add: stores_def message_h_def values_defs image_defs well_typed_def mem_bytes_layout)
qed

lemma headers_equal: "protocol_h = message_h" "protocol_h_enums = message_h_enums"
  by (simp_all add: protocol_h_def message_h_def protocol_h_enums_def message_h_enums_def)

text \<open>The constants the model uses for the enumerators.\<close>

definition used_constants :: "(string \<times> nat) list" where
  "used_constants =
     [(''MSG_HEARTBEAT_REQ'', unat MSG_HEARTBEAT_REQ),
      (''MSG_HEARTBEAT_RSP'', unat MSG_HEARTBEAT_RSP), (''MSG_LOGIN_REQ'', unat MSG_LOGIN_REQ),
      (''MSG_LOGIN_RSP'', unat MSG_LOGIN_RSP), (''MSG_LOGOUT_REQ'', unat MSG_LOGOUT_REQ),
      (''MSG_CHAT_MSG'', unat MSG_CHAT_MSG), (''MSG_USER_LIST_REQ'', unat MSG_USER_LIST_REQ),
      (''MSG_USER_LIST_RSP'', unat MSG_USER_LIST_RSP), (''MSG_FILE_OFFER'', unat MSG_FILE_OFFER),
      (''MSG_FILE_OFFER_RSP'', unat MSG_FILE_OFFER_RSP), (''MSG_FILE_DATA'', unat MSG_FILE_DATA),
      (''MSG_FILE_DATA_ACK'', unat MSG_FILE_DATA_ACK), (''LOGIN_SUCCESS'', unat LOGIN_SUCCESS),
      (''LOGIN_INVALID_PARAM'', unat LOGIN_INVALID_PARAM),
      (''LOGIN_SERVER_FULL'', unat LOGIN_SERVER_FULL),
      (''LOGIN_ALREADY_ONLINE'', unat LOGIN_ALREADY_ONLINE),
      (''LOGIN_NICKNAME_TAKEN'', unat LOGIN_NICKNAME_TAKEN),
      (''CHAT_GROUP'', unat (scope_byte CHAT_GROUP)),
      (''CHAT_PRIVATE'', unat (scope_byte CHAT_PRIVATE)),
      (''FILE_OFFER_ACCEPT'', unat FILE_OFFER_ACCEPT),
      (''FILE_OFFER_DECLINE'', unat FILE_OFFER_DECLINE),
      (''FILE_OFFER_BUSY'', unat FILE_OFFER_BUSY)]"

lemma used_constants_message_h: "used_constants = message_h_enums"
  by (simp add: used_constants_def message_h_enums_def msg_type_defs login_result_defs offer_result_defs)

text \<open>
  C36: both programs lay their messages out alike: whichever of the two headers is
  followed, the images written to a connection are the packed members of the declared
  structure in the host's byte order, the offsets read from it are theirs, and
  the enumerators have the values used for them.
\<close>

theorem headers_lay_out_messages:
  assumes "(header, enums) = (message_h, message_h_enums) \<or> (header, enums) = (protocol_h, protocol_h_enums)"
  shows "used_constants = enums \<and>
    (stores header ''MessageHeader'' MessageHeader_image MessageHeader_values \<and>
     loads header ''MessageHeader'' (\<lambda>e bs. MessageHeader_values (MessageHeader_load e bs))) \<and>
    (stores header ''LoginRequest'' (\<lambda>_. LoginRequest_image) LoginRequest_values \<and>
     loads header ''LoginRequest'' (\<lambda>e bs. LoginRequest_values (LoginRequest_load bs))) \<and>
    (stores header ''LoginResponse'' LoginResponse_image LoginResponse_values \<and>
     loads header ''LoginResponse'' (\<lambda>e bs. LoginResponse_values (LoginResponse_load e bs))) \<and>
    (stores header ''ChatMessage'' ChatMessage_image ChatMessage_values \<and>
     loads header ''ChatMessage'' (\<lambda>e bs. ChatMessage_values (ChatMessage_load e bs))) \<and>
    (stores header ''UserInfo'' (\<lambda>_. UserInfo_image) UserInfo_values \<and>
     loads header ''UserInfo'' (\<lambda>e bs. UserInfo_values (UserInfo_load bs))) \<and>
    (stores header ''FileOffer'' FileOffer_image FileOffer_values \<and>
     loads header ''FileOffer'' (\<lambda>e bs. FileOffer_values (FileOffer_load e bs))) \<and>
    (stores header ''FileOfferResponse'' FileOfferResponse_image FileOfferResponse_values \<and>
     loads header ''FileOfferResponse'' (\<lambda>e bs. FileOfferResponse_values (FileOfferResponse_load e bs))) \<and>
    (stores header ''FileDataHeader'' FileDataHeader_image FileDataHeader_values \<and>
     loads header ''FileDataHeader'' (\<lambda>e bs. FileDataHeader_values (FileDataHeader_load e bs)))"
  using assms unfolding headers_equal
  by (simp add: used_constants_message_h stores_message_h stores_ChatMessage loads_message_h loads_ChatMessage)

theorem headers_lay_out_messages_witness:
  "MessageHeader_image Big \<lparr>magic = MAGIC_NUMBER, version = 1, msgType = MSG_LOGIN_REQ,
     bodyLength = 96, sequence = 7\<rparr> =
   [0x12, 0x34, 0x56, 0x78, 0, 1, 1, 1, 0, 0, 0, 96, 0, 0, 0, 7]"
proof -
  let ?h = "\<lparr>magic = MAGIC_NUMBER, version = 1, msgType = MSG_LOGIN_REQ, bodyLength = 96, sequence = 7\<rparr>"
  have "stores protocol_h ''MessageHeader'' MessageHeader_image MessageHeader_values"
    using headers_lay_out_messages [of protocol_h protocol_h_enums] by blast
  then have "MessageHeader_image Big ?h = pack_struct Big [(''magic'', UInt 4), (''version'', UInt 2),
      (''msgType'', UInt 2), (''bodyLength'', UInt 4), (''sequence'', UInt 4)] (MessageHeader_values ?h)"
    by (auto simp: stores_def protocol_h_def well_typed_def MessageHeader_values_def MAGIC_NUMBER_def
        MSG_LOGIN_REQ_def)
  then show ?thesis
    by (simp add: MessageHeader_values_def in_order_def nat_bytes_def MAGIC_NUMBER_def MSG_LOGIN_REQ_def
        upt_rec [of _ "4"] upt_rec [of _ "2"])
qed

end
