(* ===== verification/Ordered_Map.thy ===== *)
theory Ordered_Map
  imports IM_Prelude
begin

text \<open>
  \<open>std::map\<close>: an associative container that iterates in ascending key order, modelled
  as an association list sorted by key, with insertion (\<open>m[k] = v\<close>), erasure and
  lookup. The locale states what the components that keep such a map rely on; the
  sorted lists are its interpretation.
\<close>

section \<open>The interface\<close>

locale ordered_table =
  fixes empty :: "'m"
    and put :: "'k::linorder \<Rightarrow> 'v \<Rightarrow> 'm \<Rightarrow> 'm"
    and del :: "'k \<Rightarrow> 'm \<Rightarrow> 'm"
    and entries :: "'m \<Rightarrow> ('k \<times> 'v) list"
    and ok :: "'m \<Rightarrow> bool"
  assumes ok_empty: "ok empty"
    and ok_put: "ok m \<Longrightarrow> ok (put k v m)"
    and ok_del: "ok m \<Longrightarrow> ok (del k m)"
    and entries_empty: "entries empty = []"
    and ascending: "ok m \<Longrightarrow> sorted_wrt (<) (map fst (entries m))"
    and get_put: "ok m \<Longrightarrow> map_of (entries (put k v m)) = (map_of (entries m))(k \<mapsto> v)"
    and get_del: "ok m \<Longrightarrow> map_of (entries (del k m)) = (map_of (entries m))(k := None)"
begin

lemma distinct_keys: "ok m \<Longrightarrow> distinct (map fst (entries m))"
  using ascending strict_sorted_iff by blast

lemma in_entries_iff: "ok m \<Longrightarrow> (k, v) \<in> set (entries m) \<longleftrightarrow> map_of (entries m) k = Some v"
  by (metis distinct_keys map_of_eq_Some_iff)

lemma set_put:
  "ok m \<Longrightarrow> set (entries (put k v m)) = insert (k, v) {x \<in> set (entries m). fst x \<noteq> k}"
  by (auto simp: in_entries_iff ok_put get_put split: if_splits)

lemma set_del: "ok m \<Longrightarrow> set (entries (del k m)) = {x \<in> set (entries m). fst x \<noteq> k}"
  by (auto simp: in_entries_iff ok_del get_del split: if_splits)

text \<open>A table is determined by what it holds: the iteration order adds nothing.\<close>

lemma entries_unique:
  assumes "ok m" and "ok n" and "map_of (entries m) = map_of (entries n)"
  shows "entries m = entries n"
proof -
  have same: "set (entries m) = set (entries n)"
    using assms by (auto simp: in_entries_iff)
  moreover have "inj_on fst (set (entries m) \<union> set (entries n))"
    using distinct_keys [OF assms(1)] same by (simp add: distinct_map)
  ultimately show ?thesis
    using assms ascending strict_sorted_iff by (metis map_sorted_distinct_set_unique)
qed

end

section \<open>Sorted association lists\<close>

fun om_put :: "'k::linorder \<Rightarrow> 'v \<Rightarrow> ('k \<times> 'v) list \<Rightarrow> ('k \<times> 'v) list" where
  "om_put k v [] = [(k, v)]"
| "om_put k v ((k', v') # m) =
     (if k < k' then (k, v) # (k', v') # m
      else if k = k' then (k, v) # m
      else (k', v') # om_put k v m)"

fun om_del :: "'k::linorder \<Rightarrow> ('k \<times> 'v) list \<Rightarrow> ('k \<times> 'v) list" where
  "om_del k [] = []"
| "om_del k ((k', v') # m) = (if k = k' then m else (k', v') # om_del k m)"

definition om_ok :: "('k::linorder \<times> 'v) list \<Rightarrow> bool" where
  "om_ok m = sorted_wrt (<) (map fst m)"

lemma om_put_keys: "fst ` set (om_put k v m) = insert k (fst ` set m)"
  by (induction k v m rule: om_put.induct) auto

lemma om_ok_Cons:
  "om_ok ((k, v) # m) \<longleftrightarrow> (\<forall>k' \<in> fst ` set m. k < k') \<and> om_ok m"
  by (simp add: om_ok_def)

lemma om_ok_put: "om_ok m \<Longrightarrow> om_ok (om_put k v m)"
proof (induction k v m rule: om_put.induct)
  case (2 k v k' v' m)
  then have tail: "\<forall>x \<in> fst ` set m. k' < x" and m: "om_ok m"
    by (simp_all add: om_ok_Cons)
  consider "k < k'" | "k = k'" | "k' < k" by fastforce
  then show ?case
  proof cases
    case 1
    then show ?thesis using tail m by (auto simp: om_ok_Cons dest: order.strict_trans)
  next
    case 2
    then show ?thesis using tail m by (simp add: om_ok_Cons)
  next
    case 3
    then have "\<not> k < k'" and "k \<noteq> k'" by auto
    then show ?thesis using tail m "2.IH" 3 by (simp add: om_ok_Cons om_put_keys)
  qed
qed (simp add: om_ok_def)

lemma om_del_subset: "set (om_del k m) \<subseteq> set m"
  by (induction k m rule: om_del.induct) auto

lemma om_ok_del: "om_ok m \<Longrightarrow> om_ok (om_del k m)"
proof (induction k m rule: om_del.induct)
  case (2 k k' v' m)
  then show ?case using om_del_subset [of k m] by (auto simp: om_ok_Cons)
qed (simp add: om_ok_def)

lemma map_of_om_put: "map_of (om_put k v m) = (map_of m)(k \<mapsto> v)"
  by (induction k v m rule: om_put.induct) (auto simp: fun_eq_iff)

lemma om_ok_absent: "om_ok ((k, v) # m) \<Longrightarrow> map_of m k = None"
  by (auto simp: om_ok_Cons map_of_eq_None_iff)

lemma map_of_om_del: "om_ok m \<Longrightarrow> map_of (om_del k m) = (map_of m)(k := None)"
proof (induction k m rule: om_del.induct)
  case (2 k k' v' m)
  then show ?case
    using om_ok_absent [OF "2.prems"] by (auto simp: fun_eq_iff om_ok_Cons)
qed (simp add: fun_eq_iff)

interpretation om: ordered_table "[]" om_put om_del "\<lambda>m. m" om_ok
  by unfold_locales
     (auto simp: om_ok_put om_ok_del map_of_om_put map_of_om_del, simp_all add: om_ok_def)

lemma map_of_om_put_same [simp]: "map_of (om_put k v m) k' = (if k' = k then Some v else map_of m k')"
  by (simp add: map_of_om_put)

end
