(* ===== verification/Client_Manager.thy ===== *)
theory Client_Manager
  imports Ordered_Map C_Strings
begin

text \<open>
  \<open>ClientManager\<close> (\<open>server/src/client_manager.h\<close>, \<open>.cpp\<close>): the registry of connected
  clients, a \<open>std::map<int, ClientInfo>\<close> behind a mutex. Every member function takes
  the lock for its whole body, so each is one atomic operation. The steady clock is an
  argument \<open>now\<close>, in nanoseconds.
\<close>

section \<open>State\<close>

record ClientInfo =
  ci_fd :: int
  ci_clientId :: bytes
  ci_nickname :: bytes
  ci_ip :: bytes
  ci_port :: int
  ci_lastHeartbeat :: int
  ci_isOnline :: bool

type_synonym clients = "(int \<times> ClientInfo) list"

section \<open>Operations\<close>

definition addClient :: "int \<Rightarrow> int \<Rightarrow> bytes \<Rightarrow> int \<Rightarrow> clients \<Rightarrow> clients" where
  "addClient now fd ip port clients =
     om_put fd \<lparr>ci_fd = fd, ci_clientId = [], ci_nickname = [], ci_ip = ip, ci_port = port,
               ci_lastHeartbeat = now, ci_isOnline = False\<rparr> clients"

definition removeClient :: "int \<Rightarrow> clients \<Rightarrow> clients" where
  "removeClient fd clients = om_del fd clients"

definition updateHeartbeat :: "int \<Rightarrow> int \<Rightarrow> clients \<Rightarrow> clients" where
  "updateHeartbeat now fd clients =
     (case map_of clients fd of
        None \<Rightarrow> clients
      | Some info \<Rightarrow> om_put fd (info\<lparr>ci_lastHeartbeat := now\<rparr>) clients)"

text \<open>\<open>duration_cast<seconds>\<close> truncates towards zero.\<close>

definition elapsed_seconds :: "int \<Rightarrow> int \<Rightarrow> int" where
  "elapsed_seconds now t =
     (let d = now - t in if 0 \<le> d then d div 1000000000 else - ((- d) div 1000000000))"

definition checkTimeout :: "int \<Rightarrow> int \<Rightarrow> clients \<Rightarrow> int list" where
  "checkTimeout now timeoutSeconds clients =
     map fst (filter (\<lambda>(fd, info).
        elapsed_seconds now (ci_lastHeartbeat info) > timeoutSeconds) clients)"

text \<open>\<open>getClient\<close> and \<open>getClientInfo\<close>: a pointer or a copy, when there is an entry.\<close>

definition getClientInfo :: "int \<Rightarrow> clients \<Rightarrow> ClientInfo option" where
  "getClientInfo fd clients = map_of clients fd"

definition setClientIdentity :: "int \<Rightarrow> bytes \<Rightarrow> bytes \<Rightarrow> clients \<Rightarrow> bool \<times> clients" where
  "setClientIdentity fd clientId nickname clients =
     (case map_of clients fd of
        None \<Rightarrow> (False, clients)
      | Some info \<Rightarrow>
          (True, om_put fd (info\<lparr>ci_clientId := clientId, ci_nickname := nickname,
                                ci_isOnline := True\<rparr>) clients))"

definition isClientIdOnline :: "bytes \<Rightarrow> int \<Rightarrow> clients \<Rightarrow> bool" where
  "isClientIdOnline clientId excludeFd clients =
     (if clientId = [] then False
      else list_ex (\<lambda>(fd, info).
        fd \<noteq> excludeFd \<and> ci_isOnline info \<and> ci_clientId info = clientId) clients)"

definition isNicknameOnline :: "bytes \<Rightarrow> int \<Rightarrow> clients \<Rightarrow> bool" where
  "isNicknameOnline nickname excludeFd clients =
     (if nickname = [] then False
      else list_ex (\<lambda>(fd, info).
        fd \<noteq> excludeFd \<and> ci_isOnline info \<and> ci_nickname info = nickname) clients)"

definition getFdByClientId :: "bytes \<Rightarrow> clients \<Rightarrow> int" where
  "getFdByClientId clientId clients =
     (if clientId = [] then -1
      else case find (\<lambda>(fd, info). ci_isOnline info \<and> ci_clientId info = clientId) clients of
             None \<Rightarrow> -1
           | Some (fd, info) \<Rightarrow> fd)"

definition getOnlineClients :: "clients \<Rightarrow> ClientInfo list" where
  "getOnlineClients clients = map snd (filter (\<lambda>(fd, info). ci_isOnline info) clients)"

definition hasClient :: "int \<Rightarrow> clients \<Rightarrow> bool" where
  "hasClient fd clients = (map_of clients fd \<noteq> None)"

definition isTimedOut :: "int \<Rightarrow> int \<Rightarrow> int \<Rightarrow> clients \<Rightarrow> bool" where
  "isTimedOut now fd timeoutSeconds clients =
     (case map_of clients fd of
        None \<Rightarrow> False
      | Some info \<Rightarrow> elapsed_seconds now (ci_lastHeartbeat info) > timeoutSeconds)"

definition getAllFds :: "clients \<Rightarrow> int list" where
  "getAllFds clients = map fst clients"

definition getOnlineCount :: "clients \<Rightarrow> nat" where
  "getOnlineCount clients = length (filter (\<lambda>(fd, info). ci_isOnline info) clients)"

section \<open>Invariant\<close>

text \<open>
  The registry is sorted by descriptor and each entry knows its own descriptor; a client
  that is online has a non-empty identity, and no two online clients share a client id
  or a nickname.
\<close>

definition entry_ok :: "int \<times> ClientInfo \<Rightarrow> bool" where
  "entry_ok e \<longleftrightarrow> (case e of (fd, info) \<Rightarrow>
     0 \<le> fd \<and> ci_fd info = fd \<and>
     (ci_isOnline info \<longrightarrow> ci_clientId info \<noteq> [] \<and> ci_nickname info \<noteq> [] \<and>
        clip 32 (ci_clientId info) = ci_clientId info \<and>
        clip 64 (ci_nickname info) = ci_nickname info))"

definition unique_online :: "(ClientInfo \<Rightarrow> bytes) \<Rightarrow> clients \<Rightarrow> bool" where
  "unique_online key clients \<longleftrightarrow>
     (\<forall>(f, a) \<in> set clients. \<forall>(g, b) \<in> set clients.
        ci_isOnline a \<longrightarrow> ci_isOnline b \<longrightarrow> key a = key b \<longrightarrow> f = g)"

definition registry_ok :: "clients \<Rightarrow> bool" where
  "registry_ok clients \<longleftrightarrow>
     om_ok clients \<and> (\<forall>e \<in> set clients. entry_ok e) \<and>
     unique_online ci_clientId clients \<and> unique_online ci_nickname clients"

lemma registry_okD:
  assumes "registry_ok cs"
  shows "om_ok cs" and "(fd, info) \<in> set cs \<Longrightarrow> entry_ok (fd, info)"
    and "unique_online ci_clientId cs" and "unique_online ci_nickname cs"
  using assms by (auto simp: registry_ok_def)

lemma in_clients_iff: "registry_ok cs \<Longrightarrow> (fd, info) \<in> set cs \<longleftrightarrow> map_of cs fd = Some info"
  by (rule om.in_entries_iff) (rule registry_okD)

lemma unique_onlineD:
  "unique_online key cs \<Longrightarrow> (f, a) \<in> set cs \<Longrightarrow> (g, b) \<in> set cs \<Longrightarrow>
   ci_isOnline a \<Longrightarrow> ci_isOnline b \<Longrightarrow> key a = key b \<Longrightarrow> f = g"
  by (force simp: unique_online_def)

lemma registry_ok_Nil [simp]: "registry_ok []"
  by (simp add: registry_ok_def om_ok_def unique_online_def)

text \<open>Dropping entries keeps uniqueness; replacing one needs the new value to be free.\<close>

lemma unique_onlineI:
  "(\<And>f a g b. (f, a) \<in> set cs \<Longrightarrow> (g, b) \<in> set cs \<Longrightarrow> ci_isOnline a \<Longrightarrow> ci_isOnline b \<Longrightarrow>
      key a = key b \<Longrightarrow> f = g) \<Longrightarrow> unique_online key cs"
  unfolding unique_online_def by blast

lemma unique_online_subset: "unique_online key cs \<Longrightarrow> set ds \<subseteq> set cs \<Longrightarrow> unique_online key ds"
  by (rule unique_onlineI) (meson unique_onlineD subsetD)

lemma unique_online_put:
  assumes "om_ok cs" and "unique_online key cs"
    and "\<And>g b. (g, b) \<in> set cs \<Longrightarrow> g \<noteq> fd \<Longrightarrow> ci_isOnline b \<Longrightarrow> ci_isOnline info \<Longrightarrow> key b \<noteq> key info"
  shows "unique_online key (om_put fd info cs)"
proof (rule unique_onlineI)
  fix f a g b
  assume "(f, a) \<in> set (om_put fd info cs)" and "(g, b) \<in> set (om_put fd info cs)"
    and on: "ci_isOnline a" "ci_isOnline b" and key: "key a = key b"
  then have f: "f = fd \<and> a = info \<or> (f, a) \<in> set cs \<and> f \<noteq> fd"
    and g: "g = fd \<and> b = info \<or> (g, b) \<in> set cs \<and> g \<noteq> fd"
    by (auto simp: om.set_put [OF assms(1)])
  show "f = g"
    using f g on key assms(3) unique_onlineD [OF assms(2)] by metis
qed

lemma registry_ok_put:
  assumes "registry_ok cs" and "entry_ok (fd, info)"
    and "\<And>g b. (g, b) \<in> set cs \<Longrightarrow> g \<noteq> fd \<Longrightarrow> ci_isOnline b \<Longrightarrow> ci_isOnline info \<Longrightarrow>
      ci_clientId b \<noteq> ci_clientId info \<and> ci_nickname b \<noteq> ci_nickname info"
  shows "registry_ok (om_put fd info cs)"
proof -
  have "unique_online ci_clientId (om_put fd info cs)"
    and "unique_online ci_nickname (om_put fd info cs)"
    using registry_okD [OF assms(1)] assms(3) by (blast intro: unique_online_put)+
  then show ?thesis
    using assms(1,2) by (auto simp: registry_ok_def om.set_put om_ok_put)
qed

section \<open>What the operations do\<close>

text \<open>Each operation keeps the invariant; \<open>setClientIdentity\<close> under the checks of the login.\<close>

lemma registry_ok_addClient:
  "registry_ok cs \<Longrightarrow> 0 \<le> fd \<Longrightarrow> registry_ok (addClient now fd ip port cs)"
  unfolding addClient_def by (rule registry_ok_put) (auto simp: entry_ok_def)

lemma registry_ok_removeClient: "registry_ok cs \<Longrightarrow> registry_ok (removeClient fd cs)"
  using om_del_subset [of fd cs]
  by (auto simp: registry_ok_def removeClient_def om_ok_del intro: unique_online_subset)

lemma registry_ok_updateHeartbeat:
  assumes "registry_ok cs"
  shows "registry_ok (updateHeartbeat now fd cs)"
proof (cases "map_of cs fd")
  case None
  then show ?thesis using assms by (simp add: updateHeartbeat_def)
next
  case (Some info)
  then have i: "(fd, info) \<in> set cs" using assms by (simp add: in_clients_iff)
  have "entry_ok (fd, info\<lparr>ci_lastHeartbeat := now\<rparr>)"
    using registry_okD(2) [OF assms i] by (simp add: entry_ok_def)
  moreover have "ci_clientId b \<noteq> ci_clientId info \<and> ci_nickname b \<noteq> ci_nickname info"
    if "(g, b) \<in> set cs" "g \<noteq> fd" "ci_isOnline b" "ci_isOnline info" for g b
    using that i registry_okD(3,4) [OF assms] by (meson unique_onlineD)
  ultimately show ?thesis
    unfolding updateHeartbeat_def Some using assms by (auto intro!: registry_ok_put)
qed

lemma isClientIdOnline_iff:
  "isClientIdOnline clientId ex cs \<longleftrightarrow>
     clientId \<noteq> [] \<and> (\<exists>(g, b) \<in> set cs. g \<noteq> ex \<and> ci_isOnline b \<and> ci_clientId b = clientId)"
  by (auto simp: isClientIdOnline_def list_ex_iff)

lemma isNicknameOnline_iff:
  "isNicknameOnline nickname ex cs \<longleftrightarrow>
     nickname \<noteq> [] \<and> (\<exists>(g, b) \<in> set cs. g \<noteq> ex \<and> ci_isOnline b \<and> ci_nickname b = nickname)"
  by (auto simp: isNicknameOnline_def list_ex_iff)

lemma registry_ok_setClientIdentity:
  assumes "registry_ok cs" and "clientId \<noteq> []" and "nickname \<noteq> []"
    and "clip 32 clientId = clientId" and "clip 64 nickname = nickname"
    and "\<not> isClientIdOnline clientId fd cs" and "\<not> isNicknameOnline nickname fd cs"
  shows "registry_ok (snd (setClientIdentity fd clientId nickname cs))"
proof (cases "map_of cs fd")
  case None
  then show ?thesis using assms(1) by (simp add: setClientIdentity_def)
next
  case (Some info)
  then have i: "(fd, info) \<in> set cs" using assms(1) by (simp add: in_clients_iff)
  have e: "entry_ok (fd, info\<lparr>ci_clientId := clientId, ci_nickname := nickname, ci_isOnline := True\<rparr>)"
    using registry_okD(2) [OF assms(1) i] assms by (simp add: entry_ok_def)
  have "ci_clientId b \<noteq> clientId \<and> ci_nickname b \<noteq> nickname"
    if "(g, b) \<in> set cs" "g \<noteq> fd" "ci_isOnline b" for g b
    using that assms(2,3,6,7) by (auto simp: isClientIdOnline_iff isNicknameOnline_iff)
  then show ?thesis
    unfolding setClientIdentity_def Some using assms(1) e by (auto intro!: registry_ok_put)
qed

text \<open>The checks before \<open>setClientIdentity\<close> are exact.\<close>

lemma registry_ok_setClientIdentity_iff:
  assumes "registry_ok cs"
  shows "registry_ok (snd (setClientIdentity fd clientId nickname cs)) \<longleftrightarrow>
    \<not> hasClient fd cs \<or>
    clientId \<noteq> [] \<and> nickname \<noteq> [] \<and> clip 32 clientId = clientId \<and> clip 64 nickname = nickname \<and>
    \<not> isClientIdOnline clientId fd cs \<and> \<not> isNicknameOnline nickname fd cs"
proof (cases "map_of cs fd")
  case None
  then show ?thesis using assms by (simp add: setClientIdentity_def hasClient_def)
next
  case (Some info)
  define new where "new = info\<lparr>ci_clientId := clientId, ci_nickname := nickname, ci_isOnline := True\<rparr>"
  have eq: "snd (setClientIdentity fd clientId nickname cs) = om_put fd new cs"
    by (simp add: setClientIdentity_def Some new_def)
  have new: "(fd, new) \<in> set (om_put fd new cs)" "(g, b) \<in> set (om_put fd new cs)"
    if "(g, b) \<in> set cs" "g \<noteq> fd" for g b
    using that by (auto simp: om.set_put [OF registry_okD(1) [OF assms]])
  have "clientId \<noteq> [] \<and> nickname \<noteq> [] \<and> clip 32 clientId = clientId \<and> clip 64 nickname = nickname \<and>
      \<not> isClientIdOnline clientId fd cs \<and> \<not> isNicknameOnline nickname fd cs"
    if ok: "registry_ok (om_put fd new cs)"
  proof -
    have "(fd, new) \<in> set (om_put fd new cs)" by (auto simp: om.set_put [OF registry_okD(1) [OF assms]])
    from registry_okD(2) [OF ok this] have "clientId \<noteq> []" "nickname \<noteq> []"
      "clip 32 clientId = clientId" "clip 64 nickname = nickname"
      by (simp_all add: entry_ok_def new_def)
    moreover have "ci_clientId b \<noteq> clientId \<and> ci_nickname b \<noteq> nickname"
      if "(g, b) \<in> set cs" "g \<noteq> fd" "ci_isOnline b" for g b
      using unique_onlineD [OF registry_okD(3) [OF ok] new [OF that(1,2)]]
        unique_onlineD [OF registry_okD(4) [OF ok] new [OF that(1,2)]] that(2,3)
      by (auto simp: new_def)
    ultimately show ?thesis by (auto simp: isClientIdOnline_iff isNicknameOnline_iff)
  qed
  then show ?thesis
    using registry_ok_setClientIdentity [OF assms, of clientId nickname fd] Some
    unfolding eq by (auto simp: hasClient_def)
qed

text \<open>Looking a client up by id finds the one online client that has it.\<close>

lemma getFdByClientId_found:
  assumes "registry_ok cs" and "map_of cs fd = Some info" and "ci_isOnline info"
    and "ci_clientId info = clientId"
  shows "getFdByClientId clientId cs = fd"
proof -
  have i: "(fd, info) \<in> set cs" using assms(1,2) by (simp add: in_clients_iff)
  have ne: "clientId \<noteq> []" using registry_okD(2) [OF assms(1) i] assms(3,4)
    by (auto simp: entry_ok_def)
  let ?P = "\<lambda>(fd, info). ci_isOnline info \<and> ci_clientId info = clientId"
  have "find ?P cs \<noteq> None" using i assms(3,4) by (auto simp: find_None_iff)
  then obtain g b where g: "find ?P cs = Some (g, b)" by auto
  then have "(g, b) \<in> set cs" "ci_isOnline b" "ci_clientId b = clientId"
    by (auto simp: find_Some_iff) (metis nth_mem)
  then have "g = fd" using i assms(3,4) registry_okD(3) [OF assms(1)] by (metis unique_onlineD)
  then show ?thesis using ne g by (simp add: getFdByClientId_def)
qed

lemma getFdByClientId_cases:
  assumes "registry_ok cs"
  shows "getFdByClientId clientId cs = -1 \<and>
           (\<forall>fd info. map_of cs fd = Some info \<longrightarrow> ci_isOnline info \<longrightarrow> ci_clientId info \<noteq> clientId)
       \<or> (\<exists>fd info. getFdByClientId clientId cs = fd \<and> 0 \<le> fd \<and> map_of cs fd = Some info \<and>
            ci_isOnline info \<and> ci_clientId info = clientId)"
proof (cases "\<exists>fd info. map_of cs fd = Some info \<and> ci_isOnline info \<and> ci_clientId info = clientId")
  case True
  then obtain fd info where i: "map_of cs fd = Some info" "ci_isOnline info"
    "ci_clientId info = clientId" by blast
  then have "entry_ok (fd, info)" using assms registry_okD(2) in_clients_iff by blast
  then show ?thesis using getFdByClientId_found [OF assms i] i by (auto simp: entry_ok_def)
next
  case False
  then have "find (\<lambda>(fd, info). ci_isOnline info \<and> ci_clientId info = clientId) cs = None"
    using in_clients_iff [OF assms] by (auto simp: find_None_iff)
  then show ?thesis using False by (auto simp: getFdByClientId_def)
qed

text \<open>The online list: every online client once, in ascending descriptor order.\<close>

lemma getOnlineClients_set:
  assumes "registry_ok cs"
  shows "info \<in> set (getOnlineClients cs) \<longleftrightarrow>
    ci_isOnline info \<and> map_of cs (ci_fd info) = Some info"
proof -
  have "info \<in> set (getOnlineClients cs) \<longleftrightarrow> (\<exists>fd. (fd, info) \<in> set cs \<and> ci_isOnline info)"
    by (force simp: getOnlineClients_def image_iff)
  also have "\<dots> \<longleftrightarrow> ci_isOnline info \<and> map_of cs (ci_fd info) = Some info"
    using registry_okD(2) [OF assms] in_clients_iff [OF assms] by (auto simp: entry_ok_def)
  finally show ?thesis .
qed

lemma getOnlineClients_fds:
  assumes "registry_ok cs"
  shows "map ci_fd (getOnlineClients cs) = map fst (filter (\<lambda>(fd, info). ci_isOnline info) cs)"
  using registry_okD(2) [OF assms] by (auto simp: getOnlineClients_def entry_ok_def)

lemma getOnlineClients_sorted:
  assumes "registry_ok cs"
  shows "sorted_wrt (<) (map ci_fd (getOnlineClients cs))"
  using om.ascending [OF registry_okD(1) [OF assms]]
  by (auto simp: getOnlineClients_fds [OF assms] sorted_wrt_map intro: sorted_wrt_filter)

lemma getOnlineCount_eq: "getOnlineCount cs = length (getOnlineClients cs)"
  by (simp add: getOnlineCount_def getOnlineClients_def)

text \<open>
  The timeout: an idle time counts in whole seconds, cut down, so a client is reported
  when a full \<open>timeoutSeconds + 1\<close> seconds have passed since its last heartbeat.
\<close>

lemma elapsed_seconds_gt:
  "0 \<le> t \<Longrightarrow> elapsed_seconds now since > t \<longleftrightarrow> since + (t + 1) * 1000000000 \<le> now"
  by (auto simp: elapsed_seconds_def Let_def)

lemma checkTimeout_iff:
  assumes "registry_ok cs" and "0 \<le> t"
  shows "fd \<in> set (checkTimeout now t cs) \<longleftrightarrow>
    (\<exists>info. map_of cs fd = Some info \<and> ci_lastHeartbeat info + (t + 1) * 1000000000 \<le> now)"
proof -
  have "fd \<in> set (checkTimeout now t cs) \<longleftrightarrow>
      (\<exists>info. (fd, info) \<in> set cs \<and> elapsed_seconds now (ci_lastHeartbeat info) > t)"
    by (force simp: checkTimeout_def image_iff)
  then show ?thesis by (simp add: in_clients_iff [OF assms(1)] elapsed_seconds_gt [OF assms(2)])
qed

section \<open>The registry as the server relies on it\<close>

text \<open>
  The server reaches clients by id. The contract: an id in use resolves to the one
  online client that holds it, an id nobody holds resolves to -1, and a login that
  passed the two uniqueness checks changes the holder of that client's entry only.
\<close>

locale client_registry =
  fixes lookup :: "int \<Rightarrow> 'r \<Rightarrow> ClientInfo option"
    and identify :: "int \<Rightarrow> bytes \<Rightarrow> bytes \<Rightarrow> 'r \<Rightarrow> 'r"
    and id_taken :: "bytes \<Rightarrow> int \<Rightarrow> 'r \<Rightarrow> bool"
    and nick_taken :: "bytes \<Rightarrow> int \<Rightarrow> 'r \<Rightarrow> bool"
    and fd_of :: "bytes \<Rightarrow> 'r \<Rightarrow> int"
    and ok :: "'r \<Rightarrow> bool"
  assumes ok_identify: "ok r \<Longrightarrow> i \<noteq> [] \<Longrightarrow> n \<noteq> [] \<Longrightarrow> clip 32 i = i \<Longrightarrow> clip 64 n = n \<Longrightarrow>
      \<not> id_taken i fd r \<Longrightarrow> \<not> nick_taken n fd r \<Longrightarrow> ok (identify fd i n r)"
    and lookup_identify: "ok r \<Longrightarrow> lookup fd r = Some info \<Longrightarrow>
      lookup g (identify fd i n r) =
        (if g = fd then Some (info\<lparr>ci_clientId := i, ci_nickname := n, ci_isOnline := True\<rparr>)
         else lookup g r)"
    and fd_of_holder: "ok r \<Longrightarrow> lookup fd r = Some info \<Longrightarrow> ci_isOnline info \<Longrightarrow>
      fd_of (ci_clientId info) r = fd"
    and fd_of_nobody: "ok r \<Longrightarrow>
      (\<And>fd info. lookup fd r = Some info \<Longrightarrow> ci_isOnline info \<Longrightarrow> ci_clientId info \<noteq> i) \<Longrightarrow>
      fd_of i r = -1"
begin

text \<open>Two online clients with one id would both be its holder, so they are the same.\<close>

lemma id_unique:
  "ok r \<Longrightarrow> lookup f r = Some a \<Longrightarrow> lookup g r = Some b \<Longrightarrow> ci_isOnline a \<Longrightarrow> ci_isOnline b \<Longrightarrow>
   ci_clientId a = ci_clientId b \<Longrightarrow> f = g"
  by (metis fd_of_holder)

text \<open>After a login the id leads to that connection, and every other client keeps its own.\<close>

lemma login_routes:
  assumes "ok r" and "lookup fd r = Some info" and "i \<noteq> []" and "n \<noteq> []"
    and "clip 32 i = i" and "clip 64 n = n"
    and "\<not> id_taken i fd r" and "\<not> nick_taken n fd r"
  shows "fd_of i (identify fd i n r) = fd"
    and "lookup g r = Some b \<Longrightarrow> ci_isOnline b \<Longrightarrow> g \<noteq> fd \<Longrightarrow>
      fd_of (ci_clientId b) (identify fd i n r) = g"
proof -
  have ok': "ok (identify fd i n r)" using assms by (intro ok_identify)
  show "fd_of i (identify fd i n r) = fd"
    using fd_of_holder [OF ok'] lookup_identify [OF assms(1,2), of fd i n] by fastforce
  show "fd_of (ci_clientId b) (identify fd i n r) = g"
    if "lookup g r = Some b" "ci_isOnline b" "g \<noteq> fd"
    using that fd_of_holder [OF ok'] lookup_identify [OF assms(1,2), of g i n] by fastforce
qed

end

lemma getClientInfo_identify:
  assumes "getClientInfo fd cs = Some info"
  shows "getClientInfo g (snd (setClientIdentity fd i n cs)) =
    (if g = fd then Some (info\<lparr>ci_clientId := i, ci_nickname := n, ci_isOnline := True\<rparr>)
     else getClientInfo g cs)"
  using assms by (simp add: getClientInfo_def setClientIdentity_def)

interpretation reg: client_registry getClientInfo
  "\<lambda>fd i n cs. snd (setClientIdentity fd i n cs)" isClientIdOnline isNicknameOnline
  getFdByClientId registry_ok
proof unfold_locales
  show "registry_ok (snd (setClientIdentity fd i n r))"
    if "registry_ok r" "i \<noteq> []" "n \<noteq> []" "clip 32 i = i" "clip 64 n = n"
      "\<not> isClientIdOnline i fd r" "\<not> isNicknameOnline n fd r" for r i n fd
    using that by (intro registry_ok_setClientIdentity)
  show "getFdByClientId (ci_clientId info) r = fd"
    if "registry_ok r" "getClientInfo fd r = Some info" "ci_isOnline info" for r fd info
    using that by (auto simp: getClientInfo_def intro: getFdByClientId_found)
  show "getFdByClientId i r = -1"
    if "registry_ok r"
      "\<And>fd info. getClientInfo fd r = Some info \<Longrightarrow> ci_isOnline info \<Longrightarrow> ci_clientId info \<noteq> i"
    for r i
    using that getFdByClientId_cases [of r i] by (auto simp: getClientInfo_def)
qed (simp add: getClientInfo_identify)

section \<open>Properties\<close>

text \<open>
  C24: \<open>addClient\<close>, \<open>removeClient\<close> and \<open>updateHeartbeat\<close> keep the registry well formed:
  sorted by descriptor, each entry naming its own descriptor, identities of online clients
  present, within their wire fields and unique. \<open>setClientIdentity\<close>, which checks nothing
  itself, does so exactly when the two checks that the login makes before are the right
  ones: for a connected client, when the identity is not empty, fits its fields and
  neither \<open>isClientIdOnline\<close> nor \<open>isNicknameOnline\<close> reports it; otherwise it would break
  the invariant.
\<close>

theorem registry_operations_keep_invariant:
  assumes "registry_ok cs" and "0 \<le> fd"
  shows "registry_ok (addClient now fd ip port cs) \<and> registry_ok (removeClient g cs) \<and>
    registry_ok (updateHeartbeat now g cs) \<and>
    (registry_ok (snd (setClientIdentity g clientId nickname cs)) \<longleftrightarrow>
       \<not> hasClient g cs \<or>
       clientId \<noteq> [] \<and> nickname \<noteq> [] \<and> clip 32 clientId = clientId \<and> clip 64 nickname = nickname \<and>
       \<not> isClientIdOnline clientId g cs \<and> \<not> isNicknameOnline nickname g cs)"
  using registry_ok_addClient registry_ok_removeClient registry_ok_updateHeartbeat
    registry_ok_setClientIdentity_iff assms by (intro conjI) blast+

definition demo_registered :: clients where
  "demo_registered = addClient 0 6 [1] 81 (snd (setClientIdentity 5 [65] [65] (addClient 0 5 [1] 80 [])))"

lemma demo_registered_ok: "registry_ok demo_registered"
  unfolding demo_registered_def
  by (intro registry_ok_setClientIdentity registry_ok_addClient)
     (simp_all add: clip_id isClientIdOnline_def isNicknameOnline_def addClient_def)

theorem registry_operations_keep_invariant_witness:
  "registry_ok (snd (setClientIdentity 6 [66] [66] demo_registered)) \<and>
   \<not> registry_ok (snd (setClientIdentity 6 [66] [65] demo_registered))"
  using registry_operations_keep_invariant [OF demo_registered_ok, of 6 _ _ _ 6 "[66]" "[66]"]
    registry_operations_keep_invariant [OF demo_registered_ok, of 6 _ _ _ 6 "[66]" "[65]"]
  by (simp add: clip_id demo_registered_def addClient_def setClientIdentity_def hasClient_def
      isClientIdOnline_def isNicknameOnline_def)

text \<open>
  Looking a client up by its id finds the connection exactly when a client with that
  id is online, and -1 otherwise; the connection is the only one with that id.
\<close>

theorem lookup_by_id_exact:
  assumes "registry_ok cs" and "0 \<le> fd"
  shows "getFdByClientId clientId cs = fd \<longleftrightarrow>
    (\<exists>info. getClientInfo fd cs = Some info \<and> ci_isOnline info \<and> ci_clientId info = clientId)"
proof -
  consider (none) "getFdByClientId clientId cs = -1"
      "\<forall>fd info. map_of cs fd = Some info \<longrightarrow> ci_isOnline info \<longrightarrow> ci_clientId info \<noteq> clientId"
    | (some) g info where "getFdByClientId clientId cs = g" "0 \<le> g" "map_of cs g = Some info"
      "ci_isOnline info" "ci_clientId info = clientId"
    using getFdByClientId_cases [OF assms(1), of clientId] by blast
  then show ?thesis
  proof cases
    case none
    then show ?thesis using assms(2) by (auto simp: getClientInfo_def)
  next
    case some
    then show ?thesis
      using reg.id_unique [OF assms(1), of g info fd] by (auto simp: getClientInfo_def)
  qed
qed

theorem lookup_by_id_exact_witness:
  "getFdByClientId [65] (snd (setClientIdentity 5 [65] [66] (addClient 0 5 [1] 80 []))) = 5"
proof -
  let ?cs = "snd (setClientIdentity 5 [65] [66] (addClient 0 5 [1] 80 []))"
  have "registry_ok ?cs"
    by (intro registry_ok_setClientIdentity registry_ok_addClient)
       (simp_all add: clip_id isClientIdOnline_def isNicknameOnline_def addClient_def)
  then show ?thesis
    using lookup_by_id_exact [of ?cs 5 "[65]"]
    by (simp add: getClientInfo_def setClientIdentity_def addClient_def)
qed

text \<open>
  The online list contains every online client once, in ascending order of
  descriptors, and its length is the count that the login limit tests.
\<close>

theorem online_list_exact:
  assumes "registry_ok cs"
  shows "sorted_wrt (<) (map ci_fd (getOnlineClients cs)) \<and>
    getOnlineCount cs = length (getOnlineClients cs) \<and>
    (\<forall>info. info \<in> set (getOnlineClients cs) \<longleftrightarrow>
       ci_isOnline info \<and> getClientInfo (ci_fd info) cs = Some info)"
  using getOnlineClients_sorted [OF assms] getOnlineClients_set [OF assms]
  by (simp add: getOnlineCount_eq getClientInfo_def)

theorem online_list_exact_witness:
  "getOnlineCount (addClient 0 5 [1] 80 []) = length (getOnlineClients (addClient 0 5 [1] 80 []))"
  using online_list_exact [OF registry_ok_addClient [OF registry_ok_Nil, of 5 0 "[1]" 80]] by simp

text \<open>
  A client is reported as timed out after \<open>t\<close> seconds only when \<open>t + 1\<close> full seconds
  have passed since its last heartbeat: elapsed time is cut to whole seconds before it is
  compared.
\<close>

theorem timeout_threshold:
  assumes "registry_ok cs" and "0 \<le> t"
  shows "fd \<in> set (checkTimeout now t cs) \<longleftrightarrow>
    (\<exists>info. getClientInfo fd cs = Some info \<and> ci_lastHeartbeat info + (t + 1) * 1000000000 \<le> now)"
  using checkTimeout_iff [OF assms] by (simp add: getClientInfo_def)

theorem timeout_threshold_witness:
  "5 \<notin> set (checkTimeout 10999999999 10 (addClient 0 5 [1] 80 [])) \<and>
   5 \<in> set (checkTimeout 11000000000 10 (addClient 0 5 [1] 80 []))"
  using timeout_threshold [OF registry_ok_addClient [OF registry_ok_Nil, of 5 0 "[1]" 80], of 10 5]
  by (simp add: getClientInfo_def addClient_def)

end
