(* ===== verification/Epoll_Reactor.thy ===== *)
theory Epoll_Reactor
  imports IM_Prelude
begin

text \<open>
  \<open>EpollWrapper\<close> (\<open>server/src/epoll_wrapper.h\<close>, \<open>.cpp\<close>) and \<open>Reactor\<close>
  (\<open>server/src/reactor.h\<close>, \<open>.cpp\<close>). The kernel's answers to \<open>epoll_ctl\<close> are an
  argument; the interest table a successful call leaves in the kernel is part of the
  state, so that what the reactor believes and what the kernel reports can be compared.
\<close>

section \<open>Event masks\<close>

definition EPOLLIN :: u32 where "EPOLLIN = 0x001"
definition EPOLLOUT :: u32 where "EPOLLOUT = 0x004"
definition EPOLLERR :: u32 where "EPOLLERR = 0x008"
definition EPOLLHUP :: u32 where "EPOLLHUP = 0x010"
definition EPOLLRDHUP :: u32 where "EPOLLRDHUP = 0x2000"
definition EPOLLET :: u32 where "EPOLLET = 0x80000000"

definition EVENT_READ :: u32 where "EVENT_READ = 1"
definition EVENT_WRITE :: u32 where "EVENT_WRITE = 2"
definition EVENT_ERROR :: u32 where "EVENT_ERROR = 4"
definition EVENT_HUP :: u32 where "EVENT_HUP = 8"

lemmas epoll_mask_defs =
  EPOLLIN_def EPOLLOUT_def EPOLLERR_def EPOLLHUP_def EPOLLRDHUP_def EPOLLET_def
  EVENT_READ_def EVENT_WRITE_def EVENT_ERROR_def EVENT_HUP_def

definition kUseEdgeTriggered :: bool where "kUseEdgeTriggered = True"

definition toEpollEvents :: "u32 \<Rightarrow> u32" where
  "toEpollEvents events =
     (let ep = 0;
          ep = (if events AND EVENT_READ \<noteq> 0 then ep OR EPOLLIN OR EPOLLRDHUP else ep);
          ep = (if events AND EVENT_WRITE \<noteq> 0 then ep OR EPOLLOUT else ep);
          ep = (if events AND EVENT_ERROR \<noteq> 0 then ep OR EPOLLERR else ep);
          ep = (if events AND EVENT_HUP \<noteq> 0 then ep OR EPOLLHUP else ep)
      in if kUseEdgeTriggered then ep OR EPOLLET else ep)"

definition fromEpollEvents :: "u32 \<Rightarrow> u32" where
  "fromEpollEvents events =
     (let ev = 0;
          ev = (if events AND EPOLLIN \<noteq> 0 then ev OR EVENT_READ else ev);
          ev = (if events AND EPOLLOUT \<noteq> 0 then ev OR EVENT_WRITE else ev);
          ev = (if events AND EPOLLERR \<noteq> 0 then ev OR EVENT_ERROR else ev);
          ev = (if events AND EPOLLHUP \<noteq> 0 then ev OR EVENT_HUP else ev)
      in if events AND EPOLLRDHUP \<noteq> 0 then ev OR EVENT_HUP else ev)"

section \<open>EpollWrapper\<close>

datatype ctl_op = CTL_ADD | CTL_MOD | CTL_DEL

text \<open>
  \<open>ep_interest\<close> is the kernel's interest set; \<open>ep_stale\<close> are the descriptors whose last
  change the kernel did not make: the program ignores what \<open>modifyFd\<close> returns.
\<close>

record epoll =
  ep_fd :: int
  ep_interest :: "int \<rightharpoonup> u32"
  ep_stale :: "int set"

definition EpollWrapper :: epoll where
  "EpollWrapper = \<lparr>ep_fd = -1, ep_interest = (\<lambda>_. None), ep_stale = {}\<rparr>"

text \<open>\<open>ret\<close> is what \<open>epoll_create1(0)\<close> returns.\<close>

definition epoll_create :: "int \<Rightarrow> epoll \<Rightarrow> bool \<times> epoll" where
  "epoll_create ret ep = (0 \<le> ret, ep\<lparr>ep_fd := ret\<rparr>)"

definition addFd :: "(ctl_op \<Rightarrow> int \<Rightarrow> bool) \<Rightarrow> int \<Rightarrow> u32 \<Rightarrow> epoll \<Rightarrow> bool \<times> epoll" where
  "addFd ctl fd events ep =
     (if ep_fd ep < 0 then (False, ep)
      else if ctl CTL_ADD fd then
        (True, ep\<lparr>ep_interest := (ep_interest ep)(fd \<mapsto> events), ep_stale := ep_stale ep - {fd}\<rparr>)
      else (False, ep))"

definition modifyFd :: "(ctl_op \<Rightarrow> int \<Rightarrow> bool) \<Rightarrow> int \<Rightarrow> u32 \<Rightarrow> epoll \<Rightarrow> bool \<times> epoll" where
  "modifyFd ctl fd events ep =
     (if ep_fd ep < 0 then (False, ep\<lparr>ep_stale := insert fd (ep_stale ep)\<rparr>)
      else if ctl CTL_MOD fd then
        (True, ep\<lparr>ep_interest := (ep_interest ep)(fd \<mapsto> events), ep_stale := ep_stale ep - {fd}\<rparr>)
      else (False, ep\<lparr>ep_stale := insert fd (ep_stale ep)\<rparr>))"

definition removeFd :: "(ctl_op \<Rightarrow> int \<Rightarrow> bool) \<Rightarrow> int \<Rightarrow> epoll \<Rightarrow> bool \<times> epoll" where
  "removeFd ctl fd ep =
     (if ep_fd ep < 0 then (False, ep)
      else if ctl CTL_DEL fd then (True, ep\<lparr>ep_interest := (ep_interest ep)(fd := None)\<rparr>)
      else (False, ep))"

section \<open>Reactor\<close>

text \<open>A handler pointer is named by its object: the listening socket's or a connection's.\<close>

datatype handler = ListenHandler int | ClientHandler int

fun getHandle :: "handler \<Rightarrow> int" where
  "getHandle (ListenHandler fd) = fd"
| "getHandle (ClientHandler fd) = fd"

record HandlerEntry =
  he_handler :: handler
  he_events :: u32

record reactor =
  re_epoll :: epoll
  re_handlers :: "int \<rightharpoonup> HandlerEntry"

definition Reactor :: reactor where
  "Reactor = \<lparr>re_epoll = EpollWrapper, re_handlers = (\<lambda>_. None)\<rparr>"

definition registerHandler ::
    "(ctl_op \<Rightarrow> int \<Rightarrow> bool) \<Rightarrow> handler \<Rightarrow> u32 \<Rightarrow> reactor \<Rightarrow> bool \<times> reactor" where
  "registerHandler ctl handler events r =
     (let fd = getHandle handler in
      case re_handlers r fd of
        Some entry \<Rightarrow>
          let r = r\<lparr>re_handlers := (re_handlers r)(fd \<mapsto> \<lparr>he_handler = handler, he_events = events\<rparr>)\<rparr>;
              (ok, ep) = modifyFd ctl fd (toEpollEvents events) (re_epoll r)
          in (ok, r\<lparr>re_epoll := ep\<rparr>)
      | None \<Rightarrow>
          let (ok, ep) = addFd ctl fd (toEpollEvents events) (re_epoll r);
              r = r\<lparr>re_epoll := ep\<rparr>
          in if \<not> ok then (False, r)
             else (True, r\<lparr>re_handlers :=
                    (re_handlers r)(fd \<mapsto> \<lparr>he_handler = handler, he_events = events\<rparr>)\<rparr>))"

definition modifyHandler ::
    "(ctl_op \<Rightarrow> int \<Rightarrow> bool) \<Rightarrow> handler \<Rightarrow> u32 \<Rightarrow> reactor \<Rightarrow> bool \<times> reactor" where
  "modifyHandler ctl handler events r =
     (let fd = getHandle handler in
      case re_handlers r fd of
        None \<Rightarrow> (False, r)
      | Some entry \<Rightarrow>
          let r = r\<lparr>re_handlers := (re_handlers r)(fd \<mapsto> entry\<lparr>he_events := events\<rparr>)\<rparr>;
              (ok, ep) = modifyFd ctl fd (toEpollEvents events) (re_epoll r)
          in (ok, r\<lparr>re_epoll := ep\<rparr>))"

definition removeHandler :: "(ctl_op \<Rightarrow> int \<Rightarrow> bool) \<Rightarrow> int \<Rightarrow> reactor \<Rightarrow> reactor" where
  "removeHandler ctl fd r =
     (case re_handlers r fd of
        None \<Rightarrow> r
      | Some entry \<Rightarrow>
          let (ok, ep) = removeFd ctl fd (re_epoll r)
          in r\<lparr>re_epoll := ep, re_handlers := (re_handlers r)(fd := None)\<rparr>)"

text \<open>Closing a descriptor takes it out of the kernel's interest set.\<close>

definition kernel_closes :: "int \<Rightarrow> reactor \<Rightarrow> reactor" where
  "kernel_closes fd r =
     r\<lparr>re_epoll := (re_epoll r)\<lparr>ep_interest := (ep_interest (re_epoll r))(fd := None)\<rparr>\<rparr>"

definition findHandler :: "int \<Rightarrow> reactor \<Rightarrow> handler option" where
  "findHandler fd r = map_option he_handler (re_handlers r fd)"

section \<open>Dispatching the events of one \<open>poll\<close>\<close>

text \<open>
  One iteration of the \<open>for\<close> loop in \<open>Reactor::poll\<close>. The handlers' methods act on the
  state of the program, of which \<open>reactor_of\<close> is the reactor: a handler may remove
  itself while it reads, so the code looks it up again before it writes.
\<close>

definition dispatch_event ::
    "('s \<Rightarrow> reactor) \<Rightarrow> (handler \<Rightarrow> 's \<Rightarrow> 's) \<Rightarrow> (handler \<Rightarrow> 's \<Rightarrow> 's) \<Rightarrow> (handler \<Rightarrow> u32 \<Rightarrow> 's \<Rightarrow> 's) \<Rightarrow>
     int \<times> u32 \<Rightarrow> 's \<Rightarrow> 's" where
  "dispatch_event reactor_of handleRead handleWrite handleError event s =
     (let (fd, events) = event;
          ev = fromEpollEvents events in
      case findHandler fd (reactor_of s) of
        None \<Rightarrow> s
      | Some handler \<Rightarrow>
          if ev AND (EVENT_ERROR OR EVENT_HUP) \<noteq> 0 then handleError handler ev s
          else
            let s = (if ev AND EVENT_READ \<noteq> 0 then handleRead handler s else s) in
            if ev AND EVENT_WRITE \<noteq> 0 then
              (case findHandler fd (reactor_of s) of
                 None \<Rightarrow> s
               | Some afterRead \<Rightarrow> handleWrite afterRead s)
            else s)"

text \<open>
  \<open>Reactor::poll\<close>: what \<open>epoll_wait\<close> returns, call after call. An interrupted wait is
  retried; the result is the code's return value.
\<close>

datatype wait_result = WaitIntr | WaitError | WaitReady "(int \<times> u32) list"

fun reactor_poll ::
    "('s \<Rightarrow> reactor) \<Rightarrow> (handler \<Rightarrow> 's \<Rightarrow> 's) \<Rightarrow> (handler \<Rightarrow> 's \<Rightarrow> 's) \<Rightarrow> (handler \<Rightarrow> u32 \<Rightarrow> 's \<Rightarrow> 's) \<Rightarrow>
     wait_result list \<Rightarrow> 's \<Rightarrow> int \<times> 's" where
  "reactor_poll ro hr hw he [] s = (0, s)"
| "reactor_poll ro hr hw he (WaitIntr # ws) s = reactor_poll ro hr hw he ws s"
| "reactor_poll ro hr hw he (WaitError # ws) s = (-1, s)"
| "reactor_poll ro hr hw he (WaitReady events # ws) s =
     (int (length events), fold (dispatch_event ro hr hw he) events s)"

section \<open>Facts\<close>

text \<open>The reactor asks for exactly what was asked of it, plus peer shutdown with reads.\<close>

lemma toEpollEvents_simps [simp]:
  "toEpollEvents EVENT_READ = EPOLLIN OR EPOLLRDHUP OR EPOLLET"
  "toEpollEvents (EVENT_READ OR EVENT_WRITE) = EPOLLIN OR EPOLLRDHUP OR EPOLLOUT OR EPOLLET"
  by (simp_all add: toEpollEvents_def kUseEdgeTriggered_def epoll_mask_defs)

definition wants_write :: "reactor \<Rightarrow> int \<Rightarrow> bool" where
  "wants_write r fd \<longleftrightarrow> (\<exists>entry. re_handlers r fd = Some entry \<and> he_events entry AND EVENT_WRITE \<noteq> 0)"

lemma modifyHandler_handlers:
  "re_handlers (snd (modifyHandler ctl h events r)) =
     (case re_handlers r (getHandle h) of
        None \<Rightarrow> re_handlers r
      | Some entry \<Rightarrow> (re_handlers r)(getHandle h \<mapsto> entry\<lparr>he_events := events\<rparr>))"
  by (auto simp: modifyHandler_def Let_def split: option.split prod.split)

lemma modifyHandler_find [simp]:
  "findHandler fd (snd (modifyHandler ctl h events r)) = findHandler fd r"
  by (auto simp: findHandler_def modifyHandler_handlers split: option.split)

text \<open>The epoll instance itself stays the one that \<open>init\<close> created.\<close>

lemma ep_fd_simps [simp]:
  "ep_fd (snd (addFd ctl fd events ep)) = ep_fd ep"
  "ep_fd (snd (modifyFd ctl fd events ep)) = ep_fd ep"
  "ep_fd (snd (removeFd ctl fd ep)) = ep_fd ep"
  by (simp_all add: addFd_def modifyFd_def removeFd_def)

lemma kernel_closes_simps [simp]:
  "re_handlers (kernel_closes fd r) = re_handlers r"
  "ep_fd (re_epoll (kernel_closes fd r)) = ep_fd (re_epoll r)"
  "findHandler g (kernel_closes fd r) = findHandler g r"
  by (simp_all add: kernel_closes_def findHandler_def)

lemma reactor_ep_fd [simp]:
  "ep_fd (re_epoll (snd (registerHandler ctl h events r))) = ep_fd (re_epoll r)"
  "ep_fd (re_epoll (snd (modifyHandler ctl h events r))) = ep_fd (re_epoll r)"
  "ep_fd (re_epoll (removeHandler ctl fd r)) = ep_fd (re_epoll r)"
  by (simp_all add: registerHandler_def modifyHandler_def removeHandler_def Let_def case_prod_beta'
      split: option.split)

lemma registerHandler_ep_fd:
  "registerHandler ctl h events r = (ok, r') \<Longrightarrow> ep_fd (re_epoll r') = ep_fd (re_epoll r)"
  by (metis reactor_ep_fd(1) snd_conv)

lemma removeHandler_handlers [simp]:
  "re_handlers (removeHandler ctl fd r) = (re_handlers r)(fd := None)"
  by (auto simp: removeHandler_def Let_def fun_eq_iff split: option.split prod.split)

lemma removeHandler_find [simp]:
  "findHandler fd' (removeHandler ctl fd r) = (if fd' = fd then None else findHandler fd' r)"
  by (simp add: findHandler_def)

lemma registerHandler_find:
  "fst (registerHandler ctl h events r) \<Longrightarrow>
   findHandler fd' (snd (registerHandler ctl h events r)) =
     (if fd' = getHandle h then Some h else findHandler fd' r)"
  by (auto simp: findHandler_def registerHandler_def Let_def split: option.splits prod.splits if_splits)

lemma registerHandler_fails:
  "re_handlers r (getHandle h) = None \<Longrightarrow> \<not> fst (registerHandler ctl h events r) \<Longrightarrow>
   re_handlers (snd (registerHandler ctl h events r)) = re_handlers r"
  by (auto simp: registerHandler_def Let_def split: prod.splits if_splits)

section \<open>What the kernel watches\<close>

text \<open>
  The kernel watches the descriptors that have a handler and no others, each of them for
  reading and for the peer's shutdown, and with the mask of the handler's entry unless the
  kernel refused the last change.
\<close>

definition watches :: "u32 \<Rightarrow> bool" where
  "watches m \<longleftrightarrow> m AND EPOLLIN \<noteq> 0 \<and> m AND EPOLLRDHUP \<noteq> 0"

definition entry_watched :: "reactor \<Rightarrow> int \<Rightarrow> bool" where
  "entry_watched r fd \<longleftrightarrow>
     (case re_handlers r fd of
        None \<Rightarrow> ep_interest (re_epoll r) fd = None
      | Some en \<Rightarrow> (\<exists>m. ep_interest (re_epoll r) fd = Some m \<and> watches m \<and>
          (fd \<notin> ep_stale (re_epoll r) \<longrightarrow> m = toEpollEvents (he_events en))))"

definition watched :: "reactor \<Rightarrow> bool" where
  "watched r \<longleftrightarrow> (\<forall>fd. entry_watched r fd)"

lemma watchedD:
  assumes "watched r"
  shows "ep_interest (re_epoll r) fd = None \<longleftrightarrow> re_handlers r fd = None"
    and "re_handlers r fd = Some en \<Longrightarrow> \<exists>m. ep_interest (re_epoll r) fd = Some m \<and> watches m \<and>
      (fd \<notin> ep_stale (re_epoll r) \<longrightarrow> m = toEpollEvents (he_events en))"
  using assms unfolding watched_def
  by (auto dest!: spec [of _ fd] simp: entry_watched_def split: option.splits)

lemma watches_iff: "watches (toEpollEvents events) \<longleftrightarrow> events AND EVENT_READ \<noteq> 0"
proof (cases "events AND EVENT_READ = 0")
  case True
  have "toEpollEvents events AND EPOLLIN = 0"
    using True by (auto simp: toEpollEvents_def Let_def kUseEdgeTriggered_def epoll_mask_defs bit.conj_disj_distrib2)
  then show ?thesis using True by (simp add: watches_def)
next
  case False
  then have "toEpollEvents events AND EPOLLIN = EPOLLIN" "toEpollEvents events AND EPOLLRDHUP = EPOLLRDHUP"
    by (auto simp: toEpollEvents_def Let_def kUseEdgeTriggered_def epoll_mask_defs bit.conj_disj_distrib2)
  then show ?thesis using False by (simp add: watches_def epoll_mask_defs)
qed

lemma watched_Reactor:
  "re_handlers r = (\<lambda>_. None) \<Longrightarrow> ep_interest (re_epoll r) = (\<lambda>_. None) \<Longrightarrow> watched r"
  by (simp add: watched_def entry_watched_def)

lemma watched_modify:
  assumes "watched r" and "events AND EVENT_READ \<noteq> 0"
  shows "watched (snd (modifyHandler ctl h events r))"
proof -
  have "entry_watched (snd (modifyHandler ctl h events r)) fd" if "entry_watched r fd" for fd
    using that assms(2)
    by (cases "re_handlers r (getHandle h)")
      (auto simp: entry_watched_def modifyHandler_def modifyFd_def Let_def watches_iff
        split: if_splits option.splits)
  then show ?thesis using assms(1) by (simp add: watched_def)
qed

lemma watched_register:
  assumes "watched r" and "events AND EVENT_READ \<noteq> 0"
  shows "watched (snd (registerHandler ctl h events r))"
proof -
  have "entry_watched (snd (registerHandler ctl h events r)) fd" if "entry_watched r fd" for fd
    using that assms(2)
    by (cases "re_handlers r (getHandle h)")
      (auto simp: entry_watched_def registerHandler_def addFd_def modifyFd_def Let_def watches_iff
        split: if_splits option.splits)
  then show ?thesis using assms(1) by (simp add: watched_def)
qed

text \<open>A handler is removed and its descriptor closed.\<close>

lemma watched_remove:
  assumes "watched r"
  shows "watched (kernel_closes fd (removeHandler ctl fd r))"
proof -
  have "entry_watched (kernel_closes fd (removeHandler ctl fd r)) g" if "entry_watched r g" for g
    using that
    by (cases "re_handlers r fd")
      (auto simp: entry_watched_def removeHandler_def removeFd_def kernel_closes_def Let_def
        split: if_splits option.splits)
  then show ?thesis using assms by (simp add: watched_def)
qed

lemma watched_closes:
  assumes "watched r" and "re_handlers r fd = None"
  shows "watched (kernel_closes fd r)"
  using watched_remove [OF assms(1), of fd] assms(2) by (simp add: removeHandler_def)

section \<open>Dispatching\<close>

text \<open>An interrupted wait changes nothing, and the dispatch goes through the events in order.\<close>

lemma reactor_poll_intr:
  "reactor_poll ro hr hw he (replicate n WaitIntr @ ws) s = reactor_poll ro hr hw he ws s"
  by (induction n) simp_all

lemma dispatch_unregistered:
  "findHandler fd (ro s) = None \<Longrightarrow> dispatch_event ro hr hw he (fd, events) s = s"
  by (simp add: dispatch_event_def Let_def)

text \<open>
  Peer shutdown arrives as \<open>EPOLLRDHUP\<close> and is taken for an error: the handler is not asked
  to read, whatever is readable.
\<close>

lemma fromEpollEvents_rdhup:
  "events AND EPOLLRDHUP \<noteq> 0 \<Longrightarrow> fromEpollEvents events AND (EVENT_ERROR OR EVENT_HUP) \<noteq> 0"
  by (auto simp: fromEpollEvents_def Let_def epoll_mask_defs)

lemma dispatch_rdhup:
  "findHandler fd (ro s) = Some h \<Longrightarrow> events AND EPOLLRDHUP \<noteq> 0 \<Longrightarrow>
   dispatch_event ro hr hw he (fd, events) s = he h (fromEpollEvents events) s"
  using fromEpollEvents_rdhup [of events] by (simp add: dispatch_event_def Let_def)

text \<open>A general preservation rule for a whole poll.\<close>

lemma dispatch_event_invariant:
  assumes "\<And>fd h s. findHandler fd (ro s) = Some h \<Longrightarrow> I s \<Longrightarrow> I (hr h s)"
    and "\<And>fd h s. findHandler fd (ro s) = Some h \<Longrightarrow> I s \<Longrightarrow> I (hw h s)"
    and "\<And>fd h ev s. findHandler fd (ro s) = Some h \<Longrightarrow> I s \<Longrightarrow> I (he h ev s)"
    and "I s"
  shows "I (dispatch_event ro hr hw he event s)"
  using assms by (auto simp: dispatch_event_def Let_def split: prod.split option.split)

lemma reactor_poll_invariant:
  assumes "\<And>fd h s. findHandler fd (ro s) = Some h \<Longrightarrow> I s \<Longrightarrow> I (hr h s)"
    and "\<And>fd h s. findHandler fd (ro s) = Some h \<Longrightarrow> I s \<Longrightarrow> I (hw h s)"
    and "\<And>fd h ev s. findHandler fd (ro s) = Some h \<Longrightarrow> I s \<Longrightarrow> I (he h ev s)"
    and "I s"
  shows "I (snd (reactor_poll ro hr hw he ws s))"
  using assms(4)
proof (induction ws arbitrary: s)
  case (Cons w ws)
  have step: "I (dispatch_event ro hr hw he event s)" if "I s" for event s
    using assms(1-3) that by (rule dispatch_event_invariant [where I = I and ro = ro])
  have "I (fold (dispatch_event ro hr hw he) events s)" if "I s" for events s
    using that by (induction events arbitrary: s) (simp_all add: step)
  then show ?case using Cons by (cases w) simp_all
qed simp

section \<open>Properties\<close>

text \<open>
  What is registered for reading comes back as readable and also, through
  \<open>EPOLLRDHUP\<close>, as hang-up when the peer shuts down; the other event classes come back
  as they were registered, and nothing else does.
\<close>

theorem event_mask_roundtrip:
  "fromEpollEvents (toEpollEvents events) =
     (events AND 15) OR (if events AND EVENT_READ \<noteq> 0 then EVENT_HUP else 0)"
proof -
  have bits: "events AND 15 = (events AND 1) OR (events AND 2) OR (events AND 4) OR (events AND 8)"
    by (simp add: bit.conj_disj_distrib [symmetric])
  have one: "events AND 2 ^ k = (if bit events k then 2 ^ k else 0)" for k
    by (auto intro!: bit_word_eqI simp: bit_simps)
  note b = one [of 0, simplified] one [of 1, simplified] one [of 2, simplified] one [of 3, simplified]
  show ?thesis
    unfolding bits
    by (cases "bit events 0"; cases "bit events 1"; cases "bit events 2"; cases "bit events 3")
       (simp_all add: b toEpollEvents_def fromEpollEvents_def kUseEdgeTriggered_def Let_def epoll_mask_defs)
qed

text \<open>
  C40: when the peer has shut down its side (\<open>EPOLLRDHUP\<close>), the dispatcher calls the
  handler's error method only: data that is readable on the socket is not read.
\<close>

theorem peer_shutdown_skips_read:
  assumes "findHandler fd (ro s) = Some h" and "events AND EPOLLRDHUP \<noteq> 0"
  shows "dispatch_event ro hr hw he (fd, events) s = he h (fromEpollEvents events) s"
  using assms by (rule dispatch_rdhup)

theorem peer_shutdown_skips_read_witness:
  "dispatch_event (\<lambda>s. Reactor\<lparr>re_handlers := [5 \<mapsto> \<lparr>he_handler = ClientHandler 5, he_events = 1\<rparr>]\<rparr>)
     (\<lambda>h s. ''read'' # s) (\<lambda>h s. ''write'' # s) (\<lambda>h ev s. ''error'' # s)
     (5, EPOLLIN OR EPOLLRDHUP) [] = [''error'']"
  using peer_shutdown_skips_read [of 5
      "\<lambda>s. Reactor\<lparr>re_handlers := [5 \<mapsto> \<lparr>he_handler = ClientHandler 5, he_events = 1\<rparr>]\<rparr>" "[]"
      "ClientHandler 5" "EPOLLIN OR EPOLLRDHUP" "\<lambda>h s. ''read'' # s" "\<lambda>h s. ''write'' # s"
      "\<lambda>h ev s. ''error'' # s"]
  by (simp add: findHandler_def epoll_mask_defs)

text \<open>
  The dispatcher never calls a handler that is not registered at that moment: neither
  one removed before its event's turn, nor one that its own read has removed.
\<close>

theorem removed_handler_not_called:
  assumes "findHandler fd (ro s) = None \<or>
      (findHandler fd (ro s) = Some h \<and> findHandler fd (ro (hr h s)) = None \<and>
       fromEpollEvents events AND (EVENT_ERROR OR EVENT_HUP) = 0 \<and>
       fromEpollEvents events AND EVENT_READ \<noteq> 0)"
  shows "dispatch_event ro hr hw he (fd, events) s =
    (if findHandler fd (ro s) = None then s else hr h s)"
  using assms by (auto simp: dispatch_event_def Let_def)

theorem removed_handler_not_called_witness:
  "dispatch_event (\<lambda>s. if s = [] then Reactor\<lparr>re_handlers := [5 \<mapsto> \<lparr>he_handler = ClientHandler 5, he_events = 1\<rparr>]\<rparr>
       else Reactor) (\<lambda>h s. ''read'' # s) (\<lambda>h s. ''write'' # s) (\<lambda>h ev s. ''error'' # s)
     (5, EPOLLIN OR EPOLLOUT) [] = [''read'']"
  using removed_handler_not_called [of 5 "\<lambda>s. if s = [] then
        Reactor\<lparr>re_handlers := [5 \<mapsto> \<lparr>he_handler = ClientHandler 5, he_events = 1\<rparr>]\<rparr> else Reactor" "[]"
      "ClientHandler 5" "\<lambda>h s. ''read'' # s" "EPOLLIN OR EPOLLOUT" "\<lambda>h s. ''write'' # s"
      "\<lambda>h ev s. ''error'' # s"]
  by (simp add: findHandler_def Reactor_def epoll_mask_defs fromEpollEvents_def Let_def)

end
