(* ===== verification/Connection.thy ===== *)
theory Connection
  imports IM_Prelude
begin

text \<open>
  The output side of \<open>ClientHandler\<close> (\<open>server/src/server.cpp\<close>): a buffer of bytes that
  the socket has not taken yet, and the two loops around \<open>send\<close>. The kernel's answers
  to the calls are a list, consumed one per call; the end of the list reads as
  \<open>EAGAIN\<close>. The calls a loop makes into the server (\<open>requestClose\<close>,
  \<open>modifyHandler\<close>) are made by its caller in \<open>Server_Core\<close>.
\<close>

section \<open>State\<close>

record conn =
  co_closing :: bool
  co_outbuf :: bytes
  co_outOffset :: nat

definition new_ClientHandler :: conn where
  "new_ClientHandler = \<lparr>co_closing = False, co_outbuf = [], co_outOffset = 0\<rparr>"

definition pending :: "conn \<Rightarrow> nat" where
  "pending c = length (co_outbuf c) - co_outOffset c"

text \<open>One answer of \<open>send\<close>: a count, 0, or -1 with the value of \<open>errno\<close>.\<close>

datatype send_result = Sent nat | SendZero | SendIntr | SendAgain | SendError

text \<open>A positive count is at least 1 and at most what was offered.\<close>

definition accepted :: "nat \<Rightarrow> nat \<Rightarrow> nat" where
  "accepted n offered = min (max 1 n) offered"

definition kWriteTrimThreshold :: nat where "kWriteTrimThreshold = 4096"

section \<open>Operations\<close>

definition appendOut :: "bytes \<Rightarrow> conn \<Rightarrow> conn" where
  "appendOut data c =
     (if data = [] then c
      else
        let c = (if pending c = 0 then c\<lparr>co_outbuf := [], co_outOffset := 0\<rparr> else c)
        in c\<lparr>co_outbuf := co_outbuf c @ data\<rparr>)"

text \<open>
  The loop of \<open>queueSend\<close>. \<open>Finished\<close>: the loop ended or was left by \<open>break\<close>;
  \<open>CloseRequested\<close>: the connection has to be closed. The number is \<open>offset\<close>.
\<close>

datatype send_exit = Finished | CloseRequested

fun send_loop :: "send_result list \<Rightarrow> bytes \<Rightarrow> nat \<Rightarrow> send_exit \<times> nat \<times> send_result list" where
  "send_loop [] data off = (Finished, off, [])"
| "send_loop (r # rs) data off =
     (if off < length data then
        (case r of
           Sent n \<Rightarrow> send_loop rs data (off + accepted n (length data - off))
         | SendZero \<Rightarrow> (CloseRequested, off, rs)
         | SendIntr \<Rightarrow> send_loop rs data off
         | SendAgain \<Rightarrow> (Finished, off, rs)
         | SendError \<Rightarrow> (CloseRequested, off, rs))
      else (Finished, off, r # rs))"

text \<open>What \<open>flushOut\<close> does to its buffer when \<open>send\<close> took \<open>k\<close> bytes.\<close>

definition advance :: "nat \<Rightarrow> conn \<Rightarrow> conn" where
  "advance k c =
     (let c = c\<lparr>co_outOffset := co_outOffset c + k\<rparr> in
      if pending c = 0 then c\<lparr>co_outbuf := [], co_outOffset := 0\<rparr>
      else if co_outOffset c \<ge> kWriteTrimThreshold then
        c\<lparr>co_outbuf := drop (co_outOffset c) (co_outbuf c), co_outOffset := 0\<rparr>
      else c)"

text \<open>\<open>flushOut\<close>; \<open>w\<close> collects the bytes the socket took.\<close>

fun flushOut ::
    "send_result list \<Rightarrow> conn \<Rightarrow> bytes \<Rightarrow> send_exit \<times> conn \<times> bytes \<times> send_result list" where
  "flushOut [] c w = (Finished, c, w, [])"
| "flushOut (r # rs) c w =
     (if pending c > 0 then
        (case r of
           Sent n \<Rightarrow>
             let k = accepted n (pending c) in
             flushOut rs (advance k c) (w @ take k (drop (co_outOffset c) (co_outbuf c)))
         | SendZero \<Rightarrow> (CloseRequested, c, w, rs)
         | SendIntr \<Rightarrow> flushOut rs c w
         | SendAgain \<Rightarrow> (Finished, c, w, rs)
         | SendError \<Rightarrow> (CloseRequested, c, w, rs))
      else (Finished, c, w, r # rs))"

section \<open>The queue the buffer stands for\<close>

definition unsent :: "conn \<Rightarrow> bytes" where
  "unsent c = drop (co_outOffset c) (co_outbuf c)"

text \<open>
  The offset stays inside the buffer and below the trimming threshold, and an empty
  queue has an empty buffer: what is kept beyond the queue is less than 4096 bytes.
\<close>

definition conn_ok :: "conn \<Rightarrow> bool" where
  "conn_ok c \<longleftrightarrow> co_outOffset c \<le> length (co_outbuf c) \<and> co_outOffset c < kWriteTrimThreshold \<and>
     (pending c = 0 \<longrightarrow> co_outbuf c = [] \<and> co_outOffset c = 0)"

lemma conn_ok_new [simp]: "conn_ok new_ClientHandler"
  by (simp add: conn_ok_def new_ClientHandler_def kWriteTrimThreshold_def)

lemma new_ClientHandler_simps [simp]:
  "co_closing new_ClientHandler = False" "unsent new_ClientHandler = []"
  "pending new_ClientHandler = 0"
  by (simp_all add: new_ClientHandler_def unsent_def pending_def)

lemma length_unsent: "length (unsent c) = pending c"
  by (simp add: unsent_def pending_def)

lemma pending_0_iff: "pending c = 0 \<longleftrightarrow> unsent c = []"
  by (simp add: unsent_def pending_def)

lemma conn_closing_simps [simp]:
  "pending (c\<lparr>co_closing := b\<rparr>) = pending c"
  "unsent (c\<lparr>co_closing := b\<rparr>) = unsent c"
  "conn_ok (c\<lparr>co_closing := b\<rparr>) = conn_ok c"
  by (simp_all add: pending_def unsent_def conn_ok_def)

lemma accepted_bounds:
  "0 < offered \<Longrightarrow> 1 \<le> accepted n offered"
  "0 < offered \<Longrightarrow> accepted n offered \<le> offered"
  by (simp_all add: accepted_def)

text \<open>Appending puts the data at the end of the queue.\<close>

lemma appendOut_closing [simp]: "co_closing (appendOut data c) = co_closing c"
  by (simp add: appendOut_def Let_def)

lemma appendOut_ok:
  assumes "conn_ok c"
  shows "conn_ok (appendOut data c)" and "unsent (appendOut data c) = unsent c @ data"
  using assms by (auto simp: conn_ok_def appendOut_def unsent_def pending_def Let_def
      kWriteTrimThreshold_def)

text \<open>The loop of \<open>queueSend\<close> sends a front part of the data; if it sends all, it says so.\<close>

lemma send_loop_bounds:
  "off \<le> length data \<Longrightarrow>
   (case send_loop rs data off of (ex, off', rs') \<Rightarrow> off \<le> off' \<and> off' \<le> length data)"
proof (induction rs data off rule: send_loop.induct)
  case (2 r rs data off)
  show ?case
  proof (cases "off < length data")
    case True
    then have "accepted n (length data - off) \<le> length data - off" for n
      by (intro accepted_bounds) simp
    then have le: "off + accepted n (length data - off) \<le> length data" for n
      using "2.prems" by (metis Nat.le_diff_conv2 add.commute)
    show ?thesis
    proof (cases r)
      case (Sent n)
      then show ?thesis using True "2.IH"(1) [OF True Sent le] by (auto split: prod.splits)
    next
      case SendIntr
      then show ?thesis using True "2.IH"(2) [OF True SendIntr "2.prems"] by simp
    qed (use True in auto)
  qed (use "2.prems" in auto)
qed simp

lemma send_loop_progress:
  "length data - off \<le> length (filter (\<lambda>r. r \<noteq> SendIntr) rs) \<Longrightarrow> off \<le> length data \<Longrightarrow>
   \<forall>r \<in> set rs. r = SendIntr \<or> (\<exists>n. r = Sent n) \<Longrightarrow>
   \<exists>rs'. send_loop rs data off = (Finished, length data, rs')"
proof (induction rs data off rule: send_loop.induct)
  case (2 r rs data off)
  show ?case
  proof (cases "off < length data")
    case True
    consider n where "r = Sent n" | "r = SendIntr" using "2.prems"(3) by auto
    then show ?thesis
    proof cases
      case (1 n)
      have "length data - (off + accepted n (length data - off))
          \<le> length (filter (\<lambda>r. r \<noteq> SendIntr) rs)"
        and "off + accepted n (length data - off) \<le> length data"
        using accepted_bounds [of "length data - off" n] True "2.prems"(1) 1 by auto
      then show ?thesis using True 1 "2.IH"(1) [OF True 1] "2.prems"(3) by simp
    next
      case 2
      then show ?thesis using True "2.IH"(2) "2.prems" by simp
    qed
  qed (use "2.prems" in simp)
qed simp

text \<open>Flushing moves bytes from the front of the queue to the socket, in order.\<close>

lemma advance_ok:
  assumes "conn_ok c" and "k \<le> pending c"
  shows "conn_ok (advance k c)" and "unsent (advance k c) = drop k (unsent c)"
    and "co_closing (advance k c) = co_closing c"
  using assms by (auto simp: advance_def conn_ok_def pending_def unsent_def Let_def
      kWriteTrimThreshold_def add.commute)

lemma flushOut_ok:
  "flushOut rs c w = (ex, c', w', rs') \<Longrightarrow> conn_ok c \<Longrightarrow>
   conn_ok c' \<and> co_closing c' = co_closing c \<and> w' @ unsent c' = w @ unsent c"
proof (induction rs c w rule: flushOut.induct)
  case (2 r rs c w)
  show ?case
  proof (cases "pending c > 0")
    case pend: True
    show ?thesis
    proof (cases r)
      case (Sent n)
      let ?k = "accepted n (pending c)"
      have adv: "conn_ok (advance ?k c)" "unsent (advance ?k c) = drop ?k (unsent c)"
        "co_closing (advance ?k c) = co_closing c"
        using advance_ok [OF "2.prems"(2)] accepted_bounds(2) [OF pend] by blast+
      have run: "flushOut rs (advance ?k c) (w @ take ?k (unsent c)) = (ex, c', w', rs')"
        using "2.prems"(1) pend Sent by (simp add: unsent_def Let_def)
      show ?thesis
        using "2.IH"(1) [OF pend Sent refl, folded unsent_def] run adv by simp
    qed (use 2 pend in auto)
  qed (use "2.prems" in auto)
qed simp

section \<open>The output queue as the server relies on it\<close>

text \<open>
  The contract of the buffer: what is appended comes after what waits, and draining
  moves a front part of the waiting bytes out. Whatever the order of the two, bytes
  leave in the order in which they came, none lost and none repeated.
\<close>

datatype 'k queue_act = Put bytes | Drain 'k

definition puts :: "'k queue_act list \<Rightarrow> bytes" where
  "puts as = concat (map (\<lambda>a. case a of Put d \<Rightarrow> d | Drain k \<Rightarrow> []) as)"

locale output_queue =
  fixes waiting :: "'c \<Rightarrow> bytes"
    and put :: "bytes \<Rightarrow> 'c \<Rightarrow> 'c"
    and drain :: "'k \<Rightarrow> 'c \<Rightarrow> bytes \<times> 'c"
    and ok :: "'c \<Rightarrow> bool"
  assumes put_ok: "ok c \<Longrightarrow> ok (put d c)"
    and put_waiting: "ok c \<Longrightarrow> waiting (put d c) = waiting c @ d"
    and drain_ok: "ok c \<Longrightarrow> ok (snd (drain k c))"
    and drain_waiting: "ok c \<Longrightarrow> fst (drain k c) @ waiting (snd (drain k c)) = waiting c"
begin

lemma fifo:
  "ok c \<Longrightarrow>
   (case fold (\<lambda>a (w, c). case a of Put d \<Rightarrow> (w, put d c)
        | Drain k \<Rightarrow> (w @ fst (drain k c), snd (drain k c))) as (w, c) of
      (w', c') \<Rightarrow> ok c' \<and> w' @ waiting c' = w @ waiting c @ puts as)"
proof (induction as arbitrary: w c)
  case (Cons a as)
  show ?case
  proof (cases a)
    case (Put d)
    show ?thesis
      using Cons.IH [OF put_ok [OF Cons.prems], of w d] Cons.prems
      by (simp add: Put put_waiting puts_def split: prod.splits)
  next
    case (Drain k)
    show ?thesis
      using Cons.IH [OF drain_ok [OF Cons.prems], of "w @ fst (drain k c)" k]
        drain_waiting [OF Cons.prems, of k, symmetric]
      by (simp add: Drain puts_def split: prod.splits)
  qed
qed (simp add: puts_def)

end

definition drain_conn :: "send_result list \<Rightarrow> conn \<Rightarrow> bytes \<times> conn" where
  "drain_conn rs c = (case flushOut rs c [] of (ex, c', w, rs') \<Rightarrow> (w, c'))"

interpretation outq: output_queue unsent appendOut drain_conn conn_ok
proof unfold_locales
  fix c :: conn and rs
  assume ok: "conn_ok c"
  obtain ex c' w rs' where f: "flushOut rs c [] = (ex, c', w, rs')" by (metis prod_cases4)
  show "conn_ok (snd (drain_conn rs c))"
    and "fst (drain_conn rs c) @ unsent (snd (drain_conn rs c)) = unsent c"
    using flushOut_ok [OF f ok] by (simp_all add: drain_conn_def f)
qed (simp_all add: appendOut_ok)

section \<open>Properties\<close>

text \<open>
  C6: in whatever order data is queued and the socket drained, and however the kernel
  cuts the transfers, the bytes handed to the socket followed by those still waiting are
  the queued data in order: none lost, none repeated, none overtaking.
\<close>

theorem output_fifo:
  assumes "conn_ok c"
  shows "case fold (\<lambda>a (w, c). case a of Put d \<Rightarrow> (w, appendOut d c)
       | Drain k \<Rightarrow> (w @ fst (drain_conn k c), snd (drain_conn k c))) as ([], c) of
     (w', c') \<Rightarrow> conn_ok c' \<and> w' @ unsent c' = unsent c @ puts as"
  using outq.fifo [OF assms, of "[]" as] by simp

theorem output_fifo_witness:
  "case fold (\<lambda>a (w, c). case a of Put d \<Rightarrow> (w, appendOut d c)
       | Drain k \<Rightarrow> (w @ fst (drain_conn k c), snd (drain_conn k c)))
       [Put [1, 2, 3], Drain [Sent 2], Put [4]] ([], new_ClientHandler) of
     (w', c') \<Rightarrow> conn_ok c' \<and> w' @ unsent c' = [1, 2, 3, 4]"
  using output_fifo [OF conn_ok_new, of "[Put [1, 2, 3], Drain [Sent 2], Put [4]]"]
  by (simp add: puts_def)

text \<open>
  The send loop of \<open>queueSend\<close> ends with all the data sent when the kernel takes at
  least one byte per call, interrupted calls not counted.
\<close>

theorem send_loop_completes:
  assumes "length data \<le> length (filter (\<lambda>r. r \<noteq> SendIntr) rs)"
    and "\<forall>r \<in> set rs. r = SendIntr \<or> (\<exists>n. r = Sent n)"
  shows "\<exists>rs'. send_loop rs data 0 = (Finished, length data, rs')"
  using send_loop_progress [of data 0 rs] assms by simp

theorem send_loop_completes_witness:
  "\<exists>rs'. send_loop [Sent 1, SendIntr, Sent 9] [7, 8] 0 = (Finished, 2, rs')"
  using send_loop_completes [of "[7, 8]" "[Sent 1, SendIntr, Sent 9]"] by (simp add: numeral_2_eq_2)

text \<open>
  The buffer never keeps 4096 or more bytes that are already sent: after queueing or
  flushing it exceeds the bytes still waiting by less than the trimming threshold.
\<close>

theorem outbuf_overhead:
  assumes "conn_ok c"
  shows "length (co_outbuf (appendOut d c)) < length (unsent c) + length d + 4096 \<and>
    length (co_outbuf (snd (drain_conn rs c))) < length (unsent (snd (drain_conn rs c))) + 4096"
proof -
  have over: "length (co_outbuf k) < length (unsent k) + 4096" if "conn_ok k" for k
    using that by (auto simp: conn_ok_def unsent_def kWriteTrimThreshold_def)
  show ?thesis
    using over [OF appendOut_ok(1) [OF assms, of d]] appendOut_ok(2) [OF assms, of d]
      over [OF outq.drain_ok [OF assms, of rs]] by simp
qed

theorem outbuf_overhead_witness:
  "length (co_outbuf (appendOut [1, 2] new_ClientHandler)) < 4098 \<and>
   length (co_outbuf (snd (drain_conn [] new_ClientHandler))) <
     length (unsent (snd (drain_conn [] new_ClientHandler))) + 4096"
  using outbuf_overhead [OF conn_ok_new, of "[1, 2]" "[]"] by simp

end
