(* ===== verification/Server_Core.thy ===== *)
theory Server_Core
  imports Server_Protocol Client_Manager Epoll_Reactor Connection
begin

text \<open>
  The state of \<open>Server\<close> (\<open>server/src/server.h\<close>) together with the kernel's side of its
  sockets, and the operations the message handlers are built from: the calls that send
  (\<open>queueSend\<close>, \<open>sendResponse\<close>, \<open>sendUserList\<close>, \<open>broadcastUserList\<close>), those that close
  (\<open>requestClose\<close>, \<open>queueDisconnect\<close>, \<open>handleClientDisconnect\<close>,
  \<open>processPendingDisconnects\<close>, \<open>cleanupAllClients\<close>) and \<open>registerClient\<close>.
\<close>

section \<open>State\<close>

text \<open>
  The environment: the answers the kernel will give, the clocks, the open descriptors,
  and, for each connection, the bytes its socket has taken so far (\<open>os_wire\<close>). The
  answers of \<open>epoll_ctl\<close> may differ from call to call: they are indexed by a counter.
\<close>

datatype recv_result = Received bytes | RecvIntr | RecvAgain | RecvError

datatype accept_result = Accepted "bytes option" u16 | AcceptIntr | AcceptAgain | AcceptError

record os =
  os_endian :: endian
  os_open :: "int list"
  os_send :: "int \<Rightarrow> send_result list"
  os_recv :: "int \<Rightarrow> recv_result list"
  os_accept :: "accept_result list"
  os_ctl :: "nat \<Rightarrow> ctl_op \<Rightarrow> int \<Rightarrow> bool"
  os_calls :: nat
  os_fcntl :: "int \<Rightarrow> int option \<times> bool"
  os_now :: int
  os_epoch :: u64
  os_wire :: "int \<Rightarrow> bytes"

record FileSession =
  fs_senderFd :: int
  fs_receiverFd :: int

text \<open>
  The three owning pointers are null before \<open>start\<close> and \<open>reactor_\<close> again after \<open>run\<close>:
  a flag says whether each is set. \<open>sv_disconnecting\<close> is the local vector of
  \<open>processPendingDisconnects\<close> that the main thread works through, \<open>sv_timedOut\<close> the one
  of the heartbeat thread.
\<close>

record server =
  sv_running :: bool
  sv_listenFd :: int
  sv_hasReactor :: bool
  sv_hasClientMgr :: bool
  sv_hasProtocol :: bool
  sv_reactor :: reactor
  sv_clients :: clients
  sv_recvBuffers :: recv_buffers
  sv_handlers :: "int \<rightharpoonup> conn"
  sv_pending :: "int list"
  sv_files :: "bytes \<rightharpoonup> FileSession"
  sv_disconnecting :: "int list"
  sv_timedOut :: "int list"
  sv_os :: os

definition kMaxOnlineClients :: nat where "kMaxOnlineClients = 1024"
definition kFileIdSize :: nat where "kFileIdSize = 37"
definition kHeartbeatTimeoutSec :: int where "kHeartbeatTimeoutSec = 10"

section \<open>Calls into the kernel\<close>

text \<open>A new descriptor is the lowest one not open (POSIX).\<close>

definition lowest_unused :: "int list \<Rightarrow> int" where
  "lowest_unused fds =
     (case filter (\<lambda>n. n \<notin> set fds) (map int [0..<Suc (length fds)]) of
        [] \<Rightarrow> -1 | n # ns \<Rightarrow> n)"

text \<open>A closed descriptor is also taken out of the kernel's interest set.\<close>

definition sys_close :: "int \<Rightarrow> server \<Rightarrow> server" where
  "sys_close fd s =
     s\<lparr>sv_os := (sv_os s)\<lparr>os_open := removeAll fd (os_open (sv_os s))\<rparr>,
       sv_reactor := kernel_closes fd (sv_reactor s)\<rparr>"

text \<open>The reactor's calls, each with the next answers of \<open>epoll_ctl\<close>.\<close>

definition ctl_answer :: "server \<Rightarrow> ctl_op \<Rightarrow> int \<Rightarrow> bool" where
  "ctl_answer s = os_ctl (sv_os s) (os_calls (sv_os s))"

definition count_call :: "server \<Rightarrow> server" where
  "count_call s = s\<lparr>sv_os := (sv_os s)\<lparr>os_calls := Suc (os_calls (sv_os s))\<rparr>\<rparr>"

definition reactor_register :: "handler \<Rightarrow> u32 \<Rightarrow> server \<Rightarrow> bool \<times> server" where
  "reactor_register h ev s =
     (let (ok, r) = registerHandler (ctl_answer s) h ev (sv_reactor s)
      in (ok, count_call (s\<lparr>sv_reactor := r\<rparr>)))"

definition reactor_modify :: "handler \<Rightarrow> u32 \<Rightarrow> server \<Rightarrow> server" where
  "reactor_modify h ev s =
     count_call (s\<lparr>sv_reactor := snd (modifyHandler (ctl_answer s) h ev (sv_reactor s))\<rparr>)"

definition reactor_remove :: "int \<Rightarrow> server \<Rightarrow> server" where
  "reactor_remove fd s =
     count_call (s\<lparr>sv_reactor := removeHandler (ctl_answer s) fd (sv_reactor s)\<rparr>)"

section \<open>Asking for a connection to be closed\<close>

definition queueDisconnect :: "int \<Rightarrow> server \<Rightarrow> server" where
  "queueDisconnect fd s = s\<lparr>sv_pending := sv_pending s @ [fd]\<rparr>"

definition put_conn :: "int \<Rightarrow> conn \<Rightarrow> server \<Rightarrow> server" where
  "put_conn fd c s = s\<lparr>sv_handlers := (sv_handlers s)(fd \<mapsto> c)\<rparr>"

text \<open>The methods of a \<open>ClientHandler\<close> act on the object that \<open>sv_handlers\<close> holds.\<close>

definition requestClose :: "int \<Rightarrow> server \<Rightarrow> server" where
  "requestClose fd s =
     (case sv_handlers s fd of
        None \<Rightarrow> s
      | Some c \<Rightarrow>
          if co_closing c then s
          else queueDisconnect fd (put_conn fd (c\<lparr>co_closing := True\<rparr>) s))"

section \<open>Sending\<close>

text \<open>The socket took \<open>w\<close>, and \<open>rs\<close> are the answers left.\<close>

definition took :: "int \<Rightarrow> bytes \<Rightarrow> send_result list \<Rightarrow> server \<Rightarrow> server" where
  "took fd w rs s =
     s\<lparr>sv_os := (sv_os s)\<lparr>os_send := (os_send (sv_os s))(fd := rs),
                          os_wire := (os_wire (sv_os s))(fd := os_wire (sv_os s) fd @ w)\<rparr>\<rparr>"

definition queueSend :: "int \<Rightarrow> bytes \<Rightarrow> server \<Rightarrow> bool \<times> server" where
  "queueSend fd data s =
     (case sv_handlers s fd of
        None \<Rightarrow> (False, s)
      | Some c \<Rightarrow>
          if co_closing c \<or> fd < 0 then (False, s)
          else if data = [] then (True, s)
          else if pending c = 0 then
            (case send_loop (os_send (sv_os s) fd) data 0 of
               (ex, off, rs) \<Rightarrow>
                 let s = took fd (take off data) rs s in
                 (case ex of
                    CloseRequested \<Rightarrow> (False, requestClose fd s)
                  | Finished \<Rightarrow>
                      if off = length data then (True, s)
                      else (True, reactor_modify (ClientHandler fd) (EVENT_READ OR EVENT_WRITE)
                              (put_conn fd (appendOut (drop off data) c) s))))
          else (True, reactor_modify (ClientHandler fd) (EVENT_READ OR EVENT_WRITE)
                  (put_conn fd (appendOut data c) s)))"

definition sendResponse :: "int \<Rightarrow> bytes \<Rightarrow> server \<Rightarrow> bool \<times> server" where
  "sendResponse fd data s =
     (case sv_handlers s fd of
        None \<Rightarrow> (False, s)
      | Some c \<Rightarrow>
          let (ok, s) = queueSend fd data s in
          if \<not> ok then (False, queueDisconnect fd s) else (True, s))"

text \<open>\<open>ClientHandler::handleWrite\<close> and \<open>handleError\<close>.\<close>

definition client_handleWrite :: "int \<Rightarrow> server \<Rightarrow> server" where
  "client_handleWrite fd s =
     (case sv_handlers s fd of
        None \<Rightarrow> s
      | Some c \<Rightarrow>
          if co_closing c then s
          else
            (case flushOut (os_send (sv_os s) fd) c [] of
               (ex, c, w, rs) \<Rightarrow>
                 let s = put_conn fd c (took fd w rs s) in
                 (case ex of
                    CloseRequested \<Rightarrow> requestClose fd s
                  | Finished \<Rightarrow>
                      if \<not> co_closing c \<and> pending c = 0
                      then reactor_modify (ClientHandler fd) EVENT_READ s
                      else s)))"

definition client_handleError :: "int \<Rightarrow> u32 \<Rightarrow> server \<Rightarrow> server" where
  "client_handleError fd events s =
     (case sv_handlers s fd of
        None \<Rightarrow> s
      | Some c \<Rightarrow> if co_closing c then s else requestClose fd s)"

section \<open>User lists\<close>

text \<open>One entry: a zeroed \<open>UserInfo\<close> and two \<open>strncpy\<close> calls.\<close>

definition user_info :: "ClientInfo \<Rightarrow> UserInfo" where
  "user_info info =
     \<lparr>ui_clientId = strncpy (zeros 32) (ci_clientId info) (32 - 1),
      ui_nickname = strncpy (zeros 64) (ci_nickname info) (64 - 1)\<rparr>"

definition sendUserList :: "int \<Rightarrow> u32 \<Rightarrow> server \<Rightarrow> server" where
  "sendUserList fd sq s =
     (if \<not> sv_hasClientMgr s then s
      else
        let clients = getOnlineClients (sv_clients s);
            users = map user_info clients;
            packet = packUserListResponse (os_endian (sv_os s)) sq users
        in snd (sendResponse fd packet s))"

definition broadcastUserList :: "server \<Rightarrow> server" where
  "broadcastUserList s =
     (if \<not> sv_hasClientMgr s then s
      else
        let clients = getOnlineClients (sv_clients s) in
        if clients = [] then s
        else
          let users = map user_info clients;
              packet = packUserListResponse (os_endian (sv_os s)) 0 users
          in fold (\<lambda>info s. snd (sendResponse (ci_fd info) packet s)) clients s)"

section \<open>Disconnecting\<close>

text \<open>The loop erases every session the descriptor takes part in.\<close>

definition cleanupFileSessionsForFd :: "int \<Rightarrow> server \<Rightarrow> server" where
  "cleanupFileSessionsForFd fd s =
     s\<lparr>sv_files := (\<lambda>fileId. case sv_files s fileId of
          None \<Rightarrow> None
        | Some fs \<Rightarrow> if fs_senderFd fs = fd \<or> fs_receiverFd fs = fd then None else Some fs)\<rparr>"

definition handleClientDisconnect :: "int \<Rightarrow> server \<Rightarrow> server" where
  "handleClientDisconnect fd s =
     (if fd < 0 then s
      else
        let s = (if sv_hasReactor s then reactor_remove fd s else s);
            s = s\<lparr>sv_handlers := (sv_handlers s)(fd := None)\<rparr>;
            s = (if sv_hasClientMgr s
                 then s\<lparr>sv_clients := removeClient fd (sv_clients s)\<rparr> else s);
            s = (if sv_hasProtocol s
                 then s\<lparr>sv_recvBuffers := parser_removeClient fd (sv_recvBuffers s)\<rparr> else s);
            s = cleanupFileSessionsForFd fd s;
            s = sys_close fd s
        in if sv_running s then broadcastUserList s else s)"

text \<open>
  The queue is taken over under its lock, sorted and freed of duplicates; then the
  descriptors are disconnected one by one. The heartbeat thread may queue more of them
  in between.
\<close>

definition swapPending :: "server \<Rightarrow> server" where
  "swapPending s =
     (if sv_pending s = [] then s
      else s\<lparr>sv_pending := [], sv_disconnecting := remdups_adj (sort (sv_pending s))\<rparr>)"

definition disconnectNext :: "server \<Rightarrow> server" where
  "disconnectNext s =
     (case sv_disconnecting s of
        [] \<Rightarrow> s
      | fd # fds \<Rightarrow> handleClientDisconnect fd (s\<lparr>sv_disconnecting := fds\<rparr>))"

definition processPendingDisconnects :: "server \<Rightarrow> server" where
  "processPendingDisconnects s =
     (let s = swapPending s
      in (disconnectNext ^^ length (sv_disconnecting s)) s)"

text \<open>
  Without a client manager the code goes through \<open>clientHandlers_\<close>, in the unspecified
  order of a hash table; here its descriptors are listed in the order in which they
  were opened.
\<close>

definition cleanupAllClients :: "server \<Rightarrow> server" where
  "cleanupAllClients s =
     (let fds = (if sv_hasClientMgr s then getAllFds (sv_clients s)
                 else filter (\<lambda>fd. sv_handlers s fd \<noteq> None) (os_open (sv_os s)));
          s = fold handleClientDisconnect fds s
      in s\<lparr>sv_handlers := (\<lambda>_. None)\<rparr>)"

section \<open>Accepting\<close>

text \<open>\<open>fcntl(F_GETFL)\<close> gives flags or fails, \<open>fcntl(F_SETFL)\<close> succeeds or fails.\<close>

definition setNonBlocking :: "int \<Rightarrow> server \<Rightarrow> bool" where
  "setNonBlocking fd s =
     (case os_fcntl (sv_os s) fd of
        (None, _) \<Rightarrow> False
      | (Some flags, set_ok) \<Rightarrow> set_ok)"

definition registerClient :: "int \<Rightarrow> bytes \<Rightarrow> int \<Rightarrow> server \<Rightarrow> bool \<times> server" where
  "registerClient fd ip port s =
     (if \<not> sv_hasReactor s \<or> \<not> sv_hasClientMgr s then (False, sys_close fd s)
      else if \<not> setNonBlocking fd s then (False, sys_close fd s)
      else
        let handler = new_ClientHandler;
            (ok, s) = reactor_register (ClientHandler fd) EVENT_READ s in
        if \<not> ok then (False, sys_close fd s)
        else
          let s = s\<lparr>sv_clients := addClient (os_now (sv_os s)) fd ip port (sv_clients s)\<rparr>
          in (True, (case sv_handlers s fd of
                Some c \<Rightarrow> s
              | None \<Rightarrow> put_conn fd handler s)))"

text \<open>
  A new connection gets the lowest unused descriptor; its socket has taken no bytes yet.
\<close>

definition sys_accept :: "server \<Rightarrow> int \<times> server" where
  "sys_accept s =
     (let fd = lowest_unused (os_open (sv_os s))
      in (fd, s\<lparr>sv_os := (sv_os s)\<lparr>os_open := os_open (sv_os s) @ [fd],
                                  os_wire := (os_wire (sv_os s))(fd := [])\<rparr>\<rparr>))"

text \<open>
  The loop of \<open>ListenHandler::handleRead\<close>; what \<open>inet_ntop\<close> makes of the address is
  part of \<open>accept\<close>'s answer (\<open>None\<close> when it fails), the port is in network order.
\<close>

fun accept_loop :: "accept_result list \<Rightarrow> server \<Rightarrow> accept_result list \<times> server" where
  "accept_loop [] s = ([], s)"
| "accept_loop (AcceptIntr # as) s = accept_loop as s"
| "accept_loop (AcceptAgain # as) s = (as, s)"
| "accept_loop (AcceptError # as) s = (as, s)"
| "accept_loop (Accepted ip sin_port # as) s =
     (let (fd, s) = sys_accept s;
          clientIp = (case ip of None \<Rightarrow> lit ''unknown'' | Some a \<Rightarrow> a);
          clientPort = uint (ntohs (os_endian (sv_os s)) sin_port)
      in accept_loop as (snd (registerClient fd clientIp clientPort s)))"

definition listen_handleRead :: "server \<Rightarrow> server" where
  "listen_handleRead s =
     (let (as, s) = accept_loop (os_accept (sv_os s)) s
      in s\<lparr>sv_os := (sv_os s)\<lparr>os_accept := as\<rparr>\<rparr>)"

end
