(* ===== verification/Server_Handlers.thy ===== *)
theory Server_Handlers
  imports Server_Core
begin

text \<open>
  What the server does with a message: \<open>Server::handleMessage\<close> and the handlers it
  dispatches to (\<open>server/src/server.cpp\<close>), the read loop of a connection that feeds
  them through the parser, and the heartbeat thread.
\<close>

section \<open>Messages that stay within one connection\<close>

definition handleHeartbeat :: "int \<Rightarrow> MessageHeader \<Rightarrow> bytes \<Rightarrow> server \<Rightarrow> server" where
  "handleHeartbeat fd header body s =
     (if length body \<noteq> 0 then s
      else
        let s = s\<lparr>sv_clients := updateHeartbeat (os_now (sv_os s)) fd (sv_clients s)\<rparr>;
            response = packHeartbeatResponse (os_endian (sv_os s)) (sequence header)
        in snd (sendResponse fd response s))"

definition reply_login :: "int \<Rightarrow> u32 \<Rightarrow> u32 \<Rightarrow> string \<Rightarrow> server \<Rightarrow> server" where
  "reply_login fd sq result msg s =
     snd (sendResponse fd (packLoginResponse (os_endian (sv_os s)) sq result (lit msg)) s)"

definition handleLogin :: "int \<Rightarrow> MessageHeader \<Rightarrow> bytes \<Rightarrow> server \<Rightarrow> server" where
  "handleLogin fd header body s =
     (case parseLoginRequest body of
        None \<Rightarrow> reply_login fd (sequence header) LOGIN_INVALID_PARAM ''Invalid parameters'' s
      | Some req \<Rightarrow>
          let clientId = field_string (lrq_clientId req);
              nickname = field_string (lrq_nickname req) in
          if clientId = [] \<or> nickname = [] then
            reply_login fd (sequence header) LOGIN_INVALID_PARAM ''Invalid parameters'' s
          else if isClientIdOnline clientId fd (sv_clients s) then
            reply_login fd (sequence header) LOGIN_ALREADY_ONLINE ''Client already online'' s
          else if isNicknameOnline nickname fd (sv_clients s) then
            reply_login fd (sequence header) LOGIN_NICKNAME_TAKEN ''Nickname taken'' s
          else if getOnlineCount (sv_clients s) \<ge> kMaxOnlineClients then
            reply_login fd (sequence header) LOGIN_SERVER_FULL ''Server full'' s
          else
            (case setClientIdentity fd clientId nickname (sv_clients s) of
               (ok, clients) \<Rightarrow>
                 if \<not> ok then
                   reply_login fd (sequence header) LOGIN_INVALID_PARAM ''Invalid parameters'' s
                 else
                   broadcastUserList
                     (reply_login fd (sequence header) LOGIN_SUCCESS ''OK''
                        (s\<lparr>sv_clients := clients\<rparr>))))"

definition handleUserListRequest :: "int \<Rightarrow> MessageHeader \<Rightarrow> server \<Rightarrow> server" where
  "handleUserListRequest fd header s =
     (if \<not> sv_hasClientMgr s then s
      else
        (case getClientInfo fd (sv_clients s) of
           None \<Rightarrow> s
         | Some info \<Rightarrow>
             if \<not> ci_isOnline info then s else sendUserList fd (sequence header) s))"

section \<open>Messages between clients\<close>

text \<open>The online client behind a descriptor, the guard the relaying handlers start with.\<close>

definition online_sender :: "int \<Rightarrow> server \<Rightarrow> ClientInfo option" where
  "online_sender fd s =
     (if \<not> sv_hasClientMgr s then None
      else
        (case getClientInfo fd (sv_clients s) of
           None \<Rightarrow> None
         | Some sender \<Rightarrow> if \<not> ci_isOnline sender then None else Some sender))"

definition handleChatMessage :: "int \<Rightarrow> MessageHeader \<Rightarrow> bytes \<Rightarrow> server \<Rightarrow> server" where
  "handleChatMessage fd header body s =
     (case parseChatMessage (os_endian (sv_os s)) body of
        None \<Rightarrow> s
      | Some msg \<Rightarrow>
          (case online_sender fd s of
             None \<Rightarrow> s
           | Some sender \<Rightarrow>
               let toId = field_string (cm_toId msg);
                   msgText = field_string (cm_message msg);
                   timestamp = (if cm_timestamp msg = 0 then os_epoch (sv_os s)
                                else cm_timestamp msg);
                   scope = (if cm_chatType msg = scope_byte CHAT_PRIVATE
                            then CHAT_PRIVATE else CHAT_GROUP);
                   packet = packChatMessage (os_endian (sv_os s)) (sequence header) scope
                     (ci_clientId sender) (ci_nickname sender) toId msgText timestamp in
               if scope = CHAT_GROUP then
                 fold (\<lambda>target s. if ci_fd target = fd then s
                         else snd (sendResponse (ci_fd target) packet s))
                   (getOnlineClients (sv_clients s)) s
               else if toId = [] then s
               else
                 let targetFd = getFdByClientId toId (sv_clients s) in
                 if targetFd < 0 then s else snd (sendResponse targetFd packet s)))"

section \<open>File transfers\<close>

definition reply_offer ::
    "int \<Rightarrow> u32 \<Rightarrow> bytes \<Rightarrow> u32 \<Rightarrow> bytes \<Rightarrow> server \<Rightarrow> server" where
  "reply_offer fd sq fileId result msg s =
     snd (sendResponse fd
       (packFileOfferResponse (os_endian (sv_os s)) sq fileId result msg) s)"

text \<open>
  The code's second branch, for an offer without a target, cannot be reached: an empty
  \<open>toId\<close> was answered above and a negative \<open>targetFd\<close> too. It is written out all the
  same: the loop reports whether any client was sent the offer.
\<close>

definition handleFileOffer :: "int \<Rightarrow> MessageHeader \<Rightarrow> bytes \<Rightarrow> server \<Rightarrow> server" where
  "handleFileOffer fd header body s =
     (case parseFileOffer (os_endian (sv_os s)) body of
        None \<Rightarrow> s
      | Some offer \<Rightarrow>
          (case online_sender fd s of
             None \<Rightarrow> s
           | Some sender \<Rightarrow>
               let fileId = field_string (fo_fileId offer);
                   fileName = field_string (fo_fileName offer);
                   toId = field_string (fo_toId offer) in
               if fileId = [] then
                 reply_offer fd (sequence header) [] FILE_OFFER_DECLINE (lit ''Invalid file id'') s
               else if toId = [] then
                 reply_offer fd (sequence header) fileId FILE_OFFER_DECLINE
                   (lit ''Target required'') s
               else
                 let targetFd = getFdByClientId toId (sv_clients s) in
                 if targetFd < 0 then
                   reply_offer fd (sequence header) fileId FILE_OFFER_BUSY
                     (lit ''Target offline'') s
                 else
                   let packet = packFileOffer (os_endian (sv_os s)) (sequence header) fileId
                         fileName (fo_fileSize offer) (ci_clientId sender) (ci_nickname sender) toId;
                       (sent, s) =
                         (if targetFd \<ge> 0 then (True, snd (sendResponse targetFd packet s))
                          else
                            fold (\<lambda>target (sent, s).
                                if ci_fd target = fd then (sent, s)
                                else
                                  let (ok, s) = sendResponse (ci_fd target) packet s
                                  in (ok \<or> sent, s))
                              (getOnlineClients (sv_clients s)) (False, s)) in
                   if \<not> sent then
                     reply_offer fd (sequence header) fileId FILE_OFFER_BUSY
                       (lit ''No recipients online'') s
                   else
                     s\<lparr>sv_files := (sv_files s)(fileId \<mapsto>
                        \<lparr>fs_senderFd = fd, fs_receiverFd = targetFd\<rparr>)\<rparr>))"

definition handleFileOfferResponse :: "int \<Rightarrow> MessageHeader \<Rightarrow> bytes \<Rightarrow> server \<Rightarrow> server" where
  "handleFileOfferResponse fd header body s =
     (case parseFileOfferResponse (os_endian (sv_os s)) body of
        None \<Rightarrow> s
      | Some rsp \<Rightarrow>
          let fileId = field_string (fr_fileId rsp) in
          if fileId = [] then s
          else
            (case sv_files s fileId of
               None \<Rightarrow> s
             | Some session \<Rightarrow>
                 if fs_receiverFd session \<noteq> -1 \<and> fs_receiverFd session \<noteq> fd then s
                 else
                   let accept = (fr_result rsp = FILE_OFFER_ACCEPT);
                       bind = (fs_receiverFd session = -1 \<and> accept);
                       session = (if bind then session\<lparr>fs_receiverFd := fd\<rparr> else session);
                       s = (if bind then s\<lparr>sv_files := (sv_files s)(fileId \<mapsto> session)\<rparr> else s);
                       eraseSession =
                         (\<not> accept \<and> (fs_receiverFd session = -1 \<or> fs_receiverFd session = fd));
                       s = (if eraseSession then s\<lparr>sv_files := (sv_files s)(fileId := None)\<rparr>
                            else s) in
                   if fs_senderFd session < 0 then s
                   else
                     reply_offer (fs_senderFd session) (sequence header) fileId (fr_result rsp)
                       (c_text (fr_message rsp)) s))"

definition extractFileId :: "bytes \<Rightarrow> bytes" where
  "extractFileId body =
     (if length body < kFileIdSize then []
      else
        let fileId = terminate (take kFileIdSize body)
        in take (boundedStrnlen fileId kFileIdSize) fileId)"

definition handleFileData :: "int \<Rightarrow> MessageHeader \<Rightarrow> bytes \<Rightarrow> server \<Rightarrow> server" where
  "handleFileData fd header body s =
     (let fileId = extractFileId body in
      if fileId = [] then s
      else
        (case sv_files s fileId of
           None \<Rightarrow> s
         | Some session \<Rightarrow>
             (case (if fd = fs_senderFd session then Some (fs_receiverFd session)
                    else if fd = fs_receiverFd session then Some (fs_senderFd session)
                    else None) of
                None \<Rightarrow> s
              | Some targetFd \<Rightarrow>
                  if targetFd < 0 then s
                  else
                    snd (sendResponse targetFd
                      (packRawMessage (os_endian (sv_os s)) (msgType header) (sequence header) body)
                      s))))"

section \<open>The dispatcher\<close>

definition handleMessage :: "int \<Rightarrow> MessageHeader \<Rightarrow> bytes \<Rightarrow> server \<Rightarrow> server" where
  "handleMessage fd header body s =
     (if msgType header = MSG_HEARTBEAT_REQ then handleHeartbeat fd header body s
      else if msgType header = MSG_LOGIN_REQ then handleLogin fd header body s
      else if msgType header = MSG_LOGOUT_REQ then queueDisconnect fd s
      else if msgType header = MSG_CHAT_MSG then handleChatMessage fd header body s
      else if msgType header = MSG_USER_LIST_REQ then handleUserListRequest fd header s
      else if msgType header = MSG_FILE_OFFER then handleFileOffer fd header body s
      else if msgType header = MSG_FILE_OFFER_RSP then handleFileOfferResponse fd header body s
      else if msgType header = MSG_FILE_DATA \<or> msgType header = MSG_FILE_DATA_ACK
        then handleFileData fd header body s
      else s)"

definition onClientData :: "int \<Rightarrow> bytes \<Rightarrow> server \<Rightarrow> server" where
  "onClientData fd data s =
     (let (bufs, s) = parseData (os_endian (sv_os s)) handleMessage fd data (sv_recvBuffers s, s)
      in s\<lparr>sv_recvBuffers := bufs\<rparr>)"

section \<open>Reading\<close>

text \<open>
  The loop of \<open>ClientHandler::handleRead\<close> over the kernel's answers to \<open>recv\<close>. A call
  hands over at most the 4096 bytes of the code's buffer, and no bytes mean that the peer
  has closed.
\<close>

fun recv_loop :: "int \<Rightarrow> recv_result list \<Rightarrow> server \<Rightarrow> recv_result list \<times> server" where
  "recv_loop fd [] s = ([], s)"
| "recv_loop fd (Received d # rs) s =
     (let data = take 4096 d in
      if length data > 0 then recv_loop fd rs (onClientData fd data s)
      else (rs, requestClose fd s))"
| "recv_loop fd (RecvIntr # rs) s = recv_loop fd rs s"
| "recv_loop fd (RecvAgain # rs) s = (rs, s)"
| "recv_loop fd (RecvError # rs) s = (rs, requestClose fd s)"

definition client_handleRead :: "int \<Rightarrow> server \<Rightarrow> server" where
  "client_handleRead fd s =
     (case sv_handlers s fd of
        None \<Rightarrow> s
      | Some c \<Rightarrow>
          if co_closing c then s
          else
            let (rs, s) = recv_loop fd (os_recv (sv_os s) fd) s
            in s\<lparr>sv_os := (sv_os s)\<lparr>os_recv := (os_recv (sv_os s))(fd := rs)\<rparr>\<rparr>)"

section \<open>Virtual methods of the handlers\<close>

fun handler_read :: "handler \<Rightarrow> server \<Rightarrow> server" where
  "handler_read (ListenHandler fd) s = listen_handleRead s"
| "handler_read (ClientHandler fd) s = client_handleRead fd s"

fun handler_write :: "handler \<Rightarrow> server \<Rightarrow> server" where
  "handler_write (ListenHandler fd) s = s"
| "handler_write (ClientHandler fd) s = client_handleWrite fd s"

fun handler_error :: "handler \<Rightarrow> u32 \<Rightarrow> server \<Rightarrow> server" where
  "handler_error (ListenHandler fd) events s = s"
| "handler_error (ClientHandler fd) events s = client_handleError fd events s"

definition server_poll :: "wait_result list \<Rightarrow> server \<Rightarrow> int \<times> server" where
  "server_poll ws s = reactor_poll sv_reactor handler_read handler_write handler_error ws s"

section \<open>The heartbeat thread\<close>

text \<open>One round: it collects the timed-out clients, then queues them one by one.\<close>

definition heartbeat_scan :: "server \<Rightarrow> server" where
  "heartbeat_scan s =
     s\<lparr>sv_timedOut := checkTimeout (os_now (sv_os s)) kHeartbeatTimeoutSec (sv_clients s)\<rparr>"

definition heartbeat_queue :: "server \<Rightarrow> server" where
  "heartbeat_queue s =
     (case sv_timedOut s of
        [] \<Rightarrow> s
      | fd # fds \<Rightarrow> queueDisconnect fd (s\<lparr>sv_timedOut := fds\<rparr>))"

end
