(* ===== verification/Server_Sending.thy ===== *)
theory Server_Sending
  imports Server_Handlers "HOL-Library.Sublist"
begin

text \<open>
  What sending does to the server. Every operation that only sends is described by one
  relation, \<open>sends outs s s'\<close>: the messages \<open>outs\<close> went to their connections in that
  order, connections may have failed on the way, and nothing else changed. The relation
  composes, so the message handlers follow the code's own structure.
\<close>

section \<open>Connections\<close>

definition write_mask :: "conn \<Rightarrow> u32" where
  "write_mask c = (if pending c = 0 then EVENT_READ else EVENT_READ OR EVENT_WRITE)"

lemma write_mask_reads: "write_mask c AND EVENT_READ \<noteq> 0"
  by (simp add: write_mask_def EVENT_READ_def EVENT_WRITE_def)

text \<open>
  A connection of the server: its descriptor is open and registered with the reactor
  under its own handler; a closing one waits for its disconnection; an open one asks for
  write events exactly when bytes wait to be sent. The kernel watches what the reactor's
  table says.
\<close>

definition conn_inv :: "server \<Rightarrow> int \<Rightarrow> conn \<Rightarrow> bool" where
  "conn_inv s fd c \<longleftrightarrow>
     conn_ok c \<and> 0 \<le> fd \<and> fd \<noteq> sv_listenFd s \<and> fd \<in> set (os_open (sv_os s)) \<and>
     (co_closing c \<longrightarrow> fd \<in> set (sv_pending s) \<union> set (sv_disconnecting s)) \<and>
     (case re_handlers (sv_reactor s) fd of
        None \<Rightarrow> False
      | Some en \<Rightarrow> he_handler en = ClientHandler fd \<and>
          (\<not> co_closing c \<longrightarrow> he_events en = write_mask c))"

definition conns_ok :: "server \<Rightarrow> bool" where
  "conns_ok s \<longleftrightarrow>
     watched (sv_reactor s) \<and> (\<forall>fd c. sv_handlers s fd = Some c \<longrightarrow> conn_inv s fd c)"

lemma conns_okD: "conns_ok s \<Longrightarrow> sv_handlers s fd = Some c \<Longrightarrow> conn_inv s fd c"
  by (simp add: conns_ok_def)

lemma conns_ok_watched: "conns_ok s \<Longrightarrow> watched (sv_reactor s)"
  by (simp add: conns_ok_def)

lemma conns_okI:
  "watched (sv_reactor s) \<Longrightarrow> (\<And>fd c. sv_handlers s fd = Some c \<Longrightarrow> conn_inv s fd c) \<Longrightarrow> conns_ok s"
  by (simp add: conns_ok_def)

definition alive :: "server \<Rightarrow> int \<Rightarrow> bool" where
  "alive s fd \<longleftrightarrow> (case sv_handlers s fd of None \<Rightarrow> False | Some c \<Rightarrow> \<not> co_closing c)"

definition failed :: "server \<Rightarrow> int \<Rightarrow> bool" where
  "failed s fd \<longleftrightarrow> (case sv_handlers s fd of None \<Rightarrow> False | Some c \<Rightarrow> co_closing c)"

lemma failed_iff: "failed s fd \<longleftrightarrow> sv_handlers s fd \<noteq> None \<and> \<not> alive s fd"
  by (auto simp: failed_def alive_def split: option.split)

text \<open>Everything ever accepted for a connection: what its socket took, and what waits.\<close>

definition out_stream :: "server \<Rightarrow> int \<Rightarrow> bytes" where
  "out_stream s fd =
     os_wire (sv_os s) fd @ (case sv_handlers s fd of None \<Rightarrow> [] | Some c \<Rightarrow> unsent c)"

text \<open>
  From \<open>s\<close> to \<open>s'\<close> the stream of \<open>fd\<close> grew by \<open>ds\<close>, or the connection failed after a
  front part of it. A connection that was dead stays dead and sends nothing.
\<close>

definition out_grows :: "server \<Rightarrow> server \<Rightarrow> int \<Rightarrow> bytes \<Rightarrow> bool" where
  "out_grows s s' fd ds \<longleftrightarrow>
     (if alive s' fd then alive s fd \<and> out_stream s' fd = out_stream s fd @ ds
      else (\<exists>p. prefix p ds \<and> out_stream s' fd = out_stream s fd @ p \<and>
              (\<not> alive s fd \<longrightarrow> p = [])))"

lemma out_grows_refl: "out_grows s s fd []"
  by (auto simp: out_grows_def)

lemma out_grows_trans:
  assumes "out_grows s s' fd a" and "out_grows s' s'' fd b"
  shows "out_grows s s'' fd (a @ b)"
proof (cases "alive s'' fd")
  case True
  with assms show ?thesis by (auto simp: out_grows_def split: if_splits)
next
  case False
  from assms(2) False obtain q where q: "prefix q b" "out_stream s'' fd = out_stream s' fd @ q"
    "\<not> alive s' fd \<longrightarrow> q = []" by (auto simp: out_grows_def)
  show ?thesis
  proof (cases "alive s' fd")
    case True
    with assms(1) have "out_stream s'' fd = out_stream s fd @ (a @ q)" and "alive s fd"
      using q(2) by (auto simp: out_grows_def)
    with False q(1) show ?thesis by (auto simp: out_grows_def)
  next
    case dead: False
    with assms(1) obtain p where "prefix p a" "out_stream s' fd = out_stream s fd @ p"
      "\<not> alive s fd \<longrightarrow> p = []" by (auto simp: out_grows_def)
    with False dead q show ?thesis
      unfolding out_grows_def by (auto intro!: exI [of _ p] simp: prefix_append)
  qed
qed

section \<open>The relation\<close>

text \<open>The fields that sending never touches.\<close>

definition frame :: "server \<Rightarrow> server" where
  "frame s = s\<lparr>sv_reactor := Reactor\<lparr>re_epoll := EpollWrapper\<lparr>ep_fd := ep_fd (re_epoll (sv_reactor s))\<rparr>\<rparr>,
     sv_handlers := (\<lambda>_. None), sv_pending := [],
     sv_os := (sv_os s)\<lparr>os_send := (\<lambda>_. []), os_calls := 0, os_wire := (\<lambda>_. [])\<rparr>\<rparr>"

lemma frameD:
  assumes "frame s' = frame s"
  shows "sv_running s' = sv_running s" and "sv_listenFd s' = sv_listenFd s"
    and "sv_hasReactor s' = sv_hasReactor s" and "sv_hasClientMgr s' = sv_hasClientMgr s"
    and "sv_hasProtocol s' = sv_hasProtocol s" and "sv_clients s' = sv_clients s"
    and "sv_recvBuffers s' = sv_recvBuffers s" and "sv_files s' = sv_files s"
    and "sv_timedOut s' = sv_timedOut s" and "sv_disconnecting s' = sv_disconnecting s"
    and "os_endian (sv_os s') = os_endian (sv_os s)" and "os_open (sv_os s') = os_open (sv_os s)"
    and "os_recv (sv_os s') = os_recv (sv_os s)" and "os_accept (sv_os s') = os_accept (sv_os s)"
    and "os_now (sv_os s') = os_now (sv_os s)" and "os_epoch (sv_os s') = os_epoch (sv_os s)"
    and "ep_fd (re_epoll (sv_reactor s')) = ep_fd (re_epoll (sv_reactor s))"
  using assms [THEN arg_cong, of sv_running] assms [THEN arg_cong, of sv_listenFd]
    assms [THEN arg_cong, of sv_hasReactor] assms [THEN arg_cong, of sv_hasClientMgr]
    assms [THEN arg_cong, of sv_hasProtocol] assms [THEN arg_cong, of sv_clients]
    assms [THEN arg_cong, of sv_recvBuffers] assms [THEN arg_cong, of sv_files]
    assms [THEN arg_cong, of sv_timedOut] assms [THEN arg_cong, of sv_disconnecting]
    assms [THEN arg_cong, of "\<lambda>s. os_endian (sv_os s)"]
    assms [THEN arg_cong, of "\<lambda>s. os_open (sv_os s)"]
    assms [THEN arg_cong, of "\<lambda>s. os_recv (sv_os s)"]
    assms [THEN arg_cong, of "\<lambda>s. os_accept (sv_os s)"]
    assms [THEN arg_cong, of "\<lambda>s. os_now (sv_os s)"]
    assms [THEN arg_cong, of "\<lambda>s. os_epoch (sv_os s)"]
    assms [THEN arg_cong, of "\<lambda>s. ep_fd (re_epoll (sv_reactor s))"]
  by (simp_all add: frame_def)

text \<open>The bytes of the messages for one descriptor, in order.\<close>

definition bytes_to :: "int \<Rightarrow> (int \<times> bytes) list \<Rightarrow> bytes" where
  "bytes_to fd outs = concat (map snd (filter (\<lambda>(g, d). g = fd) outs))"

lemma bytes_to_simps [simp]:
  "bytes_to fd [] = []"
  "bytes_to fd ((g, d) # outs) = (if g = fd then d else []) @ bytes_to fd outs"
  "bytes_to fd (outs @ outs') = bytes_to fd outs @ bytes_to fd outs'"
  by (simp_all add: bytes_to_def)

definition sends :: "(int \<times> bytes) list \<Rightarrow> server \<Rightarrow> server \<Rightarrow> bool" where
  "sends outs s s' \<longleftrightarrow> (conns_ok s \<longrightarrow>
     conns_ok s' \<and> frame s' = frame s \<and>
     (\<forall>fd. sv_handlers s' fd = None \<longleftrightarrow> sv_handlers s fd = None) \<and>
     (\<forall>fd. findHandler fd (sv_reactor s') = findHandler fd (sv_reactor s)) \<and>
     (\<forall>fd. out_grows s s' fd (bytes_to fd outs)) \<and>
     (\<exists>fds. sv_pending s' = sv_pending s @ fds \<and> (\<forall>fd \<in> set fds. failed s' fd)))"

lemma sendsD:
  assumes "sends outs s s'" and "conns_ok s"
  shows "conns_ok s'" and "frame s' = frame s"
    and "sv_handlers s' fd = None \<longleftrightarrow> sv_handlers s fd = None"
    and "findHandler fd (sv_reactor s') = findHandler fd (sv_reactor s)"
    and "out_grows s s' fd (bytes_to fd outs)"
    and "\<exists>fds. sv_pending s' = sv_pending s @ fds \<and> (\<forall>fd \<in> set fds. failed s' fd)"
  using assms by (simp_all add: sends_def)

lemma sends_if_ok: "(conns_ok s \<Longrightarrow> sends outs s s') \<Longrightarrow> sends outs s s'"
  by (simp add: sends_def)

lemma sends_refl [intro]: "sends [] s s"
  by (auto simp: sends_def out_grows_refl)

lemma sends_trans [trans]:
  assumes "sends a s s'" and "sends b s' s''"
  shows "sends (a @ b) s s''"
proof (rule sends_if_ok)
  assume ok: "conns_ok s"
  note A = sendsD [OF assms(1) ok]
  note B = sendsD [OF assms(2) A(1)]
  have dead: "failed s'' fd" if "failed s' fd" for fd
    using B(5) [of fd] B(3) [of fd] that by (auto simp: failed_iff out_grows_def split: if_splits)
  have "\<exists>fds. sv_pending s'' = sv_pending s @ fds \<and> (\<forall>fd \<in> set fds. failed s'' fd)"
    using A(6) B(6) dead by (fastforce simp: ball_Un)
  moreover have "out_grows s s'' fd (bytes_to fd (a @ b))" for fd
    using out_grows_trans [OF A(5) B(5), of fd] by simp
  ultimately show "sends (a @ b) s s''"
    using A(2-4) B(1-4) by (simp add: sends_def)
qed

lemma sends_fold:
  assumes "\<And>x s. x \<in> set xs \<Longrightarrow> sends (outs x) s (f x s)"
  shows "sends (concat (map outs xs)) s (fold f xs s)"
  using assms
proof (induction xs arbitrary: s)
  case (Cons x xs)
  have "sends (outs x) s (f x s)" by (rule Cons.prems) simp
  moreover have "sends (concat (map outs xs)) (f x s) (fold f xs (f x s))"
    by (rule Cons.IH) (simp add: Cons.prems)
  ultimately show ?case by (simp add: sends_trans)
qed auto

section \<open>The primitive steps\<close>

lemmas step_defs =
  queueDisconnect_def put_conn_def took_def count_call_def reactor_modify_def

lemma alive_iff: "alive s fd \<longleftrightarrow> (\<exists>c. sv_handlers s fd = Some c \<and> \<not> co_closing c)"
  by (auto simp: alive_def split: option.split)

lemma sends_queueDisconnect:
  assumes "failed s fd"
  shows "sends [] s (queueDisconnect fd s)"
proof -
  let ?s = "queueDisconnect fd s"
  have eq: "alive ?s g = alive s g" "failed ?s g = failed s g"
    "out_stream ?s g = out_stream s g" for g
    by (simp_all add: alive_def failed_def out_stream_def queueDisconnect_def)
  have "conns_ok ?s" if "conns_ok s"
    using that by (auto simp: conns_ok_def conn_inv_def queueDisconnect_def)
  then show ?thesis
    using assms by (auto simp: sends_def frame_def out_grows_def eq) (simp_all add: queueDisconnect_def)
qed

text \<open>Changing one live connection, with what the socket took of it.\<close>

definition conn_step :: "int \<Rightarrow> conn \<Rightarrow> bytes \<Rightarrow> server \<Rightarrow> server \<Rightarrow> bool" where
  "conn_step fd c' w s s' \<longleftrightarrow>
     frame s' = frame s \<and> sv_handlers s' = (sv_handlers s)(fd \<mapsto> c') \<and>
     os_wire (sv_os s') = (os_wire (sv_os s))(fd := os_wire (sv_os s) fd @ w) \<and>
     (\<forall>g. findHandler g (sv_reactor s') = findHandler g (sv_reactor s)) \<and>
     (\<forall>g. g \<noteq> fd \<longrightarrow> re_handlers (sv_reactor s') g = re_handlers (sv_reactor s) g) \<and>
     (watched (sv_reactor s) \<longrightarrow> watched (sv_reactor s')) \<and>
     sv_pending s' = sv_pending s @ (if co_closing c' then [fd] else []) \<and>
     (\<forall>en. \<not> co_closing c' \<longrightarrow> re_handlers (sv_reactor s') fd = Some en \<longrightarrow>
        he_events en = write_mask c')"

lemma conn_step_ok:
  assumes step: "conn_step fd c' w s s'" and ok: "conns_ok s"
    and c: "sv_handlers s fd = Some c" and c': "conn_ok c'"
  shows "conns_ok s'"
proof (rule conns_okI)
  show "watched (sv_reactor s')"
    using step conns_ok_watched [OF ok] by (simp add: conn_step_def)
next
  fix g d
  assume d: "sv_handlers s' g = Some d"
  note st = step [unfolded conn_step_def]
  have fr: "sv_listenFd s' = sv_listenFd s" "os_open (sv_os s') = os_open (sv_os s)"
    "sv_disconnecting s' = sv_disconnecting s"
    using st by (auto dest: frameD)
  show "conn_inv s' g d"
  proof (cases "g = fd")
    case False
    with d st have "sv_handlers s g = Some d" by simp
    then have "conn_inv s g d" using ok by (rule conns_okD [rotated])
    moreover have "re_handlers (sv_reactor s') g = re_handlers (sv_reactor s) g"
      using st False by blast
    ultimately show ?thesis
      using st fr by (auto simp: conn_inv_def)
  next
    case True
    with d st have dc: "d = c'" by simp
    obtain en where en: "re_handlers (sv_reactor s) fd = Some en" "he_handler en = ClientHandler fd"
      and inv: "0 \<le> fd" "fd \<noteq> sv_listenFd s" "fd \<in> set (os_open (sv_os s))"
      using conns_okD [OF ok c] by (auto simp: conn_inv_def split: option.splits)
    have "findHandler fd (sv_reactor s') = Some (ClientHandler fd)"
      using st en by (simp add: findHandler_def)
    then obtain en' where "re_handlers (sv_reactor s') fd = Some en'"
      "he_handler en' = ClientHandler fd" by (auto simp: findHandler_def)
    then show ?thesis
      using True dc c' inv st fr by (auto simp: conn_inv_def)
  qed
qed

lemma conn_step_sends:
  assumes step: "conn_step fd c' w s s'" and c: "sv_handlers s fd = Some c"
    and live: "\<not> co_closing c"
    and data: "conns_ok s \<Longrightarrow> conn_ok c' \<and>
      (if co_closing c' then \<exists>p. prefix p ds \<and> w @ unsent c' = unsent c @ p
       else w @ unsent c' = unsent c @ ds)"
  shows "sends [(fd, ds)] s s'"
proof -
  note st = step [unfolded conn_step_def]
  have h: "(sv_handlers s' g = None) = (sv_handlers s g = None)" for g
    using st c by auto
  have other: "alive s' g = alive s g" "out_stream s' g = out_stream s g" if "g \<noteq> fd" for g
    using st that by (simp_all add: alive_def out_stream_def)
  have mine: "alive s' fd \<longleftrightarrow> \<not> co_closing c'" "alive s fd"
    "out_stream s fd = os_wire (sv_os s) fd @ unsent c"
    "out_stream s' fd = os_wire (sv_os s) fd @ w @ unsent c'"
    using st c live by (simp_all add: alive_def out_stream_def)
  have grows: "out_grows s s' g (bytes_to g [(fd, ds)])" if "conns_ok s" for g
  proof (cases "g = fd")
    case True
    then show ?thesis using data [OF that] mine by (auto simp: out_grows_def split: if_splits)
  next
    case False
    then show ?thesis using other [of g] by (auto simp: out_grows_def)
  qed
  have "conns_ok s'" if "conns_ok s"
    using conn_step_ok [OF step that c] data [OF that] by blast
  moreover have "\<exists>fds. sv_pending s' = sv_pending s @ fds \<and> (\<forall>fd \<in> set fds. failed s' fd)"
    using st by (auto simp: failed_def)
  ultimately show ?thesis
    using st h grows by (simp add: sends_def)
qed

section \<open>The sending operations\<close>

lemma reactor_modify_step:
  assumes "re_handlers (sv_reactor s) fd = Some en"
  shows "re_handlers (sv_reactor (reactor_modify (ClientHandler fd) ev s)) =
      (re_handlers (sv_reactor s))(fd \<mapsto> en\<lparr>he_events := ev\<rparr>)"
  using assms by (simp add: reactor_modify_def count_call_def modifyHandler_handlers)

lemma findHandler_upd:
  "re_handlers r fd = Some en \<Longrightarrow> re_handlers r' = (re_handlers r)(fd \<mapsto> en\<lparr>he_events := ev\<rparr>) \<Longrightarrow>
   findHandler g r' = findHandler g r"
  by (simp add: findHandler_def)

text \<open>Storing a connection and telling the reactor what it waits for.\<close>

lemma conn_step_modify:
  assumes "conns_ok s" and "sv_handlers s fd = Some c" and "\<not> co_closing c'"
    and "ev = write_mask c'"
  shows "conn_step fd c' w s (reactor_modify (ClientHandler fd) ev (put_conn fd c' (took fd w rs s)))"
    and "w = [] \<Longrightarrow> conn_step fd c' [] s (reactor_modify (ClientHandler fd) ev (put_conn fd c' s))"
proof -
  obtain en where en: "re_handlers (sv_reactor s) fd = Some en"
    using conns_okD [OF assms(1,2)] by (auto simp: conn_inv_def split: option.splits)
  have f: "findHandler g (sv_reactor (reactor_modify (ClientHandler fd) ev t)) =
      findHandler g (sv_reactor t)" for g t
    by (simp add: reactor_modify_def count_call_def)
  have v: "watched (sv_reactor (reactor_modify (ClientHandler fd) ev t))" if "sv_reactor t = sv_reactor s" for t
    using watched_modify [OF conns_ok_watched [OF assms(1)], of ev] write_mask_reads [of c'] assms(4) that
    by (simp add: reactor_modify_def count_call_def)
  show "conn_step fd c' w s (reactor_modify (ClientHandler fd) ev (put_conn fd c' (took fd w rs s)))"
    using assms(3,4) en reactor_modify_step [of "put_conn fd c' (took fd w rs s)" fd en ev] f
      v [of "put_conn fd c' (took fd w rs s)"]
    by (simp add: conn_step_def) (simp add: step_defs frame_def)
  show "conn_step fd c' [] s (reactor_modify (ClientHandler fd) ev (put_conn fd c' s))"
    using assms(3,4) en reactor_modify_step [of "put_conn fd c' s" fd en ev] f
      v [of "put_conn fd c' s"]
    by (simp add: conn_step_def) (simp add: step_defs frame_def)
qed

text \<open>Storing a connection that waits for the same events as before.\<close>

lemma conn_step_put:
  assumes "conns_ok s" and "sv_handlers s fd = Some c" and "\<not> co_closing c" and "\<not> co_closing c'"
    and "write_mask c' = write_mask c"
  shows "conn_step fd c' w s (put_conn fd c' (took fd w rs s))"
  using conns_okD [OF assms(1,2)] assms(2-)
  by (auto simp: conn_step_def step_defs frame_def conn_inv_def split: option.splits)

text \<open>Closing one.\<close>

lemma conn_step_close:
  assumes "sv_handlers s fd = Some c" and "\<not> co_closing c'"
  shows "conn_step fd (c'\<lparr>co_closing := True\<rparr>) w s (requestClose fd (put_conn fd c' (took fd w rs s)))"
    and "conn_step fd (c'\<lparr>co_closing := True\<rparr>) [] s (requestClose fd (put_conn fd c' s))"
  using assms by (simp_all add: conn_step_def requestClose_def step_defs frame_def)

lemma put_same: "sv_handlers s fd = Some c \<Longrightarrow> put_conn fd c s = s"
  by (simp add: put_conn_def map_upd_triv)

lemma took_handlers [simp]: "sv_handlers (took fd w rs s) = sv_handlers s"
  by (simp add: took_def)

lemma sends_requestClose: "sends [] s (requestClose fd s)"
proof (cases "alive s fd")
  case True
  then obtain c where c: "sv_handlers s fd = Some c" "\<not> co_closing c" by (auto simp: alive_iff)
  have "sends [(fd, [])] s (requestClose fd (put_conn fd c s))"
    by (rule conn_step_sends [OF conn_step_close(2) [OF c] c])
       (use conns_okD [OF _ c(1)] in \<open>simp add: conn_inv_def\<close>)
  then show ?thesis by (simp add: put_same [OF c(1)] sends_def)
next
  case False
  then have "requestClose fd s = s"
    by (auto simp: requestClose_def alive_iff split: option.split)
  then show ?thesis by auto
qed

lemma sends_no_effect_dead:
  assumes "\<not> alive s fd"
  shows "sends [(fd, d)] s s"
  using assms by (auto simp: sends_def out_grows_def)

lemma sends_queueSend:
  assumes "queueSend fd d s = (ok, s')"
  shows "sends [(fd, d)] s s'" and "conns_ok s \<Longrightarrow> alive s' fd \<longleftrightarrow> ok"
proof -
  have "sends [(fd, d)] s s' \<and> (alive s' fd \<longleftrightarrow> ok)" if cok: "conns_ok s"
  proof (cases "alive s fd")
    case False
    then have "(ok, s') = (False, s)"
      using assms by (auto simp: queueSend_def alive_def split: option.splits)
    with False show ?thesis by (simp add: sends_no_effect_dead)
  next
    case True
    then obtain c where c: "sv_handlers s fd = Some c" and live: "\<not> co_closing c"
      by (auto simp: alive_iff)
    note inv = conns_okD [OF cok c, unfolded conn_inv_def]
    then have fd: "\<not> fd < 0" and okc: "conn_ok c" by auto
    have alive_put: "alive (reactor_modify (ClientHandler fd) ev (put_conn fd c' t)) fd \<longleftrightarrow>
        \<not> co_closing c'" for ev c' t
      by (simp add: alive_def step_defs)
    show ?thesis
    proof (cases "d = []")
      case True
      with assms c live fd have "(ok, s') = (True, s)" by (simp add: queueSend_def)
      with True \<open>alive s fd\<close> show ?thesis
        by (auto simp: sends_def out_grows_def)
    next
      case d: False
      show ?thesis
      proof (cases "pending c = 0")
        case False
        let ?c = "appendOut d c"
        have mask: "EVENT_READ OR EVENT_WRITE = write_mask ?c"
          using appendOut_ok(2) [OF okc, of d] d by (simp add: write_mask_def pending_0_iff)
        have s': "s' = reactor_modify (ClientHandler fd) (EVENT_READ OR EVENT_WRITE) (put_conn fd ?c s)"
          and ok: "ok" using assms c live fd d False by (simp_all add: queueSend_def)
        have "conn_step fd ?c [] s s'"
          unfolding s' using conn_step_modify(2) [OF cok c _ mask] live by simp
        then have "sends [(fd, d)] s s'"
          by (rule conn_step_sends [OF _ c live]) (use appendOut_ok [OF okc, of d] live in simp)
        then show ?thesis using ok live by (simp add: s' alive_put)
      next
        case empty: True
        obtain ex off rs where loop: "send_loop (os_send (sv_os s) fd) d 0 = (ex, off, rs)"
          by (metis prod_cases3)
        have off: "off \<le> length d"
          using send_loop_bounds [of 0 d "os_send (sv_os s) fd"] by (simp add: loop)
        have un: "unsent c = []" using empty by (simp add: pending_0_iff)
        let ?t = "took fd (take off d) rs s"
        show ?thesis
        proof (cases ex)
          case CloseRequested
          have s': "s' = requestClose fd (put_conn fd c ?t)" and ok: "\<not> ok"
            using assms c live fd d empty loop CloseRequested put_same [of ?t fd c]
            by (simp_all add: queueSend_def)
          have st: "conn_step fd (c\<lparr>co_closing := True\<rparr>) (take off d) s s'"
            unfolding s' using conn_step_close(1) [OF c live] .
          then have "sends [(fd, d)] s s'"
            by (rule conn_step_sends [OF _ c live])
               (use okc un take_is_prefix [of off d] in auto)
          moreover have "\<not> alive s' fd" using st by (simp add: conn_step_def alive_def)
          ultimately show ?thesis using ok by simp
        next
          case Finished
          show ?thesis
          proof (cases "off = length d")
            case True
            have "s' = ?t" and ok: "ok"
              using assms c live fd d empty loop Finished True by (simp_all add: queueSend_def)
            then have s': "s' = put_conn fd c ?t" using c by (simp add: put_same)
            have st: "conn_step fd c d s s'"
              unfolding s' using conn_step_put [OF cok c live live refl] True by simp
            then have "sends [(fd, d)] s s'"
              by (rule conn_step_sends [OF _ c live]) (use okc un live in simp)
            moreover have "alive s' fd" using st live by (simp add: conn_step_def alive_def)
            ultimately show ?thesis using ok by simp
          next
            case False
            let ?c = "appendOut (drop off d) c"
            have mask: "EVENT_READ OR EVENT_WRITE = write_mask ?c"
              using appendOut_ok(2) [OF okc, of "drop off d"] False off
              by (simp add: write_mask_def pending_0_iff)
            have s': "s' = reactor_modify (ClientHandler fd) (EVENT_READ OR EVENT_WRITE)
                (put_conn fd ?c ?t)" and ok: "ok"
              using assms c live fd d empty loop Finished False by (simp_all add: queueSend_def)
            have "conn_step fd ?c (take off d) s s'"
              unfolding s' using conn_step_modify(1) [OF cok c _ mask] live by simp
            then have "sends [(fd, d)] s s'"
              by (rule conn_step_sends [OF _ c live])
                 (use appendOut_ok [OF okc, of "drop off d"] live un in simp)
            then show ?thesis using ok live by (simp add: s' alive_put)
          qed
        qed
      qed
    qed
  qed
  then show "sends [(fd, d)] s s'" and "conns_ok s \<Longrightarrow> alive s' fd \<longleftrightarrow> ok"
    by (auto intro: sends_if_ok)
qed

lemma sends_sendResponse:
  assumes "sendResponse fd d s = (ok, s')"
  shows "sends [(fd, d)] s s'" and "conns_ok s \<Longrightarrow> alive s' fd \<longleftrightarrow> ok"
proof -
  have "sends [(fd, d)] s s' \<and> (alive s' fd \<longleftrightarrow> ok)" if cok: "conns_ok s"
  proof (cases "sv_handlers s fd")
    case None
    then have "\<not> alive s fd" by (simp add: alive_def)
    then show ?thesis using None assms by (simp add: sendResponse_def sends_no_effect_dead)
  next
    case (Some c)
    obtain ok1 t where q: "queueSend fd d s = (ok1, t)" by (cases "queueSend fd d s")
    note Q = sends_queueSend(1) [OF q] sends_queueSend(2) [OF q cok]
    show ?thesis
    proof (cases ok1)
      case True
      then show ?thesis using Some assms q Q by (simp add: sendResponse_def)
    next
      case False
      then have "sends ([(fd, d)] @ []) s (queueDisconnect fd t)"
        using Q(2) False sendsD(3) [OF Q(1) cok, of fd] Some
        by (intro sends_trans [OF Q(1)] sends_queueDisconnect) (simp add: failed_iff)
      moreover have "\<not> alive (queueDisconnect fd t) fd"
        using Q(2) False by (simp add: alive_def queueDisconnect_def)
      ultimately show ?thesis using Some assms q False by (auto simp: sendResponse_def)
    qed
  qed
  then show "sends [(fd, d)] s s'" and "conns_ok s \<Longrightarrow> alive s' fd \<longleftrightarrow> ok"
    by (auto intro: sends_if_ok)
qed

lemma sends_response: "sends [(fd, d)] s (snd (sendResponse fd d s))"
  by (cases "sendResponse fd d s") (simp add: sends_sendResponse)

lemma sends_handleWrite: "sends [] s (client_handleWrite fd s)"
proof (rule sends_if_ok)
  assume cok: "conns_ok s"
  show "sends [] s (client_handleWrite fd s)"
  proof (cases "alive s fd")
    case False
    then have "client_handleWrite fd s = s"
      by (auto simp: client_handleWrite_def alive_def split: option.split)
    then show ?thesis by auto
  next
    case True
    then obtain c where c: "sv_handlers s fd = Some c" and live: "\<not> co_closing c"
      by (auto simp: alive_iff)
    note inv = conns_okD [OF cok c, unfolded conn_inv_def]
    obtain ex c' w rs where f: "flushOut (os_send (sv_os s) fd) c [] = (ex, c', w, rs)"
      by (metis prod_cases4)
    have c': "conn_ok c'" "\<not> co_closing c'" "w @ unsent c' = unsent c"
      using flushOut_ok [OF f] inv live by auto
    let ?t = "put_conn fd c' (took fd w rs s)"
    have "sends [(fd, [])] s (client_handleWrite fd s)"
    proof (cases ex)
      case CloseRequested
      then have e: "client_handleWrite fd s = requestClose fd ?t"
        using c live f by (simp add: client_handleWrite_def)
      show ?thesis
        unfolding e
        by (rule conn_step_sends [OF conn_step_close(1) [OF c c'(2)] c live]) (use c' in auto)
    next
      case Finished
      show ?thesis
      proof (cases "pending c' = 0")
        case True
        then have e: "client_handleWrite fd s = reactor_modify (ClientHandler fd) EVENT_READ ?t"
          using c live f Finished c' by (simp add: client_handleWrite_def)
        have "EVENT_READ = write_mask c'" using True by (simp add: write_mask_def)
        then show ?thesis
          unfolding e
          by (intro conn_step_sends [OF conn_step_modify(1) [OF cok c c'(2)] c live])
             (use c' in auto)
      next
        case False
        then have e: "client_handleWrite fd s = ?t"
          using c live f Finished c' by (simp add: client_handleWrite_def)
        have "unsent c \<noteq> []" using False c'(3) by (auto simp: pending_0_iff)
        then have "write_mask c' = write_mask c" using False by (simp add: write_mask_def pending_0_iff)
        then show ?thesis
          unfolding e
          by (intro conn_step_sends [OF conn_step_put [OF cok c live c'(2)] c live])
             (use c' in auto)
      qed
    qed
    then show ?thesis by (simp add: sends_def)
  qed
qed

lemma sends_handleError: "sends [] s (client_handleError fd ev s)"
  by (auto simp: client_handleError_def intro: sends_requestClose split: option.split)

text \<open>The user list goes to one client, or to every online client in ascending order.\<close>

definition user_list_packet :: "u32 \<Rightarrow> server \<Rightarrow> bytes" where
  "user_list_packet sq s = packUserListResponse (os_endian (sv_os s)) sq
     (map user_info (getOnlineClients (sv_clients s)))"

lemma sends_sendUserList:
  "sv_hasClientMgr s \<Longrightarrow> sends [(fd, user_list_packet sq s)] s (sendUserList fd sq s)"
  by (simp add: sendUserList_def user_list_packet_def Let_def sends_response)

definition broadcast :: "server \<Rightarrow> (int \<times> bytes) list" where
  "broadcast s =
     map (\<lambda>info. (ci_fd info, user_list_packet 0 s)) (getOnlineClients (sv_clients s))"

lemma sends_broadcastUserList:
  "sv_hasClientMgr s \<Longrightarrow> sends (broadcast s) s (broadcastUserList s)"
  using sends_fold [of "getOnlineClients (sv_clients s)" "\<lambda>info. [(ci_fd info, user_list_packet 0 s)]"
      "\<lambda>info s'. snd (sendResponse (ci_fd info) (user_list_packet 0 s) s')" s]
  by (auto simp: broadcastUserList_def broadcast_def user_list_packet_def Let_def sends_response
      concat_map_singleton)

end
