(* ===== verification/Chat_Spec.thy ===== *)
theory Chat_Spec
  imports Wire_Format
begin

text \<open>
  What the server promises, without its data structures: a chat room with private
  messages and file transfers between two members. The state says who is online under
  which identity and which transfers exist; a request of a connection changes it and
  causes a list of deliveries. \<open>Server_Refinement\<close> proves that the server's handlers
  implement it.
\<close>

section \<open>Requests\<close>

datatype request =
    HeartbeatReq
  | BadLoginReq
  | LoginReq bytes bytes
  | LogoutReq
  | ChatReq ChatScope bytes bytes u64
  | UserListReq
  | OfferReq bytes bytes u64 bytes
  | OfferAnswer bytes u32 bytes
  | Relay u16 bytes bytes
  | Ignored

text \<open>
  What a message asks for. The fields are read at their offsets on the wire; text is cut
  at the first NUL and to the size of its field, and bytes beyond the structure do not
  matter.
\<close>

definition field_at :: "nat \<Rightarrow> nat \<Rightarrow> bytes \<Rightarrow> bytes" where
  "field_at off n body = clip n (get off n body)"

definition decode_request :: "u16 \<Rightarrow> bytes \<Rightarrow> request" where
  "decode_request ty body =
     (if ty = MSG_HEARTBEAT_REQ then (if body = [] then HeartbeatReq else Ignored)
      else if ty = MSG_LOGIN_REQ then
        (if length body < sizeof_LoginRequest then BadLoginReq
         else LoginReq (field_at 0 32 body) (field_at 32 64 body))
      else if ty = MSG_LOGOUT_REQ then LogoutReq
      else if ty = MSG_CHAT_MSG then
        (if length body < sizeof_ChatMessage then Ignored
         else ChatReq (if body ! 0 = 1 then CHAT_PRIVATE else CHAT_GROUP)
                (field_at 97 32 body) (field_at 137 256 body) (be_word (get 129 8 body)))
      else if ty = MSG_USER_LIST_REQ then UserListReq
      else if ty = MSG_FILE_OFFER then
        (if length body < sizeof_FileOffer then Ignored
         else OfferReq (field_at 0 37 body) (field_at 173 256 body) (be_word (get 165 8 body))
                (field_at 133 32 body))
      else if ty = MSG_FILE_OFFER_RSP then
        (if length body < sizeof_FileOfferResponse then Ignored
         else OfferAnswer (field_at 0 37 body) (be_word (get 37 4 body)) (field_at 41 64 body))
      else if ty = MSG_FILE_DATA \<or> ty = MSG_FILE_DATA_ACK then
        (if length body < 37 then Ignored else Relay ty (field_at 0 37 body) body)
      else Ignored)"

section \<open>Replies\<close>

datatype reply =
    HeartbeatRsp
  | LoginRsp u32 bytes
  | ChatRsp ChatScope bytes bytes bytes bytes u64
  | UserListRsp "(bytes \<times> bytes) list"
  | OfferRsp bytes bytes u64 bytes bytes bytes
  | OfferAnswerRsp bytes u32 bytes
  | RelayRsp u16 bytes

fun encode :: "u32 \<times> reply \<Rightarrow> bytes" where
  "encode (sq, HeartbeatRsp) = wire_message MSG_HEARTBEAT_RSP sq []"
| "encode (sq, LoginRsp r m) = wire_message MSG_LOGIN_RSP sq (wire_login_rsp r m)"
| "encode (sq, ChatRsp sc i n t m ts) = wire_message MSG_CHAT_MSG sq (wire_chat sc i n t m ts)"
| "encode (sq, UserListRsp us) = wire_message MSG_USER_LIST_RSP sq (wire_user_list us)"
| "encode (sq, OfferRsp f nm sz i n t) = wire_message MSG_FILE_OFFER sq (wire_offer f nm sz i n t)"
| "encode (sq, OfferAnswerRsp f r m) = wire_message MSG_FILE_OFFER_RSP sq (wire_offer_rsp f r m)"
| "encode (sq, RelayRsp ty body) = wire_message ty sq body"

type_synonym delivery = "int \<times> u32 \<times> reply"

section \<open>The room\<close>

record chat =
  ch_users :: "int \<rightharpoonup> bytes \<times> bytes"
  ch_files :: "bytes \<rightharpoonup> int \<times> int"

definition online :: "chat \<Rightarrow> int list" where
  "online a = sorted_list_of_set (dom (ch_users a))"

definition user_list :: "chat \<Rightarrow> (bytes \<times> bytes) list" where
  "user_list a = map (\<lambda>g. the (ch_users a g)) (online a)"

definition holder :: "chat \<Rightarrow> bytes \<Rightarrow> int option" where
  "holder a i = find (\<lambda>g. fst (the (ch_users a g)) = i) (online a)"

definition announce :: "chat \<Rightarrow> delivery list" where
  "announce a = map (\<lambda>g. (g, 0, UserListRsp (user_list a))) (online a)"

definition taken :: "(bytes \<times> bytes \<Rightarrow> bytes) \<Rightarrow> bytes \<Rightarrow> int \<Rightarrow> chat \<Rightarrow> bool" where
  "taken key k fd a \<longleftrightarrow> (\<exists>g \<in> set (online a). g \<noteq> fd \<and> key (the (ch_users a g)) = k)"

definition login_result :: "int \<Rightarrow> bytes \<Rightarrow> bytes \<Rightarrow> chat \<Rightarrow> u32" where
  "login_result fd i n a =
     (if i = [] \<or> n = [] then LOGIN_INVALID_PARAM
      else if taken fst i fd a then LOGIN_ALREADY_ONLINE
      else if taken snd n fd a then LOGIN_NICKNAME_TAKEN
      else if 1024 \<le> length (online a) then LOGIN_SERVER_FULL
      else LOGIN_SUCCESS)"

definition login_text :: "u32 \<Rightarrow> string" where
  "login_text r =
     (if r = LOGIN_SUCCESS then ''OK''
      else if r = LOGIN_SERVER_FULL then ''Server full''
      else if r = LOGIN_ALREADY_ONLINE then ''Client already online''
      else if r = LOGIN_NICKNAME_TAKEN then ''Nickname taken''
      else ''Invalid parameters'')"

definition login_reply :: "u32 \<Rightarrow> reply" where
  "login_reply r = LoginRsp r (lit (login_text r))"

text \<open>One request of connection \<open>fd\<close> with sequence number \<open>sq\<close>; \<open>clock\<close> is the time of day.\<close>

fun spec_step :: "u64 \<Rightarrow> int \<Rightarrow> u32 \<Rightarrow> request \<Rightarrow> chat \<Rightarrow> chat \<times> delivery list" where
  "spec_step clock fd sq HeartbeatReq a = (a, [(fd, sq, HeartbeatRsp)])"
| "spec_step clock fd sq BadLoginReq a = (a, [(fd, sq, login_reply LOGIN_INVALID_PARAM)])"
| "spec_step clock fd sq (LoginReq i n) a =
     (let r = login_result fd i n a in
      if r = LOGIN_SUCCESS then
        let a' = a\<lparr>ch_users := (ch_users a)(fd \<mapsto> (i, n))\<rparr>
        in (a', (fd, sq, login_reply r) # announce a')
      else (a, [(fd, sq, login_reply r)]))"
| "spec_step clock fd sq LogoutReq a = (a, [])"
| "spec_step clock fd sq (ChatReq scope toId msg ts) a =
     (a, (case ch_users a fd of
            None \<Rightarrow> []
          | Some (i, n) \<Rightarrow>
              let r = ChatRsp scope i n toId msg (if ts = 0 then clock else ts) in
              (case scope of
                 CHAT_GROUP \<Rightarrow> map (\<lambda>g. (g, sq, r)) (filter (\<lambda>g. g \<noteq> fd) (online a))
               | CHAT_PRIVATE \<Rightarrow>
                   if toId = [] then []
                   else (case holder a toId of None \<Rightarrow> [] | Some g \<Rightarrow> [(g, sq, r)]))))"
| "spec_step clock fd sq UserListReq a =
     (a, (case ch_users a fd of
            None \<Rightarrow> [] | Some u \<Rightarrow> [(fd, sq, UserListRsp (user_list a))]))"
| "spec_step clock fd sq (OfferReq fileId fileName fileSize toId) a =
     (case ch_users a fd of
        None \<Rightarrow> (a, [])
      | Some (i, n) \<Rightarrow>
          if fileId = [] then
            (a, [(fd, sq, OfferAnswerRsp [] FILE_OFFER_DECLINE (lit ''Invalid file id''))])
          else if toId = [] then
            (a, [(fd, sq, OfferAnswerRsp fileId FILE_OFFER_DECLINE (lit ''Target required''))])
          else
            (case holder a toId of
               None \<Rightarrow>
                 (a, [(fd, sq, OfferAnswerRsp fileId FILE_OFFER_BUSY (lit ''Target offline''))])
             | Some g \<Rightarrow>
                 (a\<lparr>ch_files := (ch_files a)(fileId \<mapsto> (fd, g))\<rparr>,
                  [(g, sq, OfferRsp fileId fileName fileSize i n toId)])))"
| "spec_step clock fd sq (OfferAnswer fileId result msg) a =
     (if fileId = [] then (a, [])
      else
        (case ch_files a fileId of
           None \<Rightarrow> (a, [])
         | Some (sender, receiver) \<Rightarrow>
             if receiver \<noteq> fd then (a, [])
             else
               (if result = FILE_OFFER_ACCEPT then a
                else a\<lparr>ch_files := (ch_files a)(fileId := None)\<rparr>,
                [(sender, sq, OfferAnswerRsp fileId result msg)])))"
| "spec_step clock fd sq (Relay ty fileId body) a =
     (a, if fileId = [] then []
         else
           (case ch_files a fileId of
              None \<Rightarrow> []
            | Some (sender, receiver) \<Rightarrow>
                if fd = sender then [(receiver, sq, RelayRsp ty body)]
                else if fd = receiver then [(sender, sq, RelayRsp ty body)]
                else []))"
| "spec_step clock fd sq Ignored a = (a, [])"

text \<open>A connection that ends leaves the room with its transfers.\<close>

definition spec_leave :: "int \<Rightarrow> chat \<Rightarrow> chat" where
  "spec_leave fd a =
     a\<lparr>ch_users := (ch_users a)(fd := None),
       ch_files := (\<lambda>f. case ch_files a f of
          None \<Rightarrow> None
        | Some (x, y) \<Rightarrow> if x = fd \<or> y = fd then None else Some (x, y))\<rparr>"

section \<open>Properties of the specification\<close>

definition distinct_users :: "chat \<Rightarrow> bool" where
  "distinct_users a \<longleftrightarrow>
     (\<forall>f g u v. ch_users a f = Some u \<longrightarrow> ch_users a g = Some v \<longrightarrow>
        fst u = fst v \<or> snd u = snd v \<longrightarrow> f = g)"

definition room_ok :: "chat \<Rightarrow> bool" where
  "room_ok a \<longleftrightarrow>
     finite (dom (ch_users a)) \<and> card (dom (ch_users a)) \<le> 1024 \<and> distinct_users a \<and>
     (\<forall>g u. ch_users a g = Some u \<longrightarrow> fst u \<noteq> [] \<and> snd u \<noteq> [])"

lemma set_online: "finite (dom (ch_users a)) \<Longrightarrow> set (online a) = dom (ch_users a)"
  by (simp add: online_def)

lemma distinct_online: "distinct (online a)"
  by (simp add: online_def)

lemma length_online: "length (online a) = card (dom (ch_users a))"
  by (simp add: online_def)

lemma taken_iff:
  "finite (dom (ch_users a)) \<Longrightarrow>
   taken key k fd a \<longleftrightarrow> (\<exists>g u. g \<noteq> fd \<and> ch_users a g = Some u \<and> key u = k)"
  by (force simp: taken_def set_online)

lemma holder_SomeD:
  assumes "holder a i = Some g" and "finite (dom (ch_users a))"
  shows "\<exists>n. ch_users a g = Some (i, n)"
proof -
  from assms(1) have "g \<in> set (online a)" "fst (the (ch_users a g)) = i"
    by (auto simp: holder_def find_Some_iff)
  with assms(2) show ?thesis by (auto simp: set_online)
qed

lemma holder_unique:
  assumes "room_ok a" and "ch_users a g = Some (i, n)"
  shows "holder a i = Some g"
proof -
  have fin: "finite (dom (ch_users a))" using assms(1) by (simp add: room_ok_def)
  then have "g \<in> set (online a)" using assms(2) by (auto simp: set_online)
  then have "\<exists>g \<in> set (online a). fst (the (ch_users a g)) = i"
    using assms(2) by (intro bexI [of _ g]) simp_all
  then have "holder a i \<noteq> None" by (auto simp: holder_def find_None_iff)
  then obtain h where h: "holder a i = Some h" by blast
  then obtain m where "ch_users a h = Some (i, m)" using holder_SomeD fin by blast
  then have "h = g" using assms by (force simp: room_ok_def distinct_users_def)
  with h show ?thesis by simp
qed

lemma room_ok_login:
  assumes ok: "room_ok a" and r: "login_result fd i n a = LOGIN_SUCCESS"
  shows "room_ok (a\<lparr>ch_users := (ch_users a)(fd \<mapsto> (i, n))\<rparr>)"
proof -
  have fin: "finite (dom (ch_users a))" using ok by (simp add: room_ok_def)
  have free: "i \<noteq> []" "n \<noteq> []" "\<not> taken fst i fd a" "\<not> taken snd n fd a"
    "card (dom (ch_users a)) < 1024"
    using r by (auto simp: login_result_def login_result_defs length_online split: if_splits)
  have "card (insert fd (dom (ch_users a))) \<le> 1024"
    using free(5) fin by (simp add: card_insert_if)
  then show ?thesis
    using ok free fin
    by (auto simp: room_ok_def distinct_users_def taken_iff)
qed

lemma room_ok_leave: "room_ok a \<Longrightarrow> room_ok (spec_leave fd a)"
  by (auto simp: room_ok_def spec_leave_def distinct_users_def card_Diff_singleton_if
      le_diff_conv split: if_splits)

lemma room_ok_step:
  assumes "room_ok a"
  shows "room_ok (fst (spec_step clock fd sq req a))"
proof (cases req)
  case (LoginReq i n)
  then show ?thesis using assms room_ok_login [OF assms] by (simp add: Let_def)
next
  case (OfferReq f nm sz t)
  then show ?thesis using assms
    by (auto simp: room_ok_def distinct_users_def split: option.split)
next
  case (OfferAnswer f r m)
  then show ?thesis using assms
    by (auto simp: room_ok_def distinct_users_def split: option.split)
qed (use assms in simp_all)

end
