(* ===== verification/Server_Refinement.thy ===== *)
theory Server_Refinement
  imports Server_Sending Chat_Spec
begin

text \<open>
  The server's invariant, and the proof that its message handlers implement the room of
  \<open>Chat_Spec\<close>: the same change of the abstract state, and on every connection's output
  the encoded deliveries of the specification, in order.
\<close>

section \<open>The invariant\<close>

text \<open>
  Connections, registry, reactor and file sessions tell the same story: every registered
  client has a connection and the other way round, the reactor knows exactly the listening
  socket and the connections, a transfer's two ends are connected, receive buffers
  belong to connections and hold less than one message of the largest size. The lists of
  descriptors to disconnect hold descriptors, and not that of the listening socket.
\<close>

definition queue_ok :: "int \<Rightarrow> int list \<Rightarrow> bool" where
  "queue_ok listenFd fds \<longleftrightarrow> (\<forall>fd \<in> set fds. 0 \<le> fd \<and> fd \<noteq> listenFd)"

definition links_ok :: "server \<Rightarrow> bool" where
  "links_ok s \<longleftrightarrow>
     registry_ok (sv_clients s) \<and> getOnlineCount (sv_clients s) \<le> kMaxOnlineClients \<and>
     (\<forall>fd. sv_handlers s fd = None \<longleftrightarrow> map_of (sv_clients s) fd = None) \<and>
     findHandler (sv_listenFd s) (sv_reactor s) = Some (ListenHandler (sv_listenFd s)) \<and>
     sv_listenFd s \<in> set (os_open (sv_os s)) \<and>
     (\<forall>fd h. findHandler fd (sv_reactor s) = Some h \<longrightarrow>
        fd = sv_listenFd s \<or> sv_handlers s fd \<noteq> None) \<and>
     (\<forall>f fs. sv_files s f = Some fs \<longrightarrow>
        sv_handlers s (fs_senderFd fs) \<noteq> None \<and> sv_handlers s (fs_receiverFd fs) \<noteq> None) \<and>
     (\<forall>fd b. sv_recvBuffers s fd = Some b \<longrightarrow>
        sv_handlers s fd \<noteq> None \<and> length b < sizeof_MessageHeader + 1048576) \<and>
     queue_ok (sv_listenFd s) (sv_pending s @ sv_disconnecting s @ sv_timedOut s)"

definition server_ok :: "server \<Rightarrow> bool" where
  "server_ok s \<longleftrightarrow> sv_hasReactor s \<and> sv_hasClientMgr s \<and> sv_hasProtocol s \<and>
     conns_ok s \<and> links_ok s"

lemma server_okD:
  assumes "server_ok s"
  shows "sv_hasReactor s" and "sv_hasClientMgr s" and "sv_hasProtocol s" and "conns_ok s"
    and "registry_ok (sv_clients s)" and "getOnlineCount (sv_clients s) \<le> kMaxOnlineClients"
    and "sv_handlers s fd = None \<longleftrightarrow> map_of (sv_clients s) fd = None"
    and "sv_files s f = Some fs \<Longrightarrow>
      sv_handlers s (fs_senderFd fs) \<noteq> None \<and> sv_handlers s (fs_receiverFd fs) \<noteq> None"
    and "sv_recvBuffers s fd = Some b \<Longrightarrow>
      sv_handlers s fd \<noteq> None \<and> length b < sizeof_MessageHeader + 1048576"
  using assms unfolding server_ok_def links_ok_def by blast+

lemma server_ok_queue_ok:
  "server_ok s \<Longrightarrow> queue_ok (sv_listenFd s) (sv_pending s @ sv_disconnecting s @ sv_timedOut s)"
  unfolding server_ok_def links_ok_def by blast

lemma handler_nonneg: "conns_ok s \<Longrightarrow> sv_handlers s fd \<noteq> None \<Longrightarrow> 0 \<le> fd"
  by (auto simp: conns_ok_def conn_inv_def)

section \<open>The abstraction\<close>

definition abs_users :: "clients \<Rightarrow> int \<rightharpoonup> bytes \<times> bytes" where
  "abs_users cs fd =
     (case map_of cs fd of
        None \<Rightarrow> None
      | Some info \<Rightarrow>
          if ci_isOnline info then Some (ci_clientId info, ci_nickname info) else None)"

definition abs_files :: "(bytes \<rightharpoonup> FileSession) \<Rightarrow> bytes \<rightharpoonup> int \<times> int" where
  "abs_files files f = map_option (\<lambda>fs. (fs_senderFd fs, fs_receiverFd fs)) (files f)"

definition abs_chat :: "server \<Rightarrow> chat" where
  "abs_chat s = \<lparr>ch_users = abs_users (sv_clients s), ch_files = abs_files (sv_files s)\<rparr>"

lemma abs_chat_simps [simp]:
  "ch_users (abs_chat s) = abs_users (sv_clients s)"
  "ch_files (abs_chat s) = abs_files (sv_files s)"
  by (simp_all add: abs_chat_def)

lemma online_info_fd:
  "registry_ok cs \<Longrightarrow> info \<in> set (getOnlineClients cs) \<Longrightarrow>
   abs_users cs (ci_fd info) = Some (ci_clientId info, ci_nickname info)"
  by (simp add: getOnlineClients_set abs_users_def)

lemma dom_abs_users:
  assumes "registry_ok cs"
  shows "dom (abs_users cs) = set (map ci_fd (getOnlineClients cs))"
proof (intro equalityI subsetI)
  fix fd assume "fd \<in> dom (abs_users cs)"
  then obtain info where "map_of cs fd = Some info" "ci_isOnline info"
    by (auto simp: abs_users_def dom_def split: option.splits if_splits)
  moreover have "ci_fd info = fd"
    using calculation(1) registry_okD(2) [OF assms] in_clients_iff [OF assms]
    by (fastforce simp: entry_ok_def)
  ultimately show "fd \<in> set (map ci_fd (getOnlineClients cs))"
    by (auto simp: getOnlineClients_set [OF assms] image_iff intro!: exI [of _ info])
qed (auto simp: online_info_fd [OF assms])

lemma online_abs:
  assumes "registry_ok (sv_clients s)"
  shows "online (abs_chat s) = map ci_fd (getOnlineClients (sv_clients s))"
proof -
  have "sorted (map ci_fd (getOnlineClients (sv_clients s)))"
    and "distinct (map ci_fd (getOnlineClients (sv_clients s)))"
    using getOnlineClients_sorted [OF assms] strict_sorted_iff by blast+
  then show ?thesis
    by (simp add: online_def dom_abs_users [OF assms] del: set_map
        add: sorted_list_of_set.idem_if_sorted_distinct)
qed

lemma user_list_abs:
  assumes "registry_ok (sv_clients s)"
  shows "user_list (abs_chat s) =
    map (\<lambda>info. (ci_clientId info, ci_nickname info)) (getOnlineClients (sv_clients s))"
  using assms by (simp add: user_list_def online_abs online_info_fd)

lemma getOnlineCount_abs:
  "registry_ok (sv_clients s) \<Longrightarrow>
   getOnlineCount (sv_clients s) = length (online (abs_chat s))"
  by (simp add: getOnlineCount_eq online_abs)

lemma finite_abs: "registry_ok cs \<Longrightarrow> finite (dom (abs_users cs))"
  by (simp add: dom_abs_users)

lemma abs_users_lookup:
  "getClientInfo fd cs = Some info \<Longrightarrow>
   abs_users cs fd =
     (if ci_isOnline info then Some (ci_clientId info, ci_nickname info) else None)"
  by (simp add: abs_users_def getClientInfo_def)

lemma abs_users_Some:
  "abs_users cs fd = Some (i, n) \<longleftrightarrow>
   (\<exists>info. map_of cs fd = Some info \<and> ci_isOnline info \<and> ci_clientId info = i \<and>
     ci_nickname info = n)"
  by (auto simp: abs_users_def split: option.split)

lemma taken_abs:
  assumes "registry_ok (sv_clients s)"
  shows "i \<noteq> [] \<Longrightarrow> isClientIdOnline i fd (sv_clients s) = taken fst i fd (abs_chat s)"
    and "n \<noteq> [] \<Longrightarrow> isNicknameOnline n fd (sv_clients s) = taken snd n fd (abs_chat s)"
  using in_clients_iff [OF assms]
  by (auto simp: isClientIdOnline_iff isNicknameOnline_iff taken_iff finite_abs [OF assms]
      abs_users_Some)

lemma room_ok_abs:
  assumes "server_ok s"
  shows "room_ok (abs_chat s)"
proof -
  note r = server_okD(5) [OF assms]
  have u: "f = g" if "abs_users (sv_clients s) f = Some u" "abs_users (sv_clients s) g = Some v"
    "fst u = fst v \<or> snd u = snd v" for f g u v
  proof -
    obtain a b where "map_of (sv_clients s) f = Some a" "ci_isOnline a" "u = (ci_clientId a, ci_nickname a)"
      "map_of (sv_clients s) g = Some b" "ci_isOnline b" "v = (ci_clientId b, ci_nickname b)"
      using \<open>abs_users (sv_clients s) f = Some u\<close> \<open>abs_users (sv_clients s) g = Some v\<close>
      by (cases u, cases v) (auto simp: abs_users_Some)
    then show ?thesis
      using that(3) registry_okD(3,4) [OF r] in_clients_iff [OF r] by (metis fst_conv snd_conv unique_onlineD)
  qed
  have ne: "fst u \<noteq> [] \<and> snd u \<noteq> []" if "abs_users (sv_clients s) g = Some u" for g u
    using that registry_okD(2) [OF r] in_clients_iff [OF r]
    by (cases u) (fastforce simp: abs_users_Some entry_ok_def)
  show ?thesis
    using u ne finite_abs [OF r] server_okD(6) [OF assms] length_online [of "abs_chat s"]
      getOnlineCount_abs [OF r]
    unfolding room_ok_def distinct_users_def kMaxOnlineClients_def abs_chat_simps by metis
qed

lemma holder_abs:
  assumes ok: "server_ok s" and i: "i \<noteq> []"
  shows "getFdByClientId i (sv_clients s) =
    (case holder (abs_chat s) i of None \<Rightarrow> -1 | Some g \<Rightarrow> g)"
  using getFdByClientId_cases [OF server_okD(5) [OF ok], of i]
proof (elim disjE conjE exE)
  assume none: "\<forall>fd info. map_of (sv_clients s) fd = Some info \<longrightarrow> ci_isOnline info \<longrightarrow>
      ci_clientId info \<noteq> i" and "getFdByClientId i (sv_clients s) = - 1"
  have "holder (abs_chat s) i = None"
  proof (rule ccontr)
    assume "holder (abs_chat s) i \<noteq> None"
    then obtain g where "holder (abs_chat s) i = Some g" by blast
    then obtain n where "abs_users (sv_clients s) g = Some (i, n)"
      using holder_SomeD finite_abs [OF server_okD(5) [OF ok]] by fastforce
    with none show False by (auto simp: abs_users_Some)
  qed
  then show ?thesis using \<open>getFdByClientId i (sv_clients s) = - 1\<close> by simp
next
  fix fd info
  assume a: "getFdByClientId i (sv_clients s) = fd" "map_of (sv_clients s) fd = Some info"
    "ci_isOnline info" "ci_clientId info = i"
  then have "abs_users (sv_clients s) fd = Some (i, ci_nickname info)" by (simp add: abs_users_def)
  then have "holder (abs_chat s) i = Some fd"
    using holder_unique [OF room_ok_abs [OF ok]] by simp
  then show ?thesis using a by simp
qed

section \<open>Reading requests\<close>

lemma field_read:
  "off + n \<le> length body \<Longrightarrow> 0 < n \<Longrightarrow>
   field_string (terminate (get off n body)) = field_at off n body"
  using field_string_terminate_clip [of "get off n body"]
  by (cases "get off n body = []") (auto simp: field_at_def simp del: get_0 dest: length_get)

lemma parse_login_at:
  "sizeof_LoginRequest \<le> length body \<Longrightarrow> parseLoginRequest body =
     Some \<lparr>lrq_clientId = terminate (get 0 32 body), lrq_nickname = terminate (get 32 64 body)\<rparr>"
  by (simp add: parseLoginRequest_def LoginRequest_load_def)

lemma parse_chat_at:
  "sizeof_ChatMessage \<le> length body \<Longrightarrow> \<exists>msg. parseChatMessage e body = Some msg \<and>
     cm_chatType msg = body ! 0 \<and> cm_toId msg = terminate (get 97 32 body) \<and>
     cm_message msg = terminate (get 137 256 body) \<and> cm_timestamp msg = be_word (get 129 8 body)"
  by (simp add: parseChatMessage_def ChatMessage_load_def Let_def networkToHost64_mem_word)

lemma parse_offer_at:
  "sizeof_FileOffer \<le> length body \<Longrightarrow> \<exists>off. parseFileOffer e body = Some off \<and>
     fo_fileId off = terminate (get 0 37 body) \<and> fo_fileName off = terminate (get 173 256 body) \<and>
     fo_toId off = terminate (get 133 32 body) \<and> fo_fileSize off = be_word (get 165 8 body)"
  by (simp add: parseFileOffer_def FileOffer_load_def Let_def networkToHost64_mem_word)

lemma parse_answer_at:
  "sizeof_FileOfferResponse \<le> length body \<Longrightarrow> \<exists>rsp. parseFileOfferResponse e body = Some rsp \<and>
     fr_fileId rsp = terminate (get 0 37 body) \<and> fr_result rsp = be_word (get 37 4 body) \<and>
     fr_message rsp = terminate (get 41 64 body)"
  by (simp add: parseFileOfferResponse_def FileOfferResponse_load_def Let_def ntoh_mem_word)

lemma extractFileId_at:
  "extractFileId body = (if length body < 37 then [] else field_at 0 37 body)"
  using field_read [of 0 37 body]
  by (simp add: extractFileId_def kFileIdSize_def field_string_def)

section \<open>Implementing a step of the room\<close>

fun deliver :: "delivery \<Rightarrow> int \<times> bytes" where
  "deliver (g, m) = (g, encode m)"

text \<open>What no message handler touches.\<close>

definition outer :: "server \<Rightarrow> server" where
  "outer s = (frame s)\<lparr>sv_clients := [], sv_files := (\<lambda>_. None)\<rparr>"

definition implements ::
    "chat \<Rightarrow> delivery list \<Rightarrow> int set \<Rightarrow> server \<Rightarrow> server \<Rightarrow> bool" where
  "implements a' outs leaving s s' \<longleftrightarrow>
     server_ok s' \<and> abs_chat s' = a' \<and> outer s' = outer s \<and>
     (\<forall>fd. sv_handlers s' fd = None \<longleftrightarrow> sv_handlers s fd = None) \<and>
     (\<forall>g. out_grows s s' g (bytes_to g (map deliver outs))) \<and>
     (\<exists>fds. sv_pending s' = sv_pending s @ fds \<and> (\<forall>fd \<in> set fds. failed s' fd \<or> fd \<in> leaving))"

definition handled ::
    "clients \<Rightarrow> (bytes \<rightharpoonup> FileSession) \<Rightarrow> (int \<times> bytes) list \<Rightarrow> server \<Rightarrow> server \<Rightarrow> bool" where
  "handled cl fs outs s s' \<longleftrightarrow>
     (\<exists>t. sends outs (s\<lparr>sv_clients := cl\<rparr>) t \<and> s' = t\<lparr>sv_files := fs\<rparr>)"

lemma room_fields_irrelevant [simp]:
  "conns_ok (s\<lparr>sv_clients := cl\<rparr>) = conns_ok s" "conns_ok (s\<lparr>sv_files := fs\<rparr>) = conns_ok s"
  "failed (s\<lparr>sv_clients := cl\<rparr>) = failed s" "failed (s\<lparr>sv_files := fs\<rparr>) = failed s"
  "alive (s\<lparr>sv_clients := cl\<rparr>) = alive s" "alive (s\<lparr>sv_files := fs\<rparr>) = alive s"
  "out_stream (s\<lparr>sv_clients := cl\<rparr>) = out_stream s" "out_stream (s\<lparr>sv_files := fs\<rparr>) = out_stream s"
  "out_grows (s\<lparr>sv_clients := cl\<rparr>) s' = out_grows s s'"
  "out_grows s (s'\<lparr>sv_files := fs\<rparr>) = out_grows s s'"
  "out_grows (s\<lparr>sv_files := fs\<rparr>) s' = out_grows s s'"
  by (simp_all add: conns_ok_def conn_inv_def alive_def failed_def out_stream_def
      out_grows_def fun_eq_iff)

lemma frame_room [simp]:
  "frame (s\<lparr>sv_clients := cl\<rparr>) = (frame s)\<lparr>sv_clients := cl\<rparr>"
  "frame (s\<lparr>sv_files := fs\<rparr>) = (frame s)\<lparr>sv_files := fs\<rparr>"
  by (simp_all add: frame_def)

text \<open>Sending does not look at the file sessions.\<close>

lemma handled_files_first:
  assumes "sends outs (s\<lparr>sv_files := fs\<rparr>) s'"
    and "conns_ok s"
  shows "handled (sv_clients s) fs outs s s'"
proof -
  note A = sendsD [OF assms(1)]
  let ?t = "s'\<lparr>sv_files := sv_files s\<rparr>"
  have "(frame s)\<lparr>sv_files := sv_files s\<rparr> = frame s"
    by (cases s) (simp add: frame_def)
  then have "frame ?t = frame s" using A(2) assms(2) by simp
  then have "sends outs s ?t"
    using A assms(2) by (simp add: sends_def)
  moreover have "sv_files s' = fs"
    using frameD(8) [OF A(2)] assms(2) by simp
  ultimately show ?thesis
    by (auto simp: handled_def intro!: exI [of _ ?t])
qed

lemma handled_server_ok:
  assumes ok: "server_ok s" and h: "handled cl fs outs s s'"
    and reg: "registry_ok cl" "getOnlineCount cl \<le> kMaxOnlineClients"
    and same: "\<And>fd. map_of cl fd = None \<longleftrightarrow> map_of (sv_clients s) fd = None"
    and files: "\<And>f x. fs f = Some x \<Longrightarrow>
      sv_handlers s (fs_senderFd x) \<noteq> None \<and> sv_handlers s (fs_receiverFd x) \<noteq> None"
  shows "server_ok s'"
proof -
  from h obtain t where t: "sends outs (s\<lparr>sv_clients := cl\<rparr>) t"
    and s': "s' = t\<lparr>sv_files := fs\<rparr>" by (auto simp: handled_def)
  have "conns_ok (s\<lparr>sv_clients := cl\<rparr>)" using server_okD(4) [OF ok] by simp
  note T = sendsD [OF t this]
  note F = frameD [OF T(2)]
  have h': "sv_handlers s' fd = None \<longleftrightarrow> sv_handlers s fd = None" for fd
    using T(3) by (simp add: s')
  have f': "findHandler fd (sv_reactor s') = findHandler fd (sv_reactor s)" for fd
    using T(4) by (simp add: s')
  have F': "sv_clients s' = cl" "sv_files s' = fs" "sv_listenFd s' = sv_listenFd s"
    "sv_recvBuffers s' = sv_recvBuffers s" "os_open (sv_os s') = os_open (sv_os s)"
    "sv_disconnecting s' = sv_disconnecting s" "sv_timedOut s' = sv_timedOut s"
    using F by (simp_all add: s')
  have "queue_ok (sv_listenFd s) (sv_pending s' @ sv_disconnecting s @ sv_timedOut s)"
  proof -
    obtain fds where fds: "sv_pending s' = sv_pending s @ fds" "\<forall>fd \<in> set fds. failed t fd"
      using T(6) by (auto simp: s')
    have "0 \<le> fd \<and> fd \<noteq> sv_listenFd s" if "failed t fd" for fd
      using conns_okD [OF T(1), of fd] F(2) that
      by (auto simp: failed_def conn_inv_def split: option.splits)
    then show ?thesis
      using fds server_ok_queue_ok [OF ok] by (auto simp: queue_ok_def)
  qed
  note pend = this
  have "links_ok s'"
    unfolding links_ok_def F' f' h'
    using ok [unfolded server_ok_def links_ok_def] reg same files pend by blast
  then show "server_ok s'"
    using ok F T(1) by (simp add: server_ok_def s')
qed

lemma handled_implements:
  assumes ok: "server_ok s" and h: "handled cl fs (map deliver outs) s s'"
    and reg: "registry_ok cl" "getOnlineCount cl \<le> kMaxOnlineClients"
    and same: "\<And>fd. map_of cl fd = None \<longleftrightarrow> map_of (sv_clients s) fd = None"
    and files: "\<And>f x. fs f = Some x \<Longrightarrow>
      sv_handlers s (fs_senderFd x) \<noteq> None \<and> sv_handlers s (fs_receiverFd x) \<noteq> None"
  shows "implements \<lparr>ch_users = abs_users cl, ch_files = abs_files fs\<rparr> outs {} s s'"
proof -
  from h obtain t where t: "sends (map deliver outs) (s\<lparr>sv_clients := cl\<rparr>) t"
    and s': "s' = t\<lparr>sv_files := fs\<rparr>" by (auto simp: handled_def)
  have "conns_ok (s\<lparr>sv_clients := cl\<rparr>)" using server_okD(4) [OF ok] by simp
  note T = sendsD [OF t this]
  have "outer s' = outer s" using T(2) by (simp add: s' outer_def)
  then show ?thesis
    using handled_server_ok [OF ok h reg same files] T(3,5,6) frameD(6) [OF T(2)]
    by (simp add: implements_def abs_chat_def s')
qed

text \<open>Sending alone keeps the invariant, whatever is sent.\<close>

lemma server_ok_sends:
  assumes ok: "server_ok s" and s: "sends outs s s'"
  shows "server_ok s'"
proof -
  have "handled (sv_clients s) (sv_files s) outs s s'"
    using handled_files_first [where fs = "sv_files s" and s = s] s server_okD(4) [OF ok] by simp
  then show ?thesis
    by (rule handled_server_ok [OF ok]) (use server_okD [OF ok] in simp_all)
qed

lemma sends_implements:
  assumes "server_ok s" and "sends (map deliver outs) s s'"
  shows "implements (abs_chat s) outs {} s s'"
proof -
  have "handled (sv_clients s) (sv_files s) (map deliver outs) s s'"
    using handled_files_first [where fs = "sv_files s" and s = s] assms server_okD(4) [OF assms(1)] by simp
  then show ?thesis
    using handled_implements [OF assms(1)] server_okD [OF assms(1)]
    by (simp add: abs_chat_def)
qed

lemma sends_one:
  "server_ok s \<Longrightarrow> sends [(g, encode m)] s s' \<Longrightarrow> implements (abs_chat s) [(g, m)] {} s s'"
  using sends_implements [of s "[(g, m)]" s'] by simp

lemma nothing_done: "server_ok s \<Longrightarrow> implements (abs_chat s) [] {} s s"
  using sends_implements [of s "[]" s] by auto

lemma handled_clients:
  assumes "sends outs (s\<lparr>sv_clients := cl\<rparr>) s'" and "conns_ok s"
  shows "handled cl (sv_files s) outs s s'"
proof -
  have "sv_files s' = sv_files s" using frameD(8) [OF sendsD(2) [OF assms(1)]] assms(2) by simp
  then have "s' = s'\<lparr>sv_files := sv_files s\<rparr>" by (cases s') simp
  with assms(1) show ?thesis by (auto simp: handled_def)
qed

lemma handled_files_last:
  "sends outs s t \<Longrightarrow> handled (sv_clients s) fs outs s (t\<lparr>sv_files := fs\<rparr>)"
  by (auto simp: handled_def)

lemma getOnlineCount_card:
  assumes "registry_ok cs"
  shows "getOnlineCount cs = card (dom (abs_users cs))"
proof -
  have "distinct (map ci_fd (getOnlineClients cs))"
    using getOnlineClients_sorted [OF assms] strict_sorted_iff by blast
  then show ?thesis
    by (metis dom_abs_users [OF assms] distinct_card getOnlineCount_eq length_map)
qed

section \<open>The handlers\<close>

lemma implements_heartbeat:
  assumes ok: "server_ok s" and fd: "sv_handlers s fd \<noteq> None"
  shows "implements (abs_chat s) (if body = [] then [(fd, sequence h, HeartbeatRsp)] else []) {}
    s (handleHeartbeat fd h body s)"
proof (cases "body = []")
  case False
  then show ?thesis using nothing_done [OF ok] by (simp add: handleHeartbeat_def)
next
  case True
  let ?cl = "updateHeartbeat (os_now (sv_os s)) fd (sv_clients s)"
  note r = server_okD(5) [OF ok] and r' = registry_ok_updateHeartbeat [OF server_okD(5) [OF ok]]
  have m: "map_of ?cl g = None \<longleftrightarrow> map_of (sv_clients s) g = None" for g
    by (auto simp: updateHeartbeat_def split: option.split)
  have a: "abs_users ?cl = abs_users (sv_clients s)"
    by (auto simp: abs_users_def fun_eq_iff updateHeartbeat_def split: option.split)
  have "sends [(fd, encode (sequence h, HeartbeatRsp))] (s\<lparr>sv_clients := ?cl\<rparr>)
      (handleHeartbeat fd h body s)"
    using True by (simp add: handleHeartbeat_def pack_simps sends_response)
  then have "handled ?cl (sv_files s) (map deliver [(fd, sequence h, HeartbeatRsp)]) s
      (handleHeartbeat fd h body s)"
    using handled_clients server_okD(4) [OF ok] by simp
  from handled_implements [OF ok this r' _ m] show ?thesis
    using server_okD(6) [OF ok] server_okD(8) [OF ok] True
    by (simp add: getOnlineCount_card [OF r'] getOnlineCount_card [OF r] a abs_chat_def)
qed

lemma reply_login_sends:
  "sends [(fd, encode (sq, LoginRsp r (lit msg)))] s (reply_login fd sq r msg s)"
  by (simp add: reply_login_def pack_simps sends_response)

lemma user_list_packet_abs:
  "registry_ok (sv_clients s) \<Longrightarrow>
   user_list_packet sq s = encode (sq, UserListRsp (user_list (abs_chat s)))"
proof -
  assume r: "registry_ok (sv_clients s)"
  have "user_info info = user_entry (ci_clientId info, ci_nickname info)" for info
    by (simp add: user_info_def user_entry_def pack_simps)
  then have "map user_info (getOnlineClients (sv_clients s)) = map user_entry (user_list (abs_chat s))"
    by (simp add: user_list_abs [OF r])
  then show ?thesis by (simp add: user_list_packet_def packUserListResponse_wire)
qed

lemma broadcast_abs:
  "registry_ok (sv_clients s) \<Longrightarrow> broadcast s = map deliver (announce (abs_chat s))"
  by (simp add: broadcast_def announce_def online_abs user_list_packet_abs)

lemma abs_users_login:
  "map_of cs fd = Some info \<Longrightarrow>
   abs_users (snd (setClientIdentity fd i n cs)) = (abs_users cs)(fd \<mapsto> (i, n))"
  by (auto simp: abs_users_def setClientIdentity_def fun_eq_iff)

lemma implements_login:
  assumes ok: "server_ok s" and fd: "sv_handlers s fd \<noteq> None" and len: "sizeof_LoginRequest \<le> length body"
    and step: "spec_step clock fd (sequence h) (LoginReq (field_at 0 32 body) (field_at 32 64 body))
      (abs_chat s) = (a', outs)"
  shows "implements a' outs {} s (handleLogin fd h body s)"
proof -
  define i where "i = field_at 0 32 body"
  define n where "n = field_at 32 64 body"
  note r = server_okD(5) [OF ok] and parse = parse_login_at [OF len]
  have fields: "field_string (terminate (get 0 32 body)) = i" "field_string (terminate (get 32 64 body)) = n"
    using len by (simp_all add: field_read i_def n_def del: get_0)
  obtain info where info: "map_of (sv_clients s) fd = Some info"
    using server_okD(7) [OF ok, of fd] fd by auto
  have full: "kMaxOnlineClients \<le> getOnlineCount (sv_clients s) \<longleftrightarrow> 1024 \<le> length (online (abs_chat s))"
    by (simp add: kMaxOnlineClients_def getOnlineCount_abs [OF r])
  show ?thesis
  proof (cases "login_result fd i n (abs_chat s) = LOGIN_SUCCESS")
    case False
    then have a': "a' = abs_chat s"
      "outs = [(fd, sequence h, login_reply (login_result fd i n (abs_chat s)))]"
      using step by (auto simp: Let_def i_def n_def)
    have "handleLogin fd h body s = reply_login fd (sequence h) (login_result fd i n (abs_chat s))
        (login_text (login_result fd i n (abs_chat s))) s"
      using False fields taken_abs [OF r] full
      by (auto simp: handleLogin_def parse login_result_def login_text_def login_result_defs Let_def
          simp del: get_0)
    then show ?thesis
      unfolding a' using sends_one [OF ok] reply_login_sends by (simp add: login_reply_def)
  next
    case True
    let ?cl = "snd (setClientIdentity fd i n (sv_clients s))"
    let ?s1 = "s\<lparr>sv_clients := ?cl\<rparr>"
    let ?s2 = "reply_login fd (sequence h) LOGIN_SUCCESS ''OK'' ?s1"
    have free: "i \<noteq> []" "n \<noteq> []" "\<not> isClientIdOnline i fd (sv_clients s)"
      "\<not> isNicknameOnline n fd (sv_clients s)" "\<not> kMaxOnlineClients \<le> getOnlineCount (sv_clients s)"
      using True taken_abs [OF r] full
      by (auto simp: login_result_def login_result_defs split: if_splits)
    have run: "handleLogin fd h body s = broadcastUserList ?s2"
      using free fields info
      by (simp add: handleLogin_def parse Let_def setClientIdentity_def del: get_0)
    have clip: "clip 32 i = i" "clip 64 n = n" by (simp_all add: i_def n_def field_at_def)
    have r': "registry_ok ?cl"
      using free clip r by (intro registry_ok_setClientIdentity)
    have abs: "abs_users ?cl = (abs_users (sv_clients s))(fd \<mapsto> (i, n))"
      using info by (rule abs_users_login)
    have count: "getOnlineCount ?cl \<le> kMaxOnlineClients"
      using free(5) getOnlineCount_card [OF r] finite_abs [OF r]
      by (simp add: getOnlineCount_card [OF r'] abs card_insert_if)
    have m: "map_of ?cl g = None \<longleftrightarrow> map_of (sv_clients s) g = None" for g
      using info by (simp add: setClientIdentity_def)
    define b where "b = (abs_chat s)\<lparr>ch_users := (abs_users (sv_clients s))(fd \<mapsto> (i, n))\<rparr>"
    have a': "a' = b" "outs = (fd, sequence h, login_reply LOGIN_SUCCESS) # announce b"
      using step True by (auto simp: Let_def i_def n_def b_def)
    have "sends ([(fd, encode (sequence h, login_reply LOGIN_SUCCESS))] @ map deliver (announce b)) ?s1
        (broadcastUserList ?s2)"
    proof (rule sends_if_ok)
      assume ok1: "conns_ok ?s1"
      have first: "sends [(fd, encode (sequence h, login_reply LOGIN_SUCCESS))] ?s1 ?s2"
        using reply_login_sends [of fd "sequence h" LOGIN_SUCCESS "''OK''" ?s1]
        by (simp add: login_reply_def login_text_def)
      note F = frameD [OF sendsD(2) [OF first ok1]]
      have "abs_chat ?s2 = b" using F by (simp add: abs_chat_def b_def abs)
      then have "broadcast ?s2 = map deliver (announce b)"
        using broadcast_abs [of ?s2] F r' by simp
      then have "sends (map deliver (announce b)) ?s2 (broadcastUserList ?s2)"
        using sends_broadcastUserList [of ?s2] F server_okD(2) [OF ok] by simp
      with first show "sends ([(fd, encode (sequence h, login_reply LOGIN_SUCCESS))] @
          map deliver (announce b)) ?s1 (broadcastUserList ?s2)" by (rule sends_trans)
    qed
    then have "handled ?cl (sv_files s) (map deliver outs) s (handleLogin fd h body s)"
      unfolding run using handled_clients server_okD(4) [OF ok] by (simp add: a')
    from handled_implements [OF ok this r' count m server_okD(8) [OF ok]] show ?thesis
      unfolding a' by (simp add: b_def abs abs_chat_def)
  qed
qed

lemma online_sender_abs:
  assumes "server_ok s"
  shows "online_sender fd s = None \<longleftrightarrow> abs_users (sv_clients s) fd = None"
    and "online_sender fd s = Some info \<Longrightarrow>
      abs_users (sv_clients s) fd = Some (ci_clientId info, ci_nickname info)"
  using server_okD(2) [OF assms]
  by (auto simp: online_sender_def abs_users_def getClientInfo_def split: option.splits if_splits)

lemma implements_user_list:
  assumes ok: "server_ok s"
    and step: "spec_step clock fd (sequence h) UserListReq (abs_chat s) = (a', outs)"
  shows "implements a' outs {} s (handleUserListRequest fd h s)"
proof -
  have run: "handleUserListRequest fd h s =
      (case abs_users (sv_clients s) fd of None \<Rightarrow> s | Some u \<Rightarrow> sendUserList fd (sequence h) s)"
    using server_okD(2) [OF ok]
    by (auto simp: handleUserListRequest_def abs_users_def getClientInfo_def split: option.split)
  show ?thesis
    using step nothing_done [OF ok] sends_one [OF ok]
      sends_sendUserList [OF server_okD(2) [OF ok], of fd "sequence h"]
    by (auto simp: run user_list_packet_abs [OF server_okD(5) [OF ok]] split: option.splits)
qed

text \<open>Relaying to all but one of the online clients.\<close>

lemma sends_group:
  "sends (map (\<lambda>g. (g, d)) (filter (\<lambda>g. g \<noteq> fd) (map ci_fd infos))) s
     (fold (\<lambda>target s. if ci_fd target = fd then s else snd (sendResponse (ci_fd target) d s)) infos s)"
proof -
  have "map (\<lambda>g. (g, d)) (filter (\<lambda>g. g \<noteq> fd) (map ci_fd infos)) =
      concat (map (\<lambda>x. if ci_fd x = fd then [] else [(ci_fd x, d)]) infos)"
    by (induction infos) simp_all
  then show ?thesis
    by (simp only:) (rule sends_fold, auto intro: sends_response)
qed

lemma holder_connected:
  assumes ok: "server_ok s" and h: "holder (abs_chat s) i = Some g"
  shows "0 \<le> g" and "sv_handlers s g \<noteq> None"
proof -
  obtain n where "abs_users (sv_clients s) g = Some (i, n)"
    using holder_SomeD [OF h] finite_abs [OF server_okD(5) [OF ok]] by auto
  then have "map_of (sv_clients s) g \<noteq> None" by (auto simp: abs_users_Some)
  then show "sv_handlers s g \<noteq> None" using server_okD(7) [OF ok, of g] by simp
  then show "0 \<le> g" by (rule handler_nonneg [OF server_okD(4) [OF ok]])
qed

lemma implements_chat:
  assumes ok: "server_ok s" and len: "sizeof_ChatMessage \<le> length body"
    and step: "spec_step (os_epoch (sv_os s)) fd (sequence h)
      (ChatReq (if body ! 0 = 1 then CHAT_PRIVATE else CHAT_GROUP)
         (field_at 97 32 body) (field_at 137 256 body) (be_word (get 129 8 body)))
      (abs_chat s) = (a', outs)"
  shows "implements a' outs {} s (handleChatMessage fd h body s)"
proof -
  obtain msg where parse: "parseChatMessage (os_endian (sv_os s)) body = Some msg"
    and msg: "cm_chatType msg = body ! 0" "field_string (cm_toId msg) = field_at 97 32 body"
      "field_string (cm_message msg) = field_at 137 256 body" "cm_timestamp msg = be_word (get 129 8 body)"
    using parse_chat_at [OF len, of "os_endian (sv_os s)"] len by (auto simp: field_read)
  show ?thesis
  proof (cases "online_sender fd s")
    case None
    then show ?thesis
      using step online_sender_abs(1) [OF ok, of fd] nothing_done [OF ok]
      by (auto simp: handleChatMessage_def parse)
  next
    case (Some info)
    note user = online_sender_abs(2) [OF ok Some]
    show ?thesis
    proof (cases "body ! 0 = 1")
      case False
      have "sends (map deliver outs) s (handleChatMessage fd h body s)"
        using step False user online_abs [OF server_okD(5) [OF ok]]
        by (cases "be_word (get 129 8 body) = (0 :: u64)")
          (auto simp: handleChatMessage_def parse msg Some Let_def pack_simps comp_def
            intro: sends_group)
      moreover have "a' = abs_chat s" using step by auto
      ultimately show ?thesis using sends_implements [OF ok] by simp
    next
      case True
      have nn: "\<not> g < 0" if "holder (abs_chat s) (field_at 97 32 body) = Some g" for g
        using holder_connected [OF ok that] by simp
      show ?thesis
        using step True user holder_abs [OF ok] nn nothing_done [OF ok] sends_one [OF ok] sends_response
        by (auto simp: handleChatMessage_def parse msg Some Let_def pack_simps split: option.splits if_splits)
    qed
  qed
qed


lemma reply_offer_sends:
  "sends [(fd, encode (sq, OfferAnswerRsp f r m))] s (reply_offer fd sq f r m s)"
  by (simp add: reply_offer_def pack_simps sends_response)

lemma abs_files_simps:
  "abs_files (fs(f \<mapsto> x)) = (abs_files fs)(f \<mapsto> (fs_senderFd x, fs_receiverFd x))"
  "abs_files (fs(f := None)) = (abs_files fs)(f := None)"
  by (simp_all add: abs_files_def fun_eq_iff)

text \<open>A handler that changes the sessions only.\<close>

lemma handled_sessions:
  assumes ok: "server_ok s" and h: "handled (sv_clients s) fs (map deliver outs) s s'"
    and files: "\<And>f x. fs f = Some x \<Longrightarrow>
      sv_handlers s (fs_senderFd x) \<noteq> None \<and> sv_handlers s (fs_receiverFd x) \<noteq> None"
  shows "implements ((abs_chat s)\<lparr>ch_files := abs_files fs\<rparr>) outs {} s s'"
  using handled_implements [OF ok h server_okD(5,6) [OF ok] refl files]
  by (simp add: abs_chat_def)

lemma implements_offer:
  assumes ok: "server_ok s" and fd: "sv_handlers s fd \<noteq> None"
    and len: "sizeof_FileOffer \<le> length body"
    and step: "spec_step clock fd (sequence h)
      (OfferReq (field_at 0 37 body) (field_at 173 256 body) (be_word (get 165 8 body))
         (field_at 133 32 body)) (abs_chat s) = (a', outs)"
  shows "implements a' outs {} s (handleFileOffer fd h body s)"
proof -
  define f where "f = field_at 0 37 body"
  define nm where "nm = field_at 173 256 body"
  define t where "t = field_at 133 32 body"
  define sz where "sz = (be_word (get 165 8 body) :: u64)"
  obtain offer where parse: "parseFileOffer (os_endian (sv_os s)) body = Some offer"
    and fields: "field_string (fo_fileId offer) = f" "field_string (fo_fileName offer) = nm"
      "field_string (fo_toId offer) = t" "fo_fileSize offer = sz"
    using parse_offer_at [OF len, of "os_endian (sv_os s)"] len
    by (auto simp: field_read f_def nm_def t_def sz_def simp del: get_0)
  note step = step [folded f_def nm_def t_def sz_def]
  show ?thesis
  proof (cases "online_sender fd s")
    case None
    then show ?thesis
      using step online_sender_abs(1) [OF ok, of fd] nothing_done [OF ok]
      by (auto simp: handleFileOffer_def parse)
  next
    case (Some info)
    note user = online_sender_abs(2) [OF ok Some]
    show ?thesis
    proof (cases "f \<noteq> [] \<and> t \<noteq> [] \<and> holder (abs_chat s) t \<noteq> None")
      case False
      then show ?thesis
        using step user holder_abs [OF ok, of t] sends_one [OF ok] reply_offer_sends
        by (auto simp: handleFileOffer_def parse fields Some Let_def split: if_splits)
    next
      case True
      then obtain g where g: "holder (abs_chat s) t = Some g" by blast
      then have tfd: "getFdByClientId t (sv_clients s) = g" "\<not> g < 0" "sv_handlers s g \<noteq> None"
        using holder_abs [OF ok, of t] holder_connected [OF ok g] True by auto
      let ?fs = "(sv_files s)(f \<mapsto> \<lparr>fs_senderFd = fd, fs_receiverFd = g\<rparr>)"
      have out: "outs = [(g, sequence h, OfferRsp f nm sz (ci_clientId info) (ci_nickname info) t)]"
        and a': "a' = (abs_chat s)\<lparr>ch_files := abs_files ?fs\<rparr>"
        using step user g True by (auto simp: abs_files_simps)
      define u where "u = snd (sendResponse g (encode (snd (hd outs))) s)"
      have u: "sends (map deliver outs) s u"
        unfolding u_def out using sends_response by simp
      note F = frameD [OF sendsD(2) [OF u server_okD(4) [OF ok]]]
      have "handleFileOffer fd h body s = u\<lparr>sv_files := ?fs\<rparr>"
        using tfd True F(8) by (simp add: handleFileOffer_def parse fields Some Let_def pack_simps u_def out)
      then have "handled (sv_clients s) ?fs (map deliver outs) s (handleFileOffer fd h body s)"
        using handled_files_last [OF u] by simp
      then show ?thesis
        unfolding a'
      proof (rule handled_sessions [OF ok])
        show "sv_handlers s (fs_senderFd x) \<noteq> None \<and> sv_handlers s (fs_receiverFd x) \<noteq> None"
          if "?fs k = Some x" for k x
          using that fd tfd server_okD(8) [OF ok, of k x] by (auto split: if_splits)
      qed
    qed
  qed
qed

lemma same_files: "s\<lparr>sv_files := sv_files s\<rparr> = s"
  by (cases s) simp

lemma implements_answer:
  assumes ok: "server_ok s" and len: "sizeof_FileOfferResponse \<le> length body"
    and step: "spec_step clock fd (sequence h)
      (OfferAnswer (field_at 0 37 body) (be_word (get 37 4 body)) (field_at 41 64 body))
      (abs_chat s) = (a', outs)"
  shows "implements a' outs {} s (handleFileOfferResponse fd h body s)"
proof -
  define f where "f = field_at 0 37 body"
  define m where "m = field_at 41 64 body"
  define r where "r = (be_word (get 37 4 body) :: u32)"
  obtain rsp where parse: "parseFileOfferResponse (os_endian (sv_os s)) body = Some rsp"
    and fields: "field_string (fr_fileId rsp) = f" "c_text (fr_message rsp) = m" "fr_result rsp = r"
    using parse_answer_at [OF len, of "os_endian (sv_os s)"] len
    by (auto simp: field_read field_string_eq [symmetric] f_def m_def r_def simp del: get_0)
  note step = step [folded f_def m_def r_def]
  show ?thesis
  proof (cases "f \<noteq> [] \<and> (\<exists>x. sv_files s f = Some x \<and> fs_receiverFd x = fd)")
    case False
    have recv: "fs_receiverFd x \<noteq> -1" if "sv_files s f = Some x" for x
      using handler_nonneg [OF server_okD(4) [OF ok], of "fs_receiverFd x"] server_okD(8) [OF ok that]
      by auto
    consider "f = []" | "f \<noteq> []" "sv_files s f = None"
      | x where "f \<noteq> []" "sv_files s f = Some x" "fs_receiverFd x \<noteq> fd"
      using False by blast
    then have "handleFileOfferResponse fd h body s = s"
      by cases (simp_all add: handleFileOfferResponse_def parse fields recv)
    moreover have "(a', outs) = (abs_chat s, [])"
      using step False by (auto simp: abs_files_def split: if_splits option.splits)
    ultimately show ?thesis using nothing_done [OF ok] by simp
  next
    case True
    then obtain x where x: "sv_files s f = Some x" and rx: "fs_receiverFd x = fd" and ne: "f \<noteq> []"
      by blast
    have nn: "0 \<le> fs_senderFd x" "0 \<le> fs_receiverFd x"
      using handler_nonneg [OF server_okD(4) [OF ok]] server_okD(8) [OF ok x] by blast+
    let ?fs = "if r = FILE_OFFER_ACCEPT then sv_files s else (sv_files s)(f := None)"
    have a': "a' = (abs_chat s)\<lparr>ch_files := abs_files ?fs\<rparr>"
      and out: "outs = [(fs_senderFd x, sequence h, OfferAnswerRsp f r m)]"
      using step x ne rx by (auto simp: abs_files_def abs_chat_def fun_eq_iff)
    have "handleFileOfferResponse fd h body s =
        reply_offer (fs_senderFd x) (sequence h) f r m (s\<lparr>sv_files := ?fs\<rparr>)"
      using x rx nn ne
      by (cases "r = FILE_OFFER_ACCEPT")
        (simp_all add: handleFileOfferResponse_def parse fields same_files)
    then have "sends (map deliver outs) (s\<lparr>sv_files := ?fs\<rparr>) (handleFileOfferResponse fd h body s)"
      using reply_offer_sends by (simp add: out)
    from handled_files_first [OF this server_okD(4) [OF ok]] show ?thesis
      unfolding a'
      by (rule handled_sessions [OF ok]) (use server_okD(8) [OF ok] in \<open>simp split: if_splits\<close>)
  qed
qed

lemma implements_relay:
  assumes ok: "server_ok s" and len: "37 \<le> length body"
    and step: "spec_step clock fd (sequence h) (Relay (msgType h) (field_at 0 37 body) body)
      (abs_chat s) = (a', outs)"
  shows "implements a' outs {} s (handleFileData fd h body s)"
proof -
  have nn: "\<not> fs_senderFd x < 0 \<and> \<not> fs_receiverFd x < 0"
    if "sv_files s (field_at 0 37 body) = Some x" for x
    using handler_nonneg [OF server_okD(4) [OF ok]] server_okD(8) [OF ok that] by (simp add: not_less)
  show ?thesis
    using step len nn nothing_done [OF ok] sends_one [OF ok] sends_response
    by (auto simp: handleFileData_def extractFileId_at abs_files_def Let_def pack_simps
        split: if_splits option.splits)
qed

section \<open>The dispatcher\<close>

definition leaving :: "int \<Rightarrow> request \<Rightarrow> int set" where
  "leaving fd req = (if req = LogoutReq then {fd} else {})"

lemma conns_ok_queueDisconnect: "conns_ok s \<Longrightarrow> conns_ok (queueDisconnect fd s)"
  by (auto simp: conns_ok_def conn_inv_def queueDisconnect_def)

lemma not_listening: "conns_ok s \<Longrightarrow> sv_handlers s fd \<noteq> None \<Longrightarrow> fd \<noteq> sv_listenFd s"
  by (auto simp: conns_ok_def conn_inv_def)

lemma server_ok_queue:
  assumes "server_ok s" and "fd \<noteq> sv_listenFd s" and "0 \<le> fd"
  shows "server_ok (queueDisconnect fd s)"
proof -
  have q: "sv_pending (queueDisconnect fd s) = sv_pending s @ [fd]"
    "sv_hasReactor (queueDisconnect fd s) = sv_hasReactor s"
    "sv_hasClientMgr (queueDisconnect fd s) = sv_hasClientMgr s"
    "sv_hasProtocol (queueDisconnect fd s) = sv_hasProtocol s"
    "sv_clients (queueDisconnect fd s) = sv_clients s"
    "sv_handlers (queueDisconnect fd s) = sv_handlers s"
    "sv_reactor (queueDisconnect fd s) = sv_reactor s" "sv_os (queueDisconnect fd s) = sv_os s"
    "sv_listenFd (queueDisconnect fd s) = sv_listenFd s" "sv_files (queueDisconnect fd s) = sv_files s"
    "sv_recvBuffers (queueDisconnect fd s) = sv_recvBuffers s"
    "sv_disconnecting (queueDisconnect fd s) = sv_disconnecting s"
    "sv_timedOut (queueDisconnect fd s) = sv_timedOut s"
    by (simp_all add: queueDisconnect_def)
  have l: "queue_ok (sv_listenFd s) ((sv_pending s @ [fd]) @ sv_disconnecting s @ sv_timedOut s)"
    using assms(2,3) server_ok_queue_ok [OF assms(1)] by (auto simp: queue_ok_def)
  show ?thesis
    unfolding server_ok_def links_ok_def q
    using assms(1) [unfolded server_ok_def links_ok_def] l conns_ok_queueDisconnect by blast
qed

lemma implements_logout:
  assumes "server_ok s" and "sv_handlers s fd \<noteq> None"
  shows "implements (abs_chat s) [] {fd} s (queueDisconnect fd s)"
proof -
  have "out_grows s (queueDisconnect fd s) g []" for g
    by (auto simp: out_grows_def alive_def out_stream_def queueDisconnect_def)
  moreover have "server_ok (queueDisconnect fd s)"
    using assms not_listening [OF server_okD(4) [OF assms(1)] assms(2)]
      handler_nonneg [OF server_okD(4) [OF assms(1)] assms(2)] by (intro server_ok_queue)
  ultimately show ?thesis
    by (simp add: implements_def)
       (simp add: queueDisconnect_def abs_chat_def outer_def frame_def)
qed

text \<open>Bodies too short for their structure are dropped.\<close>

lemma short_bodies:
  "length body < sizeof_ChatMessage \<Longrightarrow> handleChatMessage fd h body s = s"
  "length body < sizeof_FileOffer \<Longrightarrow> handleFileOffer fd h body s = s"
  "length body < sizeof_FileOfferResponse \<Longrightarrow> handleFileOfferResponse fd h body s = s"
  "length body < 37 \<Longrightarrow> handleFileData fd h body s = s"
  by (simp_all add: handleChatMessage_def handleFileOffer_def handleFileOfferResponse_def
      handleFileData_def parse_None_iff [THEN iffD2] extractFileId_at)

lemma handleMessage_implements:
  assumes ok: "server_ok s" and fd: "sv_handlers s fd \<noteq> None"
    and step: "spec_step (os_epoch (sv_os s)) fd (sequence h) (decode_request (msgType h) body)
      (abs_chat s) = (a', outs)"
  shows "implements a' outs (leaving fd (decode_request (msgType h) body)) s (handleMessage fd h body s)"
proof -
  consider "msgType h = MSG_HEARTBEAT_REQ" | "msgType h = MSG_LOGIN_REQ" | "msgType h = MSG_LOGOUT_REQ"
    | "msgType h = MSG_CHAT_MSG" | "msgType h = MSG_USER_LIST_REQ" | "msgType h = MSG_FILE_OFFER"
    | "msgType h = MSG_FILE_OFFER_RSP" | "msgType h = MSG_FILE_DATA \<or> msgType h = MSG_FILE_DATA_ACK"
    | "msgType h \<notin> {MSG_HEARTBEAT_REQ, MSG_LOGIN_REQ, MSG_LOGOUT_REQ, MSG_CHAT_MSG,
        MSG_USER_LIST_REQ, MSG_FILE_OFFER, MSG_FILE_OFFER_RSP, MSG_FILE_DATA, MSG_FILE_DATA_ACK}"
    by blast
  then show ?thesis
  proof cases
    case 1
    then show ?thesis
      using step implements_heartbeat [OF ok fd, of body h]
      by (auto simp: handleMessage_def decode_request_def leaving_def msg_type_defs split: if_splits)
  next
    case 2
    then have run: "handleMessage fd h body s = handleLogin fd h body s"
      by (simp add: handleMessage_def msg_type_defs)
    show ?thesis
    proof (cases "length body < sizeof_LoginRequest")
      case True
      then have "handleLogin fd h body s =
          reply_login fd (sequence h) LOGIN_INVALID_PARAM ''Invalid parameters'' s"
        by (simp add: handleLogin_def parse_None_iff [THEN iffD2])
      moreover have "(a', outs) = (abs_chat s, [(fd, sequence h, LoginRsp LOGIN_INVALID_PARAM
          (lit ''Invalid parameters''))])"
        using step 2 True by (simp add: decode_request_def msg_type_defs login_reply_def
            login_text_def login_result_defs)
      ultimately show ?thesis
        using sends_one [OF ok] reply_login_sends 2 True
        by (simp add: run leaving_def decode_request_def msg_type_defs)
    next
      case False
      then have d: "decode_request (msgType h) body = LoginReq (field_at 0 32 body) (field_at 32 64 body)"
        using 2 by (simp add: decode_request_def msg_type_defs)
      show ?thesis
        using implements_login [OF ok fd] step False unfolding d run leaving_def by simp
    qed
  next
    case 3
    then show ?thesis
      using step implements_logout [OF ok fd]
      by (simp add: handleMessage_def decode_request_def leaving_def msg_type_defs)
  next
    case 4
    then show ?thesis
      using step implements_chat [OF ok, of body fd h]
      by (cases "length body < sizeof_ChatMessage")
        (auto simp: handleMessage_def decode_request_def leaving_def msg_type_defs short_bodies
          intro: nothing_done [OF ok])
  next
    case 5
    then show ?thesis
      using step implements_user_list [OF ok, of _ fd h]
      by (auto simp: handleMessage_def decode_request_def leaving_def msg_type_defs)
  next
    case 6
    then show ?thesis
      using step implements_offer [OF ok fd, of body _ h]
      by (cases "length body < sizeof_FileOffer")
        (auto simp: handleMessage_def decode_request_def leaving_def msg_type_defs short_bodies
          intro: nothing_done [OF ok])
  next
    case 7
    then show ?thesis
      using step implements_answer [OF ok, of body _ fd h]
      by (cases "length body < sizeof_FileOfferResponse")
        (auto simp: handleMessage_def decode_request_def leaving_def msg_type_defs short_bodies
          intro: nothing_done [OF ok])
  next
    case 8
    have run: "handleMessage fd h body s = handleFileData fd h body s"
      using 8 by (auto simp: handleMessage_def msg_type_defs)
    have d: "decode_request (msgType h) body =
        (if length body < 37 then Ignored else Relay (msgType h) (field_at 0 37 body) body)"
      using 8 by (auto simp: decode_request_def msg_type_defs)
    show ?thesis
      using step implements_relay [OF ok, of body _ fd h]
      by (cases "length body < 37") (auto simp: run d leaving_def short_bodies intro: nothing_done [OF ok])
  next
    case 9
    then show ?thesis
      using step by (auto simp: handleMessage_def decode_request_def leaving_def intro: nothing_done [OF ok])
  qed
qed

end
