(* ===== verification/Server_Events.thy ===== *)
theory Server_Events
  imports Server_Refinement
begin

text \<open>
  The events of the main loop: bytes arriving on a connection, new connections, the
  disconnection of clients. Each keeps the server's invariant, and each acts on the room
  of \<open>Chat_Spec\<close> as specified.
\<close>

section \<open>A sequence of requests\<close>

fun spec_run ::
    "u64 \<Rightarrow> int \<Rightarrow> (MessageHeader \<times> bytes) list \<Rightarrow> chat \<Rightarrow> chat \<times> delivery list" where
  "spec_run clock fd [] a = (a, [])"
| "spec_run clock fd ((h, b) # fs) a =
     (case spec_step clock fd (sequence h) (decode_request (msgType h) b) a of
        (a1, outs1) \<Rightarrow>
          (case spec_run clock fd fs a1 of (a2, outs2) \<Rightarrow> (a2, outs1 @ outs2)))"

lemma outerD:
  assumes "outer s' = outer s"
  shows "sv_running s' = sv_running s" and "sv_listenFd s' = sv_listenFd s"
    and "sv_recvBuffers s' = sv_recvBuffers s" and "sv_timedOut s' = sv_timedOut s"
    and "sv_disconnecting s' = sv_disconnecting s"
    and "os_endian (sv_os s') = os_endian (sv_os s)" and "os_open (sv_os s') = os_open (sv_os s)"
    and "os_recv (sv_os s') = os_recv (sv_os s)" and "os_epoch (sv_os s') = os_epoch (sv_os s)"
    and "ep_fd (re_epoll (sv_reactor s')) = ep_fd (re_epoll (sv_reactor s))"
  using assms [THEN arg_cong, of sv_running] assms [THEN arg_cong, of sv_listenFd]
    assms [THEN arg_cong, of "\<lambda>s. ep_fd (re_epoll (sv_reactor s))"]
    assms [THEN arg_cong, of sv_recvBuffers] assms [THEN arg_cong, of sv_timedOut]
    assms [THEN arg_cong, of sv_disconnecting]
    assms [THEN arg_cong, of "\<lambda>s. os_endian (sv_os s)"]
    assms [THEN arg_cong, of "\<lambda>s. os_open (sv_os s)"]
    assms [THEN arg_cong, of "\<lambda>s. os_recv (sv_os s)"]
    assms [THEN arg_cong, of "\<lambda>s. os_epoch (sv_os s)"]
  by (simp_all add: outer_def frame_def)

lemma implementsD:
  assumes "implements a' outs L s s'"
  shows "server_ok s'" and "abs_chat s' = a'" and "outer s' = outer s"
    and "sv_handlers s' fd = None \<longleftrightarrow> sv_handlers s fd = None"
    and "out_grows s s' g (bytes_to g (map deliver outs))"
    and "\<exists>fds. sv_pending s' = sv_pending s @ fds \<and> (\<forall>fd \<in> set fds. failed s' fd \<or> fd \<in> L)"
  using assms by (simp_all add: implements_def)

lemma failed_stays:
  "out_grows s s' fd ds \<Longrightarrow> (sv_handlers s' fd = None \<longleftrightarrow> sv_handlers s fd = None) \<Longrightarrow>
   failed s fd \<Longrightarrow> failed s' fd"
  by (auto simp: failed_iff out_grows_def split: if_splits)

lemma implements_trans:
  assumes A: "implements a1 o1 L s s1" and B: "implements a2 o2 L s1 s2"
  shows "implements a2 (o1 @ o2) L s s2"
proof -
  note a = implementsD [OF A] and b = implementsD [OF B]
  obtain xs ys where p: "sv_pending s2 = sv_pending s @ (xs @ ys)"
    "\<forall>fd \<in> set xs. failed s1 fd \<or> fd \<in> L" "\<forall>fd \<in> set ys. failed s2 fd \<or> fd \<in> L"
    using a(6) b(6) by auto
  then have "\<forall>fd \<in> set (xs @ ys). failed s2 fd \<or> fd \<in> L"
    using failed_stays [OF b(5) b(4)] by auto
  moreover have "out_grows s s2 g (bytes_to g (map deliver (o1 @ o2)))" for g
    using out_grows_trans [OF a(5) b(5)] by simp
  ultimately show ?thesis
    using a(3,4) b(1-4) p(1) by (auto simp: implements_def)
qed

lemma implements_leaving_mono: "implements a' outs L s s' \<Longrightarrow> L \<subseteq> M \<Longrightarrow> implements a' outs M s s'"
  unfolding implements_def by blast

text \<open>The messages of one buffer, handled one after the other.\<close>

lemma feed_implements:
  "server_ok s \<Longrightarrow> sv_handlers s fd \<noteq> None \<Longrightarrow>
   spec_run (os_epoch (sv_os s)) fd fs (abs_chat s) = (a', outs) \<Longrightarrow>
   implements a' outs {fd} s (feed handleMessage fd fs s)"
proof (induction fs arbitrary: s a' outs)
  case Nil
  then show ?case
    using implements_leaving_mono [OF nothing_done [OF Nil.prems(1)]] by simp
next
  case (Cons f fs)
  obtain h b where f: "f = (h, b)" by (cases f)
  obtain a1 o1 where s1: "spec_step (os_epoch (sv_os s)) fd (sequence h)
      (decode_request (msgType h) b) (abs_chat s) = (a1, o1)" by fastforce
  obtain o2 where s2: "spec_run (os_epoch (sv_os s)) fd fs a1 = (a', o2)" and o: "outs = o1 @ o2"
    using Cons.prems(3) s1 by (auto simp: f split: prod.splits)
  have I: "implements a1 o1 {fd} s (handleMessage fd h b s)"
    using handleMessage_implements [OF Cons.prems(1,2) s1]
    by (rule implements_leaving_mono) (simp add: leaving_def)
  note D = implementsD [OF I]
  have "implements a' o2 {fd} (handleMessage fd h b s) (feed handleMessage fd fs (handleMessage fd h b s))"
    using Cons.IH [OF D(1)] D(2,4) s2 Cons.prems(2) outerD [OF D(3)] by simp
  from implements_trans [OF I this] show ?case by (simp add: f o)
qed

section \<open>Bytes of a connection\<close>

text \<open>
  Like \<open>implements\<close>, for operations that also take from the connection's input. Read
  buffers and the kernel's input are accounted for separately.
\<close>

definition ignoring_input :: "server \<Rightarrow> server" where
  "ignoring_input s = (outer s)\<lparr>sv_recvBuffers := (\<lambda>_. None),
     sv_os := (sv_os (outer s))\<lparr>os_recv := (\<lambda>_. [])\<rparr>\<rparr>"

definition serves :: "chat \<Rightarrow> delivery list \<Rightarrow> int set \<Rightarrow> server \<Rightarrow> server \<Rightarrow> bool" where
  "serves a' outs L s s' \<longleftrightarrow>
     server_ok s' \<and> abs_chat s' = a' \<and> ignoring_input s' = ignoring_input s \<and>
     (\<forall>fd. sv_handlers s' fd = None \<longleftrightarrow> sv_handlers s fd = None) \<and>
     (\<forall>g. out_grows s s' g (bytes_to g (map deliver outs))) \<and>
     (\<exists>fds. sv_pending s' = sv_pending s @ fds \<and> (\<forall>fd \<in> set fds. failed s' fd \<or> fd \<in> L))"

lemma servesD:
  assumes "serves a' outs L s s'"
  shows "server_ok s'" and "abs_chat s' = a'" and "ignoring_input s' = ignoring_input s"
    and "sv_handlers s' fd = None \<longleftrightarrow> sv_handlers s fd = None"
    and "out_grows s s' g (bytes_to g (map deliver outs))"
    and "\<exists>fds. sv_pending s' = sv_pending s @ fds \<and> (\<forall>fd \<in> set fds. failed s' fd \<or> fd \<in> L)"
  using assms by (simp_all add: serves_def)

lemma ignoring_inputD:
  assumes "ignoring_input s' = ignoring_input s"
  shows "sv_running s' = sv_running s" and "sv_listenFd s' = sv_listenFd s"
    and "sv_timedOut s' = sv_timedOut s" and "sv_disconnecting s' = sv_disconnecting s"
    and "os_endian (sv_os s') = os_endian (sv_os s)" and "os_open (sv_os s') = os_open (sv_os s)"
    and "os_epoch (sv_os s') = os_epoch (sv_os s)"
    and "ep_fd (re_epoll (sv_reactor s')) = ep_fd (re_epoll (sv_reactor s))"
  using assms [THEN arg_cong, of sv_running] assms [THEN arg_cong, of sv_listenFd]
    assms [THEN arg_cong, of "\<lambda>s. ep_fd (re_epoll (sv_reactor s))"]
    assms [THEN arg_cong, of sv_timedOut] assms [THEN arg_cong, of sv_disconnecting]
    assms [THEN arg_cong, of "\<lambda>s. os_endian (sv_os s)"]
    assms [THEN arg_cong, of "\<lambda>s. os_open (sv_os s)"]
    assms [THEN arg_cong, of "\<lambda>s. os_epoch (sv_os s)"]
  by (simp_all add: ignoring_input_def outer_def frame_def)

lemma serves_trans:
  assumes A: "serves a1 o1 L s s1" and B: "serves a2 o2 L s1 s2"
  shows "serves a2 (o1 @ o2) L s s2"
proof -
  note a = servesD [OF A] and b = servesD [OF B]
  obtain xs ys where p: "sv_pending s2 = sv_pending s @ (xs @ ys)"
    "\<forall>fd \<in> set xs. failed s1 fd \<or> fd \<in> L" "\<forall>fd \<in> set ys. failed s2 fd \<or> fd \<in> L"
    using a(6) b(6) by auto
  then have "\<forall>fd \<in> set (xs @ ys). failed s2 fd \<or> fd \<in> L"
    using failed_stays [OF b(5) b(4)] by auto
  moreover have "out_grows s s2 g (bytes_to g (map deliver (o1 @ o2)))" for g
    using out_grows_trans [OF a(5) b(5)] by simp
  ultimately show ?thesis
    using a(3,4) b(1-4) p(1) by (auto simp: serves_def)
qed

lemma implements_serves: "implements a' outs L s s' \<Longrightarrow> serves a' outs L s s'"
  by (simp add: implements_def serves_def ignoring_input_def)

text \<open>Storing the rest of the input.\<close>

lemma recvBuffers_irrelevant:
  "conns_ok (s\<lparr>sv_recvBuffers := bufs\<rparr>) = conns_ok s"
  "failed (s\<lparr>sv_recvBuffers := bufs\<rparr>) = failed s"
  "abs_chat (s\<lparr>sv_recvBuffers := bufs\<rparr>) = abs_chat s"
  "out_grows s' (s\<lparr>sv_recvBuffers := bufs\<rparr>) = out_grows s' s"
  "ignoring_input (s\<lparr>sv_recvBuffers := bufs\<rparr>) = ignoring_input s"
  by (simp_all add: conns_ok_def conn_inv_def failed_def abs_chat_def out_grows_def alive_def
      out_stream_def ignoring_input_def outer_def frame_def fun_eq_iff)

lemma server_ok_recvBuffers:
  assumes "server_ok s" and "sv_handlers s fd \<noteq> None"
    and "length b < sizeof_MessageHeader + 1048576"
  shows "server_ok (s\<lparr>sv_recvBuffers := (sv_recvBuffers s)(fd \<mapsto> b)\<rparr>)"
proof -
  let ?s = "s\<lparr>sv_recvBuffers := (sv_recvBuffers s)(fd \<mapsto> b)\<rparr>"
  have eqs: "sv_hasReactor ?s = sv_hasReactor s" "sv_hasClientMgr ?s = sv_hasClientMgr s"
    "sv_hasProtocol ?s = sv_hasProtocol s" "sv_clients ?s = sv_clients s"
    "sv_handlers ?s = sv_handlers s" "sv_reactor ?s = sv_reactor s" "sv_os ?s = sv_os s"
    "sv_listenFd ?s = sv_listenFd s" "sv_files ?s = sv_files s" "sv_pending ?s = sv_pending s"
    "sv_disconnecting ?s = sv_disconnecting s" "sv_timedOut ?s = sv_timedOut s"
    by simp_all
  have "\<forall>g r. sv_recvBuffers ?s g = Some r \<longrightarrow>
      sv_handlers s g \<noteq> None \<and> length r < sizeof_MessageHeader + 1048576"
    using server_okD(9) [OF assms(1)] assms(2,3) by (auto simp del: not_None_eq)
  then show ?thesis
    unfolding server_ok_def links_ok_def recvBuffers_irrelevant eqs
    using assms(1) [unfolded server_ok_def links_ok_def] by blast
qed

lemma serves_recvBuffers:
  assumes "serves a' outs L s s'" and "sv_handlers s fd \<noteq> None"
    and "length b < sizeof_MessageHeader + 1048576"
  shows "serves a' outs L s (s'\<lparr>sv_recvBuffers := (sv_recvBuffers s')(fd \<mapsto> b)\<rparr>)"
proof -
  note D = servesD [OF assms(1)]
  have "server_ok (s'\<lparr>sv_recvBuffers := (sv_recvBuffers s')(fd \<mapsto> b)\<rparr>)"
    using D(1) assms(2,3) D(4) [of fd] by (intro server_ok_recvBuffers) auto
  then show ?thesis
    using D by (simp add: serves_def recvBuffers_irrelevant)
qed

text \<open>What one read of a connection means: its messages, and the bytes kept.\<close>

definition frames_of :: "bytes \<Rightarrow> (MessageHeader \<times> bytes) list" where
  "frames_of bs = fst (deframe bs)"

definition rest_of :: "bytes \<Rightarrow> bytes" where
  "rest_of bs = (case snd (deframe bs) of None \<Rightarrow> [] | Some r \<Rightarrow> r)"

lemma length_rest_of: "length (rest_of bs) < sizeof_MessageHeader + 1048576"
  using deframe_rest_short [of bs "fst (deframe bs)"]
  by (cases "deframe bs") (auto simp: rest_of_def split: option.split)

lemma parse_loop_frames:
  "parse_loop e cb fd buf s = (rest_of buf, feed cb fd (frames_of buf) s)"
  by (simp add: parse_loop_deframe frames_of_def rest_of_def split: prod.split)

lemma onClientData_eq:
  "onClientData fd data s =
     (let buf = buffer_of (sv_recvBuffers s) fd @ data in
      (feed handleMessage fd (frames_of buf) s)\<lparr>sv_recvBuffers := (sv_recvBuffers s)(fd \<mapsto> rest_of buf)\<rparr>)"
  by (simp add: onClientData_def parseData_def parse_loop_frames Let_def)

lemma onClientData_serves:
  assumes ok: "server_ok s" and fd: "sv_handlers s fd \<noteq> None"
    and run: "spec_run (os_epoch (sv_os s)) fd (frames_of (buffer_of (sv_recvBuffers s) fd @ data))
      (abs_chat s) = (a', outs)"
  shows "serves a' outs {fd} s (onClientData fd data s)"
    and "sv_recvBuffers (onClientData fd data s) =
      (sv_recvBuffers s)(fd \<mapsto> rest_of (buffer_of (sv_recvBuffers s) fd @ data))"
    and "os_recv (sv_os (onClientData fd data s)) = os_recv (sv_os s)"
proof -
  let ?buf = "buffer_of (sv_recvBuffers s) fd @ data"
  let ?t = "feed handleMessage fd (frames_of ?buf) s"
  have I: "implements a' outs {fd} s ?t" by (rule feed_implements [OF ok fd run])
  note O = outerD [OF implementsD(3) [OF I]]
  have "serves a' outs {fd} s (?t\<lparr>sv_recvBuffers := (sv_recvBuffers ?t)(fd \<mapsto> rest_of ?buf)\<rparr>)"
    using implements_serves [OF I] fd length_rest_of by (rule serves_recvBuffers)
  then show "serves a' outs {fd} s (onClientData fd data s)"
    using O(3) by (simp add: onClientData_eq Let_def)
  show "sv_recvBuffers (onClientData fd data s) = (sv_recvBuffers s)(fd \<mapsto> rest_of ?buf)"
    and "os_recv (sv_os (onClientData fd data s)) = os_recv (sv_os s)"
    using O(8) by (simp_all add: onClientData_eq Let_def)
qed

section \<open>Reading a connection until nothing is left\<close>

text \<open>The pieces one call of \<open>handleRead\<close> reads, and what their bytes amount to.\<close>

fun read_chunks :: "recv_result list \<Rightarrow> bytes list" where
  "read_chunks [] = []"
| "read_chunks (Received d # rs) = (if d = [] then [] else take 4096 d # read_chunks rs)"
| "read_chunks (RecvIntr # rs) = read_chunks rs"
| "read_chunks (RecvAgain # rs) = []"
| "read_chunks (RecvError # rs) = []"

fun chunk_frames :: "bytes \<Rightarrow> bytes list \<Rightarrow> (MessageHeader \<times> bytes) list \<times> bytes" where
  "chunk_frames buf [] = ([], buf)"
| "chunk_frames buf (c # cs) =
     (case chunk_frames (rest_of (buf @ c)) cs of
        (fs, rest) \<Rightarrow> (frames_of (buf @ c) @ fs, rest))"

text \<open>As long as every header is valid, the pieces do not matter.\<close>

lemma chunk_frames_whole:
  "deframe (buf @ concat cs) = (fs, Some r) \<Longrightarrow> cs \<noteq> [] \<Longrightarrow> chunk_frames buf cs = (fs, r)"
proof (induction cs arbitrary: buf fs)
  case (Cons c cs)
  obtain gs q where g: "deframe (buf @ c) = (gs, q)" by fastforce
  with Cons.prems(1) obtain u hs where u: "q = Some u"
    and h: "deframe (u @ concat cs) = (hs, Some r)" and fs: "fs = gs @ hs"
    using deframe_append [of "buf @ c" "concat cs"] by (auto split: option.splits prod.splits)
  show ?case
  proof (cases "cs = []")
    case True
    with h have "hs = []" "u = r" using deframe_rest_stuck [OF g [unfolded u]] by simp_all
    then show ?thesis by (simp add: True fs frames_of_def rest_of_def g u)
  next
    case False
    then show ?thesis using Cons.IH [OF h False] by (simp add: fs frames_of_def rest_of_def g u)
  qed
qed simp

lemma spec_run_append:
  "spec_run clock fd (fs @ gs) a =
     (case spec_run clock fd fs a of (a1, o1) \<Rightarrow>
        (case spec_run clock fd gs a1 of (a2, o2) \<Rightarrow> (a2, o1 @ o2)))"
  by (induction fs arbitrary: a) (auto split: prod.split)

lemma serves_refl: "server_ok s \<Longrightarrow> serves (abs_chat s) [] L s s"
  using implements_serves implements_leaving_mono [OF nothing_done] by blast

lemma serves_requestClose: "server_ok s \<Longrightarrow> serves (abs_chat s) [] L s (requestClose fd s)"
  using sends_implements [of s "[]" "requestClose fd s"] sends_requestClose
    implements_serves implements_leaving_mono by simp

lemma requestClose_input:
  "sv_recvBuffers (requestClose fd s) = sv_recvBuffers s"
  by (auto simp: requestClose_def step_defs split: option.split)

lemma recv_loop_serves:
  "server_ok s \<Longrightarrow> sv_handlers s fd \<noteq> None \<Longrightarrow>
   chunk_frames (buffer_of (sv_recvBuffers s) fd) (read_chunks rs) = (fs, rest) \<Longrightarrow>
   spec_run (os_epoch (sv_os s)) fd fs (abs_chat s) = (a', outs) \<Longrightarrow>
   recv_loop fd rs s = (rs', s') \<Longrightarrow>
   serves a' outs {fd} s s' \<and> buffer_of (sv_recvBuffers s') fd = rest"
proof (induction rs arbitrary: s fs a' outs)
  case Nil
  then show ?case using serves_refl by auto
next
  case (Cons r rs)
  show ?case
  proof (cases r)
    case (Received d)
    show ?thesis
    proof (cases "d = []")
      case True
      then show ?thesis
        using Cons.prems Received serves_requestClose [OF Cons.prems(1)] requestClose_input by auto
    next
      case False
      let ?c = "take 4096 d" and ?buf = "buffer_of (sv_recvBuffers s) fd"
      let ?s1 = "onClientData fd ?c s"
      obtain gs where cf: "chunk_frames (rest_of (?buf @ ?c)) (read_chunks rs) = (gs, rest)"
        and fs: "fs = frames_of (?buf @ ?c) @ gs"
        using Cons.prems(3) Received False by (auto split: prod.splits)
      obtain a1 o1 where r1: "spec_run (os_epoch (sv_os s)) fd (frames_of (?buf @ ?c)) (abs_chat s) = (a1, o1)"
        by fastforce
      obtain o2 where r2: "spec_run (os_epoch (sv_os s)) fd gs a1 = (a', o2)" and o: "outs = o1 @ o2"
        using Cons.prems(4) r1 by (auto simp: fs spec_run_append split: prod.splits)
      note S = onClientData_serves [OF Cons.prems(1,2) r1]
      note D = servesD [OF S(1)]
      have run: "recv_loop fd rs ?s1 = (rs', s')" using Cons.prems(5) Received False by simp
      have h1: "sv_handlers ?s1 fd \<noteq> None" using D(4) [of fd] Cons.prems(2) by simp
      have "buffer_of (sv_recvBuffers ?s1) fd = rest_of (?buf @ ?c)" by (simp add: S(2) buffer_of_def)
      then have "serves a' o2 {fd} ?s1 s' \<and> buffer_of (sv_recvBuffers s') fd = rest"
        using Cons.IH [OF D(1) h1 _ _ run] cf r2 D(2) ignoring_inputD(7) [OF D(3)] by simp
      then show ?thesis using serves_trans [OF S(1)] by (simp add: o)
    qed
  next
    case RecvIntr
    then show ?thesis using Cons.IH [OF Cons.prems(1,2)] Cons.prems(3-5) by simp
  next
    case RecvAgain
    then show ?thesis using Cons.prems serves_refl by auto
  next
    case RecvError
    then show ?thesis
      using Cons.prems serves_requestClose [OF Cons.prems(1)] requestClose_input by auto
  qed
qed

text \<open>The environment's scripts do not matter to the invariant.\<close>

lemma os_irrelevant:
  assumes "os_open os' = os_open (sv_os s)"
  shows "server_ok (s\<lparr>sv_os := os'\<rparr>) = server_ok s"
    and "abs_chat (s\<lparr>sv_os := os'\<rparr>) = abs_chat s"
    and "failed (s\<lparr>sv_os := os'\<rparr>) = failed s"
  using assms
  by (simp_all add: server_ok_def links_ok_def conns_ok_def conn_inv_def abs_chat_def failed_def
      fun_eq_iff)

lemma client_handleRead_serves:
  assumes ok: "server_ok s" and live: "alive s fd"
    and cf: "chunk_frames (buffer_of (sv_recvBuffers s) fd) (read_chunks (os_recv (sv_os s) fd)) = (fs, rest)"
    and run: "spec_run (os_epoch (sv_os s)) fd fs (abs_chat s) = (a', outs)"
  shows "serves a' outs {fd} s (client_handleRead fd s)"
    and "buffer_of (sv_recvBuffers (client_handleRead fd s)) fd = rest"
proof -
  obtain c where c: "sv_handlers s fd = Some c" "\<not> co_closing c" using live by (auto simp: alive_iff)
  obtain rs' t where loop: "recv_loop fd (os_recv (sv_os s) fd) s = (rs', t)" by fastforce
  have T: "serves a' outs {fd} s t" "buffer_of (sv_recvBuffers t) fd = rest"
    using recv_loop_serves [OF ok _ cf run loop] c by auto
  let ?t = "t\<lparr>sv_os := (sv_os t)\<lparr>os_recv := (os_recv (sv_os t))(fd := rs')\<rparr>\<rparr>"
  have e: "client_handleRead fd s = ?t" using c loop by (simp add: client_handleRead_def)
  have eqs: "ignoring_input ?t = ignoring_input t" "out_grows s ?t = out_grows s t"
    by (simp_all add: ignoring_input_def outer_def frame_def out_grows_def alive_def out_stream_def
        fun_eq_iff)
  show "serves a' outs {fd} s (client_handleRead fd s)"
    using servesD [OF T(1)] os_irrelevant [of "(sv_os t)\<lparr>os_recv := (os_recv (sv_os t))(fd := rs')\<rparr>" t]
    by (simp add: e serves_def eqs)
  show "buffer_of (sv_recvBuffers (client_handleRead fd s)) fd = rest" using T(2) by (simp add: e)
qed

lemma client_handleRead_dead:
  "\<not> alive s fd \<Longrightarrow> client_handleRead fd s = s"
  by (auto simp: client_handleRead_def alive_def split: option.split)

lemma server_ok_client_events:
  assumes ok: "server_ok s"
  shows "server_ok (client_handleRead fd s)" and "server_ok (client_handleWrite fd s)"
    and "server_ok (client_handleError fd ev s)"
proof -
  show "server_ok (client_handleRead fd s)"
  proof (cases "alive s fd")
    case True
    obtain fs rest where cf: "chunk_frames (buffer_of (sv_recvBuffers s) fd)
        (read_chunks (os_recv (sv_os s) fd)) = (fs, rest)" by fastforce
    obtain a' outs where run: "spec_run (os_epoch (sv_os s)) fd fs (abs_chat s) = (a', outs)"
      by fastforce
    show ?thesis using servesD(1) [OF client_handleRead_serves(1) [OF ok True cf run]] .
  next
    case False
    then show ?thesis using ok client_handleRead_dead by simp
  qed
  show "server_ok (client_handleWrite fd s)"
    using sends_implements [OF ok, of "[]"] sends_handleWrite by (auto dest: implementsD(1))
  show "server_ok (client_handleError fd ev s)"
    using sends_implements [OF ok, of "[]"] sends_handleError by (auto dest: implementsD(1))
qed

section \<open>New connections\<close>

lemma lowest_unused_fresh:
  "lowest_unused fds \<notin> set fds" "0 \<le> lowest_unused fds"
proof -
  let ?c = "map int [0..<Suc (length fds)]"
  have "filter (\<lambda>n. n \<notin> set fds) ?c \<noteq> []"
  proof
    assume "filter (\<lambda>n. n \<notin> set fds) ?c = []"
    then have "set ?c \<subseteq> set fds" by (auto simp: filter_empty_conv simp del: upt_Suc)
    then have "card (set ?c) \<le> card (set fds)" by (intro card_mono) simp_all
    moreover have "card (set ?c) = Suc (length fds)"
      by (subst distinct_card) (auto simp: distinct_map simp del: upt_Suc)
    ultimately show False using card_length [of fds] by simp
  qed
  then obtain n ns where n: "filter (\<lambda>n. n \<notin> set fds) ?c = n # ns" by (metis list.exhaust)
  then have "n \<in> set (filter (\<lambda>n. n \<notin> set fds) ?c)" by simp
  then have "n \<notin> set fds" and "n \<in> set ?c" unfolding set_filter by blast+
  moreover have "0 \<le> n" using calculation(2) by (auto simp del: upt_Suc)
  moreover have "lowest_unused fds = n" unfolding lowest_unused_def n by simp
  ultimately show "lowest_unused fds \<notin> set fds" "0 \<le> lowest_unused fds" by simp_all
qed

lemma handler_open: "conns_ok s \<Longrightarrow> fd \<notin> set (os_open (sv_os s)) \<Longrightarrow> sv_handlers s fd = None"
  by (cases "sv_handlers s fd") (auto dest: conns_okD simp: conn_inv_def)

lemma links_okD:
  assumes "server_ok s"
  shows "findHandler (sv_listenFd s) (sv_reactor s) = Some (ListenHandler (sv_listenFd s))"
    and "sv_listenFd s \<in> set (os_open (sv_os s))"
    and "findHandler fd (sv_reactor s) = Some h \<Longrightarrow> fd = sv_listenFd s \<or> sv_handlers s fd \<noteq> None"
    and "queue_ok (sv_listenFd s) (sv_pending s @ sv_disconnecting s @ sv_timedOut s)"
  using assms unfolding server_ok_def links_ok_def by blast+

text \<open>Opening or closing a descriptor that belongs to nobody changes nothing.\<close>

lemma server_ok_open:
  assumes "server_ok s" and "set (os_open (sv_os s)) - {fd} \<subseteq> set (os_open os')"
    and "fd \<noteq> sv_listenFd s" and "sv_handlers s fd = None"
  shows "server_ok (s\<lparr>sv_os := os'\<rparr>)"
proof -
  have "conns_ok (s\<lparr>sv_os := os'\<rparr>)"
  proof (rule conns_okI)
    show "watched (sv_reactor (s\<lparr>sv_os := os'\<rparr>))"
      using conns_ok_watched [OF server_okD(4) [OF assms(1)]] by simp
  next
    fix g c assume c: "sv_handlers (s\<lparr>sv_os := os'\<rparr>) g = Some c"
    then have "conn_inv s g c" and "g \<noteq> fd"
      using assms(4) conns_okD [OF server_okD(4) [OF assms(1)]] by auto
    then show "conn_inv (s\<lparr>sv_os := os'\<rparr>) g c"
      using assms(2) by (auto simp: conn_inv_def)
  qed
  moreover have l: "sv_listenFd s \<in> set (os_open os')"
    using assms(2,3) links_okD(2) [OF assms(1)] by blast
  have eqs: "sv_clients (s\<lparr>sv_os := os'\<rparr>) = sv_clients s"
    "sv_reactor (s\<lparr>sv_os := os'\<rparr>) = sv_reactor s" "sv_os (s\<lparr>sv_os := os'\<rparr>) = os'"
    "sv_files (s\<lparr>sv_os := os'\<rparr>) = sv_files s" "sv_handlers (s\<lparr>sv_os := os'\<rparr>) = sv_handlers s"
    "sv_recvBuffers (s\<lparr>sv_os := os'\<rparr>) = sv_recvBuffers s"
    "sv_listenFd (s\<lparr>sv_os := os'\<rparr>) = sv_listenFd s" "sv_pending (s\<lparr>sv_os := os'\<rparr>) = sv_pending s"
    "sv_disconnecting (s\<lparr>sv_os := os'\<rparr>) = sv_disconnecting s"
    "sv_timedOut (s\<lparr>sv_os := os'\<rparr>) = sv_timedOut s" by simp_all
  have "links_ok (s\<lparr>sv_os := os'\<rparr>)"
    unfolding links_ok_def eqs
    using assms(1) [unfolded server_ok_def links_ok_def] l by blast
  ultimately show ?thesis using assms(1) by (simp add: server_ok_def)
qed

lemma server_ok_count_call:
  "server_ok (count_call s) = server_ok s" "sv_handlers (count_call s) = sv_handlers s"
  "sv_listenFd (count_call s) = sv_listenFd s"
  using os_irrelevant(1) [of "(sv_os s)\<lparr>os_calls := Suc (os_calls (sv_os s))\<rparr>" s]
  by (simp_all add: count_call_def)

lemma server_ok_same_handlers:
  "re_handlers r = re_handlers (sv_reactor s) \<Longrightarrow> watched r \<Longrightarrow> watched (sv_reactor s) \<Longrightarrow>
   server_ok (s\<lparr>sv_reactor := r\<rparr>) = server_ok s"
  by (simp add: server_ok_def conns_ok_def conn_inv_def links_ok_def findHandler_def)

lemma server_ok_watched: "server_ok s \<Longrightarrow> watched (sv_reactor s)"
  by (rule conns_ok_watched [OF server_okD(4)])

lemma unregistered:
  "server_ok s \<Longrightarrow> fd \<noteq> sv_listenFd s \<Longrightarrow> sv_handlers s fd = None \<Longrightarrow> re_handlers (sv_reactor s) fd = None"
  using links_okD(3) [of s fd] by (cases "re_handlers (sv_reactor s) fd") (auto simp: findHandler_def)

lemma server_ok_sys_close:
  assumes "server_ok s" and "fd \<noteq> sv_listenFd s" and "sv_handlers s fd = None"
  shows "server_ok (sys_close fd s)"
proof -
  let ?os = "(sv_os s)\<lparr>os_open := removeAll fd (os_open (sv_os s))\<rparr>"
  have ok: "server_ok (s\<lparr>sv_os := ?os\<rparr>)" using assms by (intro server_ok_open) auto
  have w: "watched (kernel_closes fd (sv_reactor s))"
    using assms by (intro watched_closes server_ok_watched unregistered)
  show ?thesis
    unfolding sys_close_def
    using server_ok_same_handlers [of "kernel_closes fd (sv_reactor s)" "s\<lparr>sv_os := ?os\<rparr>"] w ok
      server_ok_watched [OF assms(1)] by simp
qed

text \<open>The state after a registration that went through.\<close>

lemma server_ok_admit:
  assumes ok: "server_ok s" and fd: "sv_handlers s fd = None" "fd \<noteq> sv_listenFd s" "0 \<le> fd"
    "fd \<in> set (os_open (sv_os s))"
    and r: "re_handlers r = (re_handlers (sv_reactor s))(fd \<mapsto> \<lparr>he_handler = ClientHandler fd, he_events = EVENT_READ\<rparr>)"
    and w: "watched r"
  shows "server_ok (s\<lparr>sv_reactor := r, sv_clients := addClient now fd ip port (sv_clients s),
      sv_handlers := (sv_handlers s)(fd \<mapsto> new_ClientHandler)\<rparr>)"
    (is "server_ok ?s")
    and "abs_users (addClient now fd ip port (sv_clients s)) = abs_users (sv_clients s)"
proof -
  let ?cl = "addClient now fd ip port (sv_clients s)"
  note reg = server_okD(5) [OF ok] and reg' = registry_ok_addClient [OF server_okD(5) [OF ok] fd(3)]
  have none: "map_of (sv_clients s) fd = None" using server_okD(7) [OF ok, of fd] fd(1) by simp
  show a: "abs_users ?cl = abs_users (sv_clients s)"
    using none by (auto simp: abs_users_def addClient_def fun_eq_iff)
  have count: "getOnlineCount ?cl \<le> kMaxOnlineClients"
    using server_okD(6) [OF ok] by (simp add: getOnlineCount_card [OF reg'] getOnlineCount_card [OF reg] a)
  have dom: "\<forall>g. (sv_handlers ?s g = None) = (map_of ?cl g = None)"
    using server_okD(7) [OF ok] by (simp add: addClient_def)
  have find: "findHandler g r = (if g = fd then Some (ClientHandler fd) else findHandler g (sv_reactor s))" for g
    by (simp add: findHandler_def r)
  have f1: "\<forall>g h. findHandler g r = Some h \<longrightarrow> g = sv_listenFd s \<or> sv_handlers ?s g \<noteq> None"
    using links_okD(3) [OF ok] by (auto simp: find simp del: not_None_eq)
  have f2: "findHandler (sv_listenFd s) r = Some (ListenHandler (sv_listenFd s))"
    using links_okD(1) [OF ok] fd(2) by (simp add: find)
  have h: "sv_handlers ?s g \<noteq> None" if "sv_handlers s g \<noteq> None" for g using that by simp
  have files: "\<forall>f x. sv_files s f = Some x \<longrightarrow>
      sv_handlers ?s (fs_senderFd x) \<noteq> None \<and> sv_handlers ?s (fs_receiverFd x) \<noteq> None"
    using server_okD(8) [OF ok] h by blast
  have bufs: "\<forall>g b. sv_recvBuffers s g = Some b \<longrightarrow>
      sv_handlers ?s g \<noteq> None \<and> length b < sizeof_MessageHeader + 1048576"
    using server_okD(9) [OF ok] h by blast
  have eqs: "sv_clients ?s = ?cl" "sv_reactor ?s = r" "sv_os ?s = sv_os s" "sv_files ?s = sv_files s"
    "sv_recvBuffers ?s = sv_recvBuffers s" "sv_listenFd ?s = sv_listenFd s"
    "sv_pending ?s = sv_pending s" "sv_disconnecting ?s = sv_disconnecting s"
    "sv_timedOut ?s = sv_timedOut s" by simp_all
  have links: "links_ok ?s"
    unfolding links_ok_def eqs
    using reg' count dom f1 f2 files bufs links_okD(2,4) [OF ok] by blast
  have "conns_ok ?s"
  proof (rule conns_okI)
    show "watched (sv_reactor ?s)" using w by simp
  next
    fix g c assume c: "sv_handlers ?s g = Some c"
    show "conn_inv ?s g c"
    proof (cases "g = fd")
      case True
      then show ?thesis using c fd by (simp add: conn_inv_def r write_mask_def)
    next
      case False
      then have "conn_inv s g c" using c conns_okD [OF server_okD(4) [OF ok]] by simp
      then show ?thesis using False by (simp add: conn_inv_def r)
    qed
  qed
  then show "server_ok ?s" using links ok by (simp add: server_ok_def)
qed

text \<open>One accepted connection, registered or refused.\<close>

definition accept_one :: "bytes \<Rightarrow> int \<Rightarrow> server \<Rightarrow> bool \<times> server" where
  "accept_one ip port s = (case sys_accept s of (fd, s) \<Rightarrow> registerClient fd ip port s)"

lemma registerHandler_new:
  assumes "re_handlers r (getHandle h) = None"
  shows "registerHandler ctl h ev r = (ok, r') \<Longrightarrow>
    re_handlers r' = (if ok then (re_handlers r)(getHandle h \<mapsto> \<lparr>he_handler = h, he_events = ev\<rparr>)
      else re_handlers r)"
  using assms by (auto simp: registerHandler_def Let_def split: prod.splits if_splits)

lemma registerClient_fresh:
  assumes ok: "server_ok s" and fd: "sv_handlers s fd = None" "fd \<noteq> sv_listenFd s" "0 \<le> fd"
    "fd \<in> set (os_open (sv_os s))"
    and reg: "registerClient fd ip port s = (res, s')"
  shows "server_ok s'" and "abs_chat s' = abs_chat s" and "sv_listenFd s' = sv_listenFd s"
    and "sv_handlers s' = (if res then (sv_handlers s)(fd \<mapsto> new_ClientHandler) else sv_handlers s)"
    and "sv_recvBuffers s' = sv_recvBuffers s" and "sv_pending s' = sv_pending s"
    and "os_wire (sv_os s') = os_wire (sv_os s)"
proof -
  have "server_ok s' \<and> abs_chat s' = abs_chat s \<and> sv_listenFd s' = sv_listenFd s \<and>
    sv_handlers s' = (if res then (sv_handlers s)(fd \<mapsto> new_ClientHandler) else sv_handlers s) \<and>
    sv_recvBuffers s' = sv_recvBuffers s \<and> sv_pending s' = sv_pending s \<and>
    os_wire (sv_os s') = os_wire (sv_os s)"
  proof (cases "setNonBlocking fd s")
    case False
    then have "s' = sys_close fd s" "\<not> res"
      using reg server_okD(1,2) [OF ok] by (simp_all add: registerClient_def)
    then show ?thesis
      using server_ok_sys_close [OF ok fd(2,1)] by (simp add: sys_close_def abs_chat_def)
  next
    case True
    have "re_handlers (sv_reactor s) fd = None" using ok fd(2,1) by (rule unregistered)
    obtain okr r where r: "registerHandler (ctl_answer s) (ClientHandler fd) EVENT_READ (sv_reactor s) = (okr, r)"
      by fastforce
    note rh = registerHandler_new [OF _ r, simplified, OF \<open>re_handlers (sv_reactor s) fd = None\<close>]
    have w: "watched r"
      using watched_register [OF server_ok_watched [OF ok], of EVENT_READ "ctl_answer s" "ClientHandler fd"] r
      by (simp add: EVENT_READ_def)
    let ?t = "count_call (s\<lparr>sv_reactor := r\<rparr>)"
    show ?thesis
    proof (cases okr)
      case False
      then have s': "s' = sys_close fd ?t" and "\<not> res"
        using reg True server_okD(1,2) [OF ok] r
        by (simp_all add: registerClient_def reactor_register_def)
      have "server_ok (s\<lparr>sv_reactor := r\<rparr>)"
        using ok rh False w by (simp add: server_ok_same_handlers server_ok_watched)
      then have "server_ok ?t" by (simp add: server_ok_count_call)
      then have "server_ok s'"
        unfolding s' using fd by (intro server_ok_sys_close) (simp_all add: server_ok_count_call)
      then show ?thesis
        using \<open>\<not> res\<close> by (simp add: s' sys_close_def count_call_def abs_chat_def)
    next
      case okr: True
      let ?u = "s\<lparr>sv_reactor := r, sv_clients := addClient (os_now (sv_os s)) fd ip port (sv_clients s),
        sv_handlers := (sv_handlers s)(fd \<mapsto> new_ClientHandler)\<rparr>"
      have s': "s' = count_call ?u" and "res"
        using reg True server_okD(1,2) [OF ok] r okr fd(1)
        by (auto simp: registerClient_def reactor_register_def count_call_def put_conn_def
            intro: server.equality)
      note admit = server_ok_admit [OF ok fd, of r "os_now (sv_os s)" ip port]
      show ?thesis
        using admit rh okr w \<open>res\<close>
        by (simp add: s' server_ok_count_call) (simp add: count_call_def abs_chat_def)
    qed
  qed
  then show "server_ok s'" and "abs_chat s' = abs_chat s" and "sv_listenFd s' = sv_listenFd s"
    and "sv_handlers s' = (if res then (sv_handlers s)(fd \<mapsto> new_ClientHandler) else sv_handlers s)"
    and "sv_recvBuffers s' = sv_recvBuffers s" and "sv_pending s' = sv_pending s"
    and "os_wire (sv_os s') = os_wire (sv_os s)"
    by blast+
qed

text \<open>
  A connection that is admitted starts with nothing of a predecessor: no unread input, no
  unsent output, no transfer.
\<close>

lemma accept_one_fresh:
  assumes ok: "server_ok s" and acc: "accept_one ip port s = (res, s')"
  defines "fd \<equiv> lowest_unused (os_open (sv_os s))"
  shows "server_ok s'" and "abs_chat s' = abs_chat s" and "sv_listenFd s' = sv_listenFd s"
    and "sv_handlers s fd = None" and "sv_recvBuffers s' = sv_recvBuffers s"
    and "sv_recvBuffers s fd = None" and "sv_pending s' = sv_pending s"
    and "sv_handlers s' = (if res then (sv_handlers s)(fd \<mapsto> new_ClientHandler) else sv_handlers s)"
    and "os_wire (sv_os s') = (os_wire (sv_os s))(fd := [])"
proof -
  have fresh: "fd \<notin> set (os_open (sv_os s))" "0 \<le> fd" unfolding fd_def by (rule lowest_unused_fresh)+
  show none: "sv_handlers s fd = None" using handler_open [OF server_okD(4) [OF ok] fresh(1)] .
  then show "sv_recvBuffers s fd = None"
    using server_okD(9) [OF ok, of fd] by (cases "sv_recvBuffers s fd") auto
  have ne: "fd \<noteq> sv_listenFd s" using fresh(1) links_okD(2) [OF ok] by auto
  let ?os = "(sv_os s)\<lparr>os_open := os_open (sv_os s) @ [fd], os_wire := (os_wire (sv_os s))(fd := [])\<rparr>"
  have ok': "server_ok (s\<lparr>sv_os := ?os\<rparr>)"
    using ok ne none by (intro server_ok_open) auto
  have reg: "registerClient fd ip port (s\<lparr>sv_os := ?os\<rparr>) = (res, s')"
    using acc by (simp add: accept_one_def sys_accept_def fd_def Let_def)
  note R = registerClient_fresh [OF ok' _ _ fresh(2) _ reg, simplified, OF none ne]
  show "server_ok s'" "abs_chat s' = abs_chat s" "sv_listenFd s' = sv_listenFd s"
    "sv_recvBuffers s' = sv_recvBuffers s" "sv_pending s' = sv_pending s"
    "sv_handlers s' = (if res then (sv_handlers s)(fd \<mapsto> new_ClientHandler) else sv_handlers s)"
    "os_wire (sv_os s') = (os_wire (sv_os s))(fd := [])"
    using R by (simp_all add: abs_chat_def)
qed

lemma accept_loop_ok:
  "server_ok s \<Longrightarrow> accept_loop as s = (as', s') \<Longrightarrow> server_ok s' \<and> abs_chat s' = abs_chat s"
proof (induction as s rule: accept_loop.induct)
  case (5 ip sin_port as s)
  obtain fd s1 where a: "sys_accept s = (fd, s1)" by fastforce
  let ?ip = "case ip of None \<Rightarrow> lit ''unknown'' | Some a \<Rightarrow> a"
  let ?port = "uint (ntohs (os_endian (sv_os s1)) sin_port)"
  obtain res s2 where acc: "accept_one ?ip ?port s = (res, s2)" by fastforce
  then have s2: "s2 = snd (registerClient fd ?ip ?port s1)" by (simp add: accept_one_def a)
  note A = accept_one_fresh [OF "5.prems"(1) acc]
  have run: "accept_loop as s2 = (as', s')" using "5.prems"(2) a s2 by simp
  show ?case
    using "5.IH" [OF a [symmetric] refl refl refl] A(1,2) run s2 by simp
qed auto

lemma server_ok_listen:
  assumes "server_ok s"
  shows "server_ok (listen_handleRead s)" and "abs_chat (listen_handleRead s) = abs_chat s"
proof -
  obtain as s' where a: "accept_loop (os_accept (sv_os s)) s = (as, s')" by fastforce
  have "os_open ((sv_os s')\<lparr>os_accept := as\<rparr>) = os_open (sv_os s')" by simp
  note I = os_irrelevant [OF this]
  show "server_ok (listen_handleRead s)" and "abs_chat (listen_handleRead s) = abs_chat s"
    using accept_loop_ok [OF assms a] I by (simp_all add: listen_handleRead_def a)
qed

section \<open>Disconnecting\<close>

text \<open>\<open>handleClientDisconnect\<close> up to the call that tells the others.\<close>

definition purge :: "int \<Rightarrow> server \<Rightarrow> server" where
  "purge fd s =
     sys_close fd (cleanupFileSessionsForFd fd
       ((reactor_remove fd s)\<lparr>sv_handlers := (sv_handlers s)(fd := None),
          sv_clients := removeClient fd (sv_clients s),
          sv_recvBuffers := parser_removeClient fd (sv_recvBuffers s)\<rparr>))"

lemma handleClientDisconnect_purge:
  assumes "sv_hasReactor s" and "sv_hasClientMgr s" and "sv_hasProtocol s" and "0 \<le> fd"
  shows "handleClientDisconnect fd s =
    (if sv_running s then broadcastUserList (purge fd s) else purge fd s)"
  using assms
  by (simp add: handleClientDisconnect_def purge_def Let_def reactor_remove_def count_call_def
      sys_close_def cleanupFileSessionsForFd_def)

lemma purge_fields:
  "sv_handlers (purge fd s) = (sv_handlers s)(fd := None)"
  "sv_clients (purge fd s) = removeClient fd (sv_clients s)"
  "sv_recvBuffers (purge fd s) = (sv_recvBuffers s)(fd := None)"
  "re_handlers (sv_reactor (purge fd s)) = (re_handlers (sv_reactor s))(fd := None)"
  "os_open (sv_os (purge fd s)) = removeAll fd (os_open (sv_os s))"
  "os_wire (sv_os (purge fd s)) = os_wire (sv_os s)"
  "os_endian (sv_os (purge fd s)) = os_endian (sv_os s)"
  "sv_files (purge fd s) = (\<lambda>f. case sv_files s f of None \<Rightarrow> None
     | Some x \<Rightarrow> if fs_senderFd x = fd \<or> fs_receiverFd x = fd then None else Some x)"
  "sv_hasReactor (purge fd s) = sv_hasReactor s" "sv_hasClientMgr (purge fd s) = sv_hasClientMgr s"
  "sv_hasProtocol (purge fd s) = sv_hasProtocol s" "sv_running (purge fd s) = sv_running s"
  "sv_listenFd (purge fd s) = sv_listenFd s" "sv_pending (purge fd s) = sv_pending s"
  "sv_disconnecting (purge fd s) = sv_disconnecting s" "sv_timedOut (purge fd s) = sv_timedOut s"
  by (simp_all add: purge_def reactor_remove_def count_call_def sys_close_def
      cleanupFileSessionsForFd_def parser_removeClient_def)

lemma map_of_removeClient:
  "registry_ok cs \<Longrightarrow> map_of (removeClient fd cs) = (map_of cs)(fd := None)"
  by (simp add: removeClient_def map_of_om_del registry_okD(1))

lemma abs_users_removeClient:
  "registry_ok cs \<Longrightarrow> abs_users (removeClient fd cs) = (abs_users cs)(fd := None)"
  by (auto simp: abs_users_def map_of_removeClient fun_eq_iff)

lemma abs_chat_purge:
  assumes "registry_ok (sv_clients s)"
  shows "abs_chat (purge fd s) = spec_leave fd (abs_chat s)"
proof -
  have "abs_files (sv_files (purge fd s)) f = ch_files (spec_leave fd (abs_chat s)) f" for f
    by (cases "sv_files s f") (simp_all add: abs_files_def purge_fields spec_leave_def)
  then show ?thesis
    using assms by (simp add: abs_chat_def spec_leave_def purge_fields abs_users_removeClient fun_eq_iff)
qed

text \<open>The descriptor is dropped from the list of those to disconnect, and purged.\<close>

lemma server_ok_purge:
  assumes ok: "server_ok s" and ds: "set (sv_disconnecting s) \<subseteq> insert fd (set ds)"
    and ne: "fd \<noteq> sv_listenFd s" and sub: "set ds \<subseteq> set (sv_disconnecting s)"
  shows "server_ok (purge fd (s\<lparr>sv_disconnecting := ds\<rparr>))"
proof -
  let ?s = "purge fd (s\<lparr>sv_disconnecting := ds\<rparr>)"
  note r = server_okD(5) [OF ok]
  have eqs: "sv_clients ?s = removeClient fd (sv_clients s)" "sv_listenFd ?s = sv_listenFd s"
    "sv_handlers ?s = (sv_handlers s)(fd := None)" "sv_recvBuffers ?s = (sv_recvBuffers s)(fd := None)"
    "os_open (sv_os ?s) = removeAll fd (os_open (sv_os s))" "sv_pending ?s = sv_pending s"
    "sv_disconnecting ?s = ds" "sv_timedOut ?s = sv_timedOut s"
    "sv_hasReactor ?s = sv_hasReactor s" "sv_hasClientMgr ?s = sv_hasClientMgr s"
    "sv_hasProtocol ?s = sv_hasProtocol s"
    by (simp_all add: purge_fields)
  have find: "findHandler g (sv_reactor ?s) = (if g = fd then None else findHandler g (sv_reactor s))" for g
    by (simp add: findHandler_def purge_fields)
  have r': "registry_ok (removeClient fd (sv_clients s))" using r by (rule registry_ok_removeClient)
  have "card (dom (abs_users (sv_clients s)) - {fd}) \<le> card (dom (abs_users (sv_clients s)))"
    using finite_abs [OF r] by (intro card_mono) auto
  then have count: "getOnlineCount (removeClient fd (sv_clients s)) \<le> kMaxOnlineClients"
    using server_okD(6) [OF ok] getOnlineCount_card [OF r]
    by (simp add: getOnlineCount_card [OF r'] abs_users_removeClient [OF r])
  have dom: "\<forall>g. ((sv_handlers s)(fd := None)) g = None \<longleftrightarrow>
      map_of (removeClient fd (sv_clients s)) g = None"
    using server_okD(7) [OF ok] by (simp add: map_of_removeClient [OF r])
  have f1: "findHandler (sv_listenFd s) (sv_reactor ?s) = Some (ListenHandler (sv_listenFd s))"
    using links_okD(1) [OF ok] ne by (simp add: find)
  have f2: "\<forall>g h. findHandler g (sv_reactor ?s) = Some h \<longrightarrow>
      g = sv_listenFd s \<or> ((sv_handlers s)(fd := None)) g \<noteq> None"
    using links_okD(3) [OF ok] by (auto simp: find simp del: not_None_eq)
  have files: "\<forall>f x. sv_files ?s f = Some x \<longrightarrow>
      ((sv_handlers s)(fd := None)) (fs_senderFd x) \<noteq> None \<and>
      ((sv_handlers s)(fd := None)) (fs_receiverFd x) \<noteq> None"
    using server_okD(8) [OF ok]
    by (auto simp: purge_fields simp del: not_None_eq split: option.splits if_splits)
  have bufs: "\<forall>g b. ((sv_recvBuffers s)(fd := None)) g = Some b \<longrightarrow>
      ((sv_handlers s)(fd := None)) g \<noteq> None \<and> length b < sizeof_MessageHeader + 1048576"
    using server_okD(9) [OF ok] by (auto simp del: not_None_eq split: if_splits)
  have l: "sv_listenFd s \<in> set (removeAll fd (os_open (sv_os s)))"
    "queue_ok (sv_listenFd s) (sv_pending s @ ds @ sv_timedOut s)"
    using links_okD(2,4) [OF ok] ne sub by (auto simp: queue_ok_def)
  have links: "links_ok ?s"
    unfolding links_ok_def eqs using r' count dom f1 f2 files bufs l by blast
  have "conns_ok ?s"
  proof (rule conns_okI)
    show "watched (sv_reactor ?s)"
      using watched_remove [OF server_ok_watched [OF ok], of fd]
      by (simp add: purge_def reactor_remove_def count_call_def sys_close_def cleanupFileSessionsForFd_def)
  next
    fix g c assume "sv_handlers ?s g = Some c"
    then have c: "((sv_handlers s)(fd := None)) g = Some c" by (simp add: eqs)
    then have "conn_inv s g c" and "g \<noteq> fd"
      using conns_okD [OF server_okD(4) [OF ok]] by (auto split: if_splits)
    then show "conn_inv ?s g c"
      using ds by (auto simp: conn_inv_def eqs purge_fields)
  qed
  then show ?thesis
    using links server_okD(1-3) [OF ok] by (simp add: server_ok_def eqs)
qed

lemma sends_broadcast_ok:
  assumes "server_ok s"
  shows "implements (abs_chat s) (announce (abs_chat s)) {} s (broadcastUserList s)"
  using sends_implements [OF assms] sends_broadcastUserList [OF server_okD(2) [OF assms]]
  by (simp add: broadcast_abs [OF server_okD(5) [OF assms]])

text \<open>One disconnection of the list.\<close>

definition after_leave :: "int \<Rightarrow> server \<Rightarrow> chat \<times> delivery list" where
  "after_leave fd s =
     (let a = spec_leave fd (abs_chat s) in (a, if sv_running s then announce a else []))"

lemma disconnectNext_ok:
  assumes ok: "server_ok s" and ds: "sv_disconnecting s = fd # ds"
  shows "server_ok (disconnectNext s)"
    and "abs_chat (disconnectNext s) = spec_leave fd (abs_chat s)"
    and "sv_handlers (disconnectNext s) g = None \<longleftrightarrow> g = fd \<or> sv_handlers s g = None"
    and "g \<noteq> fd \<Longrightarrow> out_grows s (disconnectNext s) g (bytes_to g (map deliver (snd (after_leave fd s))))"
    and "sv_disconnecting (disconnectNext s) = ds"
    and "sv_running (disconnectNext s) = sv_running s"
    and "fd \<notin> set (os_open (sv_os (disconnectNext s)))"
proof -
  let ?p = "purge fd (s\<lparr>sv_disconnecting := ds\<rparr>)"
  have ne: "fd \<noteq> sv_listenFd s" and fd: "0 \<le> fd" using links_okD(4) [OF ok] ds by (auto simp: queue_ok_def)
  have okp: "server_ok ?p" using ds ne by (intro server_ok_purge [OF ok]) auto
  have absp: "abs_chat ?p = spec_leave fd (abs_chat s)"
    using abs_chat_purge [of "s\<lparr>sv_disconnecting := ds\<rparr>" fd] server_okD(5) [OF ok]
    by (simp add: abs_chat_def)
  have e: "disconnectNext s = (if sv_running s then broadcastUserList ?p else ?p)"
    using server_okD(1-3) [OF ok] fd
    by (simp add: disconnectNext_def ds handleClientDisconnect_purge)
  have B: "implements (abs_chat ?p) (snd (after_leave fd s)) {} ?p (disconnectNext s)"
    using sends_broadcast_ok [OF okp] nothing_done [OF okp]
    by (simp add: e after_leave_def absp Let_def)
  note D = implementsD [OF B] and O = outerD [OF implementsD(3) [OF B]]
  show "server_ok (disconnectNext s)" and "abs_chat (disconnectNext s) = spec_leave fd (abs_chat s)"
    using D(1,2) absp by simp_all
  show "sv_handlers (disconnectNext s) g = None \<longleftrightarrow> g = fd \<or> sv_handlers s g = None"
    using D(4) [of g] by (simp add: purge_fields)
  show "out_grows s (disconnectNext s) g (bytes_to g (map deliver (snd (after_leave fd s))))"
    if "g \<noteq> fd"
  proof -
    have same: "alive ?p g = alive s g" "out_stream ?p g = out_stream s g"
      using that by (simp_all add: alive_def out_stream_def purge_fields)
    show ?thesis using D(5) [of g] unfolding out_grows_def same .
  qed
  show "sv_disconnecting (disconnectNext s) = ds" "sv_running (disconnectNext s) = sv_running s"
    "fd \<notin> set (os_open (sv_os (disconnectNext s)))"
    using O by (simp_all add: purge_fields)
qed

lemma distinct_remdups_adj: "sorted xs \<Longrightarrow> distinct (remdups_adj xs)"
  by (induction xs rule: remdups_adj.induct) (auto simp: order.order_iff_strict)

text \<open>The whole list, and the queue it is taken from.\<close>

lemma server_ok_queues:
  assumes ok: "server_ok s" and q: "queue_ok (sv_listenFd s) (p @ d @ t)"
    and sub: "set (sv_pending s) \<union> set (sv_disconnecting s) \<subseteq> set p \<union> set d"
  shows "server_ok (s\<lparr>sv_pending := p, sv_disconnecting := d, sv_timedOut := t\<rparr>)"
proof -
  let ?s = "s\<lparr>sv_pending := p, sv_disconnecting := d, sv_timedOut := t\<rparr>"
  have eqs: "sv_hasReactor ?s = sv_hasReactor s" "sv_hasClientMgr ?s = sv_hasClientMgr s"
    "sv_hasProtocol ?s = sv_hasProtocol s" "sv_clients ?s = sv_clients s"
    "sv_handlers ?s = sv_handlers s" "sv_reactor ?s = sv_reactor s" "sv_os ?s = sv_os s"
    "sv_listenFd ?s = sv_listenFd s" "sv_files ?s = sv_files s"
    "sv_recvBuffers ?s = sv_recvBuffers s" "sv_pending ?s = p" "sv_disconnecting ?s = d"
    "sv_timedOut ?s = t" by simp_all
  have "conns_ok ?s"
    using server_okD(4) [OF ok] sub unfolding conns_ok_def conn_inv_def eqs by blast
  then show ?thesis
    using ok [unfolded server_ok_def links_ok_def] q unfolding server_ok_def links_ok_def eqs by blast
qed

lemma swapPending_ok:
  assumes ok: "server_ok s" and none: "sv_disconnecting s = []"
  shows "server_ok (swapPending s)" and "abs_chat (swapPending s) = abs_chat s"
    and "sv_handlers (swapPending s) = sv_handlers s"
    and "set (sv_disconnecting (swapPending s)) = set (sv_pending s)"
    and "sv_pending (swapPending s) = []" and "sv_running (swapPending s) = sv_running s"
    and "distinct (sv_disconnecting (swapPending s))"
proof -
  show "server_ok (swapPending s)"
    using server_ok_queues [OF ok, of "[]" "remdups_adj (sort (sv_pending s))" "sv_timedOut s"]
      links_okD(4) [OF ok] none ok
    by (cases s) (auto simp: swapPending_def queue_ok_def)
  show "distinct (sv_disconnecting (swapPending s))"
    using none by (simp add: swapPending_def distinct_remdups_adj)
qed (use none in \<open>simp_all add: swapPending_def abs_chat_def\<close>)

lemma disconnect_all_ok:
  "server_ok s \<Longrightarrow> sv_disconnecting s = ds \<Longrightarrow> (disconnectNext ^^ length ds) s = s' \<Longrightarrow>
   server_ok s' \<and> sv_disconnecting s' = [] \<and> abs_chat s' = fold spec_leave ds (abs_chat s) \<and>
   (\<forall>g. sv_handlers s' g = None \<longleftrightarrow> g \<in> set ds \<or> sv_handlers s g = None)"
proof (induction ds arbitrary: s)
  case (Cons fd ds)
  note N = disconnectNext_ok [OF Cons.prems(1,2)]
  have "server_ok s' \<and> sv_disconnecting s' = [] \<and>
      abs_chat s' = fold spec_leave ds (abs_chat (disconnectNext s)) \<and>
      (\<forall>g. sv_handlers s' g = None \<longleftrightarrow> g \<in> set ds \<or> sv_handlers (disconnectNext s) g = None)"
    using Cons.IH [OF N(1,5)] Cons.prems(3) by (simp add: funpow_swap1)
  then show ?case using N(2,3) by auto
qed auto

lemma processPendingDisconnects_ok:
  assumes ok: "server_ok s" and none: "sv_disconnecting s = []"
    and s': "processPendingDisconnects s = s'"
  shows "server_ok s'" and "sv_disconnecting s' = []"
    and "abs_chat s' = fold spec_leave (sv_disconnecting (swapPending s)) (abs_chat s)"
    and "sv_handlers s' g = None \<longleftrightarrow> g \<in> set (sv_pending s) \<or> sv_handlers s g = None"
proof -
  note S = swapPending_ok [OF ok none]
  note A = disconnect_all_ok [OF S(1) refl refl]
  show "server_ok s'" "sv_disconnecting s' = []"
    "abs_chat s' = fold spec_leave (sv_disconnecting (swapPending s)) (abs_chat s)"
    "sv_handlers s' g = None \<longleftrightarrow> g \<in> set (sv_pending s) \<or> sv_handlers s g = None"
    using A s' S(2,3,4) by (simp_all add: processPendingDisconnects_def Let_def)
qed

section \<open>The heartbeat thread\<close>

lemma heartbeat_scan_ok:
  assumes "server_ok s"
  shows "server_ok (heartbeat_scan s)"
proof -
  let ?t = "checkTimeout (os_now (sv_os s)) kHeartbeatTimeoutSec (sv_clients s)"
  have "0 \<le> fd \<and> fd \<noteq> sv_listenFd s" if "fd \<in> set ?t" for fd
  proof -
    have "fd \<in> fst ` set (sv_clients s)" using that by (force simp: checkTimeout_def)
    then have "sv_handlers s fd \<noteq> None"
      using server_okD(7) [OF assms, of fd] by (simp add: map_of_eq_None_iff)
    then show ?thesis
      using not_listening handler_nonneg server_okD(4) [OF assms] by blast
  qed
  then have "server_ok (s\<lparr>sv_pending := sv_pending s, sv_disconnecting := sv_disconnecting s,
      sv_timedOut := ?t\<rparr>)"
    using links_okD(4) [OF assms] by (intro server_ok_queues [OF assms]) (auto simp: queue_ok_def)
  then show ?thesis by (cases s) (simp add: heartbeat_scan_def)
qed

lemma heartbeat_queue_ok:
  assumes "server_ok s"
  shows "server_ok (heartbeat_queue s)"
proof (cases "sv_timedOut s")
  case Nil
  then show ?thesis using assms by (simp add: heartbeat_queue_def)
next
  case (Cons fd fds)
  then have "server_ok (s\<lparr>sv_pending := sv_pending s @ [fd], sv_disconnecting := sv_disconnecting s,
      sv_timedOut := fds\<rparr>)"
    using links_okD(4) [OF assms] by (intro server_ok_queues [OF assms]) (auto simp: queue_ok_def)
  moreover have "heartbeat_queue s = s\<lparr>sv_pending := sv_pending s @ [fd],
      sv_disconnecting := sv_disconnecting s, sv_timedOut := fds\<rparr>"
    by (auto simp: heartbeat_queue_def Cons queueDisconnect_def intro: server.equality)
  ultimately show ?thesis by simp
qed

end
