(* ===== verification/Server_Properties.thy ===== *)
theory Server_Properties
  imports Server_Events
begin

text \<open>
  The properties of the server's operations: each message handler against the room of
  \<open>Chat_Spec\<close>, the read path, the send path, new connections and disconnections. A small
  server with two clients serves the instances.
\<close>

section \<open>A server with two clients\<close>

definition demo_os :: os where
  "demo_os = \<lparr>os_endian = Little, os_open = [3, 4, 5, 6], os_send = (\<lambda>_. []), os_recv = (\<lambda>_. []),
     os_accept = [], os_ctl = (\<lambda>_ _ _. True), os_calls = 0, os_fcntl = (\<lambda>_. (Some 0, True)),
     os_now = 0, os_epoch = 1000, os_wire = (\<lambda>_. [])\<rparr>"

definition demo_client :: "int \<Rightarrow> byte \<Rightarrow> ClientInfo" where
  "demo_client fd name = \<lparr>ci_fd = fd, ci_clientId = [name], ci_nickname = [name], ci_ip = [],
     ci_port = 0, ci_lastHeartbeat = 0, ci_isOnline = True\<rparr>"

definition demo_reactor :: reactor where
  "demo_reactor = \<lparr>re_epoll = \<lparr>ep_fd = 4, ep_interest = [3 \<mapsto> toEpollEvents EVENT_READ,
       5 \<mapsto> toEpollEvents EVENT_READ, 6 \<mapsto> toEpollEvents EVENT_READ], ep_stale = {}\<rparr>,
     re_handlers = [3 \<mapsto> \<lparr>he_handler = ListenHandler 3, he_events = EVENT_READ\<rparr>,
                    5 \<mapsto> \<lparr>he_handler = ClientHandler 5, he_events = EVENT_READ\<rparr>,
                    6 \<mapsto> \<lparr>he_handler = ClientHandler 6, he_events = EVENT_READ\<rparr>]\<rparr>"

definition demo :: server where
  "demo = \<lparr>sv_running = True, sv_listenFd = 3, sv_hasReactor = True, sv_hasClientMgr = True,
     sv_hasProtocol = True, sv_reactor = demo_reactor,
     sv_clients = [(5, demo_client 5 65), (6, demo_client 6 66)],
     sv_recvBuffers = (\<lambda>_. None), sv_handlers = [5 \<mapsto> new_ClientHandler, 6 \<mapsto> new_ClientHandler],
     sv_pending = [], sv_files = (\<lambda>_. None), sv_disconnecting = [], sv_timedOut = [], sv_os = demo_os\<rparr>"

lemma demo_registry: "registry_ok [(5, demo_client 5 65), (6, demo_client 6 66)]"
  by (simp add: registry_ok_def om_ok_def entry_ok_def demo_client_def clip_id unique_online_def)

lemma demo_watched: "watched demo_reactor"
  by (auto simp: watched_def entry_watched_def demo_reactor_def watches_iff EVENT_READ_def)

lemma demo_ok: "server_ok demo"
proof -
  have "conns_ok demo"
    using demo_watched
    by (simp add: conns_ok_def conn_inv_def demo_def demo_os_def demo_reactor_def write_mask_def)
  moreover have "links_ok demo"
    using demo_registry
    by (auto simp: links_ok_def demo_def demo_os_def demo_reactor_def findHandler_def queue_ok_def
        getOnlineCount_def kMaxOnlineClients_def demo_client_def)
  ultimately show ?thesis by (simp add: server_ok_def demo_def)
qed

lemma demo_handlers [simp]: "sv_handlers demo = [5 \<mapsto> new_ClientHandler, 6 \<mapsto> new_ClientHandler]"
  by (simp add: demo_def)

lemma demo_alive [simp]: "alive demo 5" "alive demo 6"
  by (simp_all add: alive_def)

section \<open>The message handlers\<close>

text \<open>
  C1: handling a message implements one step of the chat room: the invariant is kept, the
  registry and the file sessions change as specified, and every connection's output grows
  by exactly the specified replies, encoded, unless the connection fails on the way.
\<close>

theorem handleMessage_refines_room:
  assumes "server_ok s" and "sv_handlers s fd \<noteq> None"
    and "spec_step (os_epoch (sv_os s)) fd (sequence h) (decode_request (msgType h) body)
      (abs_chat s) = (a', outs)"
  shows "server_ok (handleMessage fd h body s) \<and> abs_chat (handleMessage fd h body s) = a' \<and>
    (\<forall>g. out_grows s (handleMessage fd h body s) g (bytes_to g (map deliver outs)))"
  using implementsD [OF handleMessage_implements [OF assms]] by simp

theorem handleMessage_refines_room_witness:
  "out_grows demo (handleMessage 5 (host_header MSG_HEARTBEAT_REQ 7 []) [] demo) 5
     (wire_message MSG_HEARTBEAT_RSP 7 [])"
proof -
  have "decode_request MSG_HEARTBEAT_REQ [] = HeartbeatReq"
    by (simp add: decode_request_def)
  then show ?thesis
    using handleMessage_refines_room [OF demo_ok, of 5 "host_header MSG_HEARTBEAT_REQ 7 []" "[]"
        "abs_chat demo" "[(5, 7, HeartbeatRsp)]"]
    by (auto dest: spec [of _ 5])
qed

text \<open>
  C2: reading a connection until the kernel has nothing more implements the run of the
  room over all complete messages in what was read, in order; the unfinished rest stays
  in the connection's buffer.
\<close>

theorem handleRead_refines_room:
  assumes "server_ok s" and "alive s fd"
    and "chunk_frames (buffer_of (sv_recvBuffers s) fd) (read_chunks (os_recv (sv_os s) fd)) = (fs, rest)"
    and "spec_run (os_epoch (sv_os s)) fd fs (abs_chat s) = (a', outs)"
  shows "server_ok (client_handleRead fd s) \<and> abs_chat (client_handleRead fd s) = a' \<and>
    (\<forall>g. out_grows s (client_handleRead fd s) g (bytes_to g (map deliver outs))) \<and>
    buffer_of (sv_recvBuffers (client_handleRead fd s)) fd = rest"
  using servesD [OF client_handleRead_serves(1) [OF assms]] client_handleRead_serves(2) [OF assms]
  by simp

theorem handleRead_refines_room_witness:
  "buffer_of (sv_recvBuffers (client_handleRead 5 demo)) 5 = []"
  using handleRead_refines_room [OF demo_ok demo_alive(1), of "[]" "[]" "abs_chat demo" "[]"]
  by (simp add: demo_def demo_os_def buffer_of_def)

text \<open>Reading a stream of messages, however it is cut.\<close>

lemma client_handleRead_stream:
  assumes "server_ok s" and "alive s fd" and "buffer_of (sv_recvBuffers s) fd = []"
    and "concat (read_chunks (os_recv (sv_os s) fd)) = wire_stream ms" and "ms \<noteq> []"
    and "\<forall>(ty, sq, b) \<in> set ms. length b \<le> 1048576"
  shows "server_ok (client_handleRead fd s) \<and>
    abs_chat (client_handleRead fd s) =
      fst (spec_run (os_epoch (sv_os s)) fd (host_frames ms) (abs_chat s)) \<and>
    (\<forall>g. out_grows s (client_handleRead fd s) g (bytes_to g (map deliver
       (snd (spec_run (os_epoch (sv_os s)) fd (host_frames ms) (abs_chat s)))))) \<and>
    buffer_of (sv_recvBuffers (client_handleRead fd s)) fd = []"
proof -
  have "wire_stream ms \<noteq> []"
    using assms(5) by (cases ms) (auto simp: wire_stream_def wire_message_def wire_header_def MAGIC_NUMBER_def
        dest: arg_cong [of _ _ length])
  then have ne: "read_chunks (os_recv (sv_os s) fd) \<noteq> []" using assms(4) by auto
  have "deframe (wire_stream ms @ []) = (case deframe [] of (fs, r) \<Rightarrow> (host_frames ms @ fs, r))"
    using assms(6) by (intro deframe_stream) auto
  then have "deframe (buffer_of (sv_recvBuffers s) fd @ concat (read_chunks (os_recv (sv_os s) fd))) =
      (host_frames ms, Some [])" using assms(3,4) by simp
  from chunk_frames_whole [OF this ne]
  have cf: "chunk_frames (buffer_of (sv_recvBuffers s) fd) (read_chunks (os_recv (sv_os s) fd)) =
      (host_frames ms, [])" .
  obtain a' outs where run: "spec_run (os_epoch (sv_os s)) fd (host_frames ms) (abs_chat s) = (a', outs)"
    by fastforce
  show ?thesis
    using servesD [OF client_handleRead_serves(1) [OF assms(1,2) cf run]]
      client_handleRead_serves(2) [OF assms(1,2) cf run] by (simp add: run)
qed

text \<open>
  How the kernel cuts a client's messages into reads does not matter: the effect of
  reading them is the run of the room over the messages themselves.
\<close>

theorem read_cuts_do_not_matter:
  assumes "server_ok s" and "alive s fd" and "buffer_of (sv_recvBuffers s) fd = []"
    and "concat (read_chunks (os_recv (sv_os s) fd)) = wire_stream ms" and "ms \<noteq> []"
    and "\<forall>(ty, sq, b) \<in> set ms. length b \<le> 1048576"
  shows "abs_chat (client_handleRead fd s) =
      fst (spec_run (os_epoch (sv_os s)) fd (host_frames ms) (abs_chat s)) \<and>
    (\<forall>g. out_grows s (client_handleRead fd s) g (bytes_to g (map deliver
       (snd (spec_run (os_epoch (sv_os s)) fd (host_frames ms) (abs_chat s)))))) \<and>
    buffer_of (sv_recvBuffers (client_handleRead fd s)) fd = []"
  using client_handleRead_stream [OF assms] by simp

definition demo_reading :: server where
  "demo_reading = demo\<lparr>sv_os := demo_os\<lparr>os_recv := (\<lambda>_. [])(5 :=
     [Received (take 9 (wire_message MSG_USER_LIST_REQ 7 [])), RecvIntr,
      Received (drop 9 (wire_message MSG_USER_LIST_REQ 7 []))])\<rparr>\<rparr>"

lemma demo_reading_ok: "server_ok demo_reading" "alive demo_reading 5"
  using demo_ok os_irrelevant(1) [of "demo_os\<lparr>os_recv := (\<lambda>_. [])(5 :=
     [Received (take 9 (wire_message MSG_USER_LIST_REQ 7 [])), RecvIntr,
      Received (drop 9 (wire_message MSG_USER_LIST_REQ 7 []))])\<rparr>" demo]
  by (simp_all add: demo_reading_def alive_def) (simp add: demo_def)

theorem read_cuts_do_not_matter_witness:
  "buffer_of (sv_recvBuffers (client_handleRead 5 demo_reading)) 5 = [] \<and>
   abs_chat (client_handleRead 5 demo_reading) = abs_chat demo_reading"
proof -
  have len: "length (wire_message MSG_USER_LIST_REQ 7 []) = 16" by simp
  have ne: "take 9 (wire_message MSG_USER_LIST_REQ 7 []) \<noteq> []"
    "drop 9 (wire_message MSG_USER_LIST_REQ 7 []) \<noteq> []"
    using len by (auto dest: arg_cong [of _ _ length])
  have c: "concat (read_chunks (os_recv (sv_os demo_reading) 5)) = wire_stream [(MSG_USER_LIST_REQ, 7, [])]"
    using ne len by (simp add: demo_reading_def wire_stream_def)
  have b: "buffer_of (sv_recvBuffers demo_reading) 5 = []"
    by (simp add: demo_reading_def demo_def buffer_of_def)
  have "decode_request MSG_USER_LIST_REQ [] = UserListReq"
    by (simp add: decode_request_def msg_type_defs)
  then show ?thesis
    using read_cuts_do_not_matter [OF demo_reading_ok b c] by (simp add: host_frames_def)
qed

section \<open>Sending\<close>



text \<open>
  \<open>handleWrite\<close> only moves bytes: every stream stays what it was, byte for byte, and no
  connection becomes healthy by it.
\<close>

theorem handleWrite_moves_bytes:
  assumes "server_ok s"
  shows "server_ok (client_handleWrite fd s) \<and>
    (\<forall>g. out_stream (client_handleWrite fd s) g = out_stream s g) \<and>
    (\<forall>g. alive (client_handleWrite fd s) g \<longrightarrow> alive s g)"
proof -
  note D = sendsD [OF sends_handleWrite server_okD(4) [OF assms]]
  have g: "out_grows s (client_handleWrite fd s) g []" for g using D(5) [of fd g] by simp
  have "out_stream (client_handleWrite fd s) g = out_stream s g" for g
    using g [of g] by (cases "alive (client_handleWrite fd s) g") (auto simp: out_grows_def)
  moreover have "alive s g" if "alive (client_handleWrite fd s) g" for g
    using g [of g] that by (auto simp: out_grows_def)
  ultimately show ?thesis using server_ok_client_events(2) [OF assms] by blast
qed

theorem handleWrite_moves_bytes_witness:
  "out_stream (client_handleWrite 5 demo) 6 = out_stream demo 6"
  using handleWrite_moves_bytes [OF demo_ok, of 5] by simp

section \<open>Connections\<close>







text \<open>
  Processing the queue disconnects exactly the queued clients: afterwards a connection
  is gone when it was queued or did not exist, the list is worked off, and the room is
  what it was after each of them has left.
\<close>

theorem pending_disconnects_processed:
  assumes "server_ok s" and "sv_disconnecting s = []"
  shows "server_ok (processPendingDisconnects s) \<and>
    sv_disconnecting (processPendingDisconnects s) = [] \<and>
    (\<forall>g. sv_handlers (processPendingDisconnects s) g = None \<longleftrightarrow>
       g \<in> set (sv_pending s) \<or> sv_handlers s g = None) \<and>
    (\<exists>fds. distinct fds \<and> set fds = set (sv_pending s) \<and>
       abs_chat (processPendingDisconnects s) = fold spec_leave fds (abs_chat s))"
  using processPendingDisconnects_ok [OF assms refl] swapPending_ok(4,7) [OF assms] by blast

theorem pending_disconnects_processed_witness:
  "sv_handlers (processPendingDisconnects (queueDisconnect 5 (queueDisconnect 5 demo))) 5 = None"
proof -
  have "server_ok (queueDisconnect 5 (queueDisconnect 5 demo))"
    by (intro server_ok_queue demo_ok) (simp_all add: queueDisconnect_def demo_def)
  then show ?thesis
    using pending_disconnects_processed [of "queueDisconnect 5 (queueDisconnect 5 demo)"]
    by (simp add: queueDisconnect_def demo_def)
qed

end
