(* ===== verification/Server_Run.thy ===== *)
theory Server_Run
  imports Server_Events
begin

text \<open>
  The life of the server: \<open>Server::start\<close> with \<open>initListenSocket\<close>, the loop of
  \<open>Server::run\<close> beside the heartbeat thread, and the shutdown
  (\<open>server/src/server.cpp\<close>). The two threads and the environment are the step relation
  \<open>step\<close>; a system state is the server with the program point of each thread. The main
  thread's steps are one dispatched event or one disconnection each; the heartbeat
  thread's are its scan under the registry's lock and one \<open>queueDisconnect\<close> each.
\<close>

section \<open>Starting\<close>

text \<open>What the calls that set the listening socket up will answer; \<open>bind\<close> is asked for an address and a port.\<close>

record net_setup =
  su_socket :: bool
  su_setsockopt :: bool
  su_inet_pton :: "bytes \<Rightarrow> bool"
  su_bind :: "bytes \<Rightarrow> u16 \<Rightarrow> bool"
  su_listen :: bool
  su_epoll :: bool

definition Server :: "os \<Rightarrow> server" where
  "Server env =
     \<lparr>sv_running = False, sv_listenFd = -1, sv_hasReactor = False, sv_hasClientMgr = False,
      sv_hasProtocol = False, sv_reactor = Reactor, sv_clients = [], sv_recvBuffers = (\<lambda>_. None),
      sv_handlers = (\<lambda>_. None), sv_pending = [], sv_files = (\<lambda>_. None), sv_disconnecting = [],
      sv_timedOut = [], sv_os = env\<rparr>"

text \<open>\<open>socket\<close> and \<open>epoll_create1\<close> return the lowest unused descriptor.\<close>

definition sys_open :: "server \<Rightarrow> int \<times> server" where
  "sys_open s =
     (let fd = lowest_unused (os_open (sv_os s))
      in (fd, s\<lparr>sv_os := (sv_os s)\<lparr>os_open := os_open (sv_os s) @ [fd]\<rparr>\<rparr>))"

definition close_listen :: "server \<Rightarrow> server" where
  "close_listen s = (sys_close (sv_listenFd s) s)\<lparr>sv_listenFd := -1\<rparr>"

definition initListenSocket :: "net_setup \<Rightarrow> bytes \<Rightarrow> int \<Rightarrow> server \<Rightarrow> bool \<times> server" where
  "initListenSocket su ip port s =
     (if \<not> su_socket su then (False, s\<lparr>sv_listenFd := -1\<rparr>)
      else
        let (fd, s) = sys_open s;
            s = s\<lparr>sv_listenFd := fd\<rparr> in
        if \<not> su_setsockopt su then (False, close_listen s)
        else if ip \<noteq> lit ''0.0.0.0'' \<and> \<not> su_inet_pton su ip then (False, close_listen s)
        else if \<not> su_bind su ip (word_of_int port) then (False, close_listen s)
        else if \<not> su_listen su then (False, close_listen s)
        else if \<not> setNonBlocking fd s then (False, close_listen s)
        else (True, s))"

text \<open>\<open>Reactor::init\<close> on a fresh reactor.\<close>

definition reactor_init :: "net_setup \<Rightarrow> server \<Rightarrow> bool \<times> server" where
  "reactor_init su s =
     (let (ret, s) = (if su_epoll su then sys_open s else (-1, s));
          (ok, ep) = epoll_create ret (re_epoll (sv_reactor s))
      in (ok, s\<lparr>sv_reactor := (sv_reactor s)\<lparr>re_epoll := ep\<rparr>\<rparr>))"

text \<open>The destructor of \<open>EpollWrapper\<close>, run when \<open>reactor_\<close> is reset or replaced.\<close>

definition destroy_reactor :: "server \<Rightarrow> server" where
  "destroy_reactor s =
     (if sv_hasReactor s then
        let s' = (if 0 \<le> ep_fd (re_epoll (sv_reactor s))
                  then sys_close (ep_fd (re_epoll (sv_reactor s))) s else s)
        in s'\<lparr>sv_hasReactor := False, sv_reactor := Reactor\<rparr>
      else s)"

definition start :: "net_setup \<Rightarrow> bytes \<Rightarrow> int \<Rightarrow> server \<Rightarrow> bool \<times> server" where
  "start su ip port s =
     (case initListenSocket su ip port s of (ok, s) \<Rightarrow>
        if \<not> ok then (False, s)
        else
          case reactor_init su ((destroy_reactor s)\<lparr>sv_hasReactor := True, sv_reactor := Reactor\<rparr>) of
            (ok, s) \<Rightarrow>
              if \<not> ok then (False, close_listen s)
              else
                let s = s\<lparr>sv_hasClientMgr := True, sv_clients := [],
                          sv_hasProtocol := True, sv_recvBuffers := (\<lambda>_. None)\<rparr> in
                case reactor_register (ListenHandler (sv_listenFd s)) EVENT_READ s of
                  (ok, s) \<Rightarrow> if \<not> ok then (False, close_listen s) else (True, s))"

section \<open>Running\<close>

definition stop :: "server \<Rightarrow> server" where
  "stop s = s\<lparr>sv_running := False\<rparr>"

text \<open>\<open>run\<close> up to its loop: nothing happens to a server that was not started.\<close>

definition run_begin :: "server \<Rightarrow> server option" where
  "run_begin s =
     (if \<not> sv_hasReactor s \<or> \<not> sv_hasClientMgr s \<or> \<not> sv_hasProtocol s then None
      else Some (s\<lparr>sv_running := True\<rparr>))"

text \<open>\<open>run\<close> after the heartbeat thread was joined.\<close>

definition run_end :: "server \<Rightarrow> server" where
  "run_end s =
     (let s = cleanupAllClients s;
          s = (if 0 \<le> sv_listenFd s then close_listen s else s)
      in destroy_reactor s)"

text \<open>The destructor of \<open>Server\<close>, after the heartbeat thread was joined.\<close>

definition server_destructor :: "server \<Rightarrow> server" where
  "server_destructor s =
     (let s = cleanupAllClients (stop s)
      in if 0 \<le> sv_listenFd s then close_listen s else s)"

text \<open>Deleting the object runs its destructor, then that of its member \<open>reactor_\<close>.\<close>

definition delete_server :: "server \<Rightarrow> server" where
  "delete_server s = destroy_reactor (server_destructor s)"

text \<open>
  Program points of the main thread: the test of the loop, the two calls of
  \<open>processPendingDisconnects\<close>, the wait, the events that are left of it, the join.
\<close>

datatype main_point =
    AtTest | AtFirst | AtPoll | AtDispatch "(int \<times> u32) list" | AtSecond | AtJoin | AtEnd

datatype heartbeat_point = HbTest | HbAsleep | HbQueueing | HbExited

record system =
  sy_main :: main_point
  sy_heartbeat :: heartbeat_point
  sy_server :: server

definition dispatch :: "int \<times> u32 \<Rightarrow> server \<Rightarrow> server" where
  "dispatch = dispatch_event sv_reactor handler_read handler_write handler_error"

inductive main_step :: "system \<Rightarrow> system \<Rightarrow> bool" where
  enter_loop: "sy_main y = AtTest \<Longrightarrow> sv_running (sy_server y) \<Longrightarrow>
    main_step y (y\<lparr>sy_main := AtFirst, sy_server := swapPending (sy_server y)\<rparr>)"
| leave_loop: "sy_main y = AtTest \<Longrightarrow> \<not> sv_running (sy_server y) \<Longrightarrow>
    main_step y (y\<lparr>sy_main := AtJoin, sy_server := (sy_server y)\<lparr>sv_running := False\<rparr>\<rparr>)"
| disconnect_one: "sy_main y = AtFirst \<or> sy_main y = AtSecond \<Longrightarrow>
    sv_disconnecting (sy_server y) \<noteq> [] \<Longrightarrow>
    main_step y (y\<lparr>sy_server := disconnectNext (sy_server y)\<rparr>)"
| first_done: "sy_main y = AtFirst \<Longrightarrow> sv_disconnecting (sy_server y) = [] \<Longrightarrow>
    main_step y (y\<lparr>sy_main := AtPoll\<rparr>)"
| poll_ready: "sy_main y = AtPoll \<Longrightarrow> main_step y (y\<lparr>sy_main := AtDispatch events\<rparr>)"
| poll_error: "sy_main y = AtPoll \<Longrightarrow>
    main_step y (y\<lparr>sy_main := AtJoin, sy_server := (sy_server y)\<lparr>sv_running := False\<rparr>\<rparr>)"
| dispatch_one: "sy_main y = AtDispatch (event # events) \<Longrightarrow>
    main_step y (y\<lparr>sy_main := AtDispatch events, sy_server := dispatch event (sy_server y)\<rparr>)"
| dispatch_done: "sy_main y = AtDispatch [] \<Longrightarrow>
    main_step y (y\<lparr>sy_main := AtSecond, sy_server := swapPending (sy_server y)\<rparr>)"
| second_done: "sy_main y = AtSecond \<Longrightarrow> sv_disconnecting (sy_server y) = [] \<Longrightarrow>
    main_step y (y\<lparr>sy_main := AtTest\<rparr>)"
| joined: "sy_main y = AtJoin \<Longrightarrow> sy_heartbeat y = HbExited \<Longrightarrow>
    main_step y (y\<lparr>sy_main := AtEnd, sy_server := run_end (sy_server y)\<rparr>)"

inductive heartbeat_step :: "system \<Rightarrow> system \<Rightarrow> bool" where
  fall_asleep: "sy_heartbeat y = HbTest \<Longrightarrow> sv_running (sy_server y) \<Longrightarrow>
    heartbeat_step y (y\<lparr>sy_heartbeat := HbAsleep\<rparr>)"
| exit_test: "sy_heartbeat y = HbTest \<Longrightarrow> \<not> sv_running (sy_server y) \<Longrightarrow>
    heartbeat_step y (y\<lparr>sy_heartbeat := HbExited\<rparr>)"
| scan: "sy_heartbeat y = HbAsleep \<Longrightarrow> sv_running (sy_server y) \<Longrightarrow>
    heartbeat_step y (y\<lparr>sy_heartbeat := HbQueueing, sy_server := heartbeat_scan (sy_server y)\<rparr>)"
| exit_asleep: "sy_heartbeat y = HbAsleep \<Longrightarrow> \<not> sv_running (sy_server y) \<Longrightarrow>
    heartbeat_step y (y\<lparr>sy_heartbeat := HbExited\<rparr>)"
| queue_one: "sy_heartbeat y = HbQueueing \<Longrightarrow> sv_timedOut (sy_server y) \<noteq> [] \<Longrightarrow>
    heartbeat_step y (y\<lparr>sy_server := heartbeat_queue (sy_server y)\<rparr>)"
| all_queued: "sy_heartbeat y = HbQueueing \<Longrightarrow> sv_timedOut (sy_server y) = [] \<Longrightarrow>
    heartbeat_step y (y\<lparr>sy_heartbeat := HbTest\<rparr>)"

text \<open>
  The environment: a signal calls \<open>stop\<close>; the clocks advance and the kernel's later
  answers are whatever they are, while the open descriptors, what the sockets took and
  the byte order are not its to change.
\<close>

inductive env_step :: "system \<Rightarrow> system \<Rightarrow> bool" where
  signal: "env_step y (y\<lparr>sy_server := stop (sy_server y)\<rparr>)"
| kernel: "os_open env = os_open (sv_os (sy_server y)) \<Longrightarrow>
    os_wire env = os_wire (sv_os (sy_server y)) \<Longrightarrow>
    os_endian env = os_endian (sv_os (sy_server y)) \<Longrightarrow>
    os_calls env = os_calls (sv_os (sy_server y)) \<Longrightarrow>
    os_now (sv_os (sy_server y)) \<le> os_now env \<Longrightarrow>
    env_step y (y\<lparr>sy_server := (sy_server y)\<lparr>sv_os := env\<rparr>\<rparr>)"

definition step :: "system \<Rightarrow> system \<Rightarrow> bool" where
  "step y y' \<longleftrightarrow> main_step y y' \<or> heartbeat_step y y' \<or> env_step y y'"

text \<open>The states a server can get into that was started with nothing but \<open>base\<close> open.\<close>

inductive reachable :: "int list \<Rightarrow> system \<Rightarrow> bool" for base where
  started: "os_open env = base \<Longrightarrow> start su ip port (Server env) = (True, s) \<Longrightarrow>
    run_begin s = Some s' \<Longrightarrow>
    reachable base \<lparr>sy_main = AtTest, sy_heartbeat = HbTest, sy_server = s'\<rparr>"
| step: "reachable base y \<Longrightarrow> step y y' \<Longrightarrow> reachable base y'"

end
