(* ===== verification/Server_Lifecycle.thy ===== *)
theory Server_Lifecycle
  imports Server_Run
begin

text \<open>
  Facts about the life of the server: its start establishes the invariant, every step of
  the system keeps it, no descriptor is leaked or closed by mistake, and once the server
  is told to stop its threads come to their end.
\<close>

section \<open>Open descriptors\<close>

text \<open>
  Exactly the descriptors of the process before, of the listening socket, of the epoll
  instance and of the connections are open, and those waiting to be disconnected are none
  of the first and third kind.
\<close>

definition ep_of :: "server \<Rightarrow> int" where
  "ep_of s = ep_fd (re_epoll (sv_reactor s))"

definition queued :: "server \<Rightarrow> int set" where
  "queued s = set (sv_pending s) \<union> set (sv_disconnecting s) \<union> set (sv_timedOut s)"

definition fds_ok :: "int list \<Rightarrow> server \<Rightarrow> bool" where
  "fds_ok base s \<longleftrightarrow>
     set (os_open (sv_os s)) = set base \<union> {sv_listenFd s, ep_of s} \<union> dom (sv_handlers s) \<and>
     (set base \<union> {ep_of s}) \<inter> (dom (sv_handlers s) \<union> queued s \<union> {sv_listenFd s}) = {} \<and>
     ep_of s \<notin> set base \<and> 0 \<le> sv_listenFd s \<and> 0 \<le> ep_of s"

text \<open>What an event of a connection leaves as it was.\<close>

definition loop_view :: "server \<Rightarrow> bool \<times> int \<times> int list \<times> int list \<times> int" where
  "loop_view s = (sv_running s, sv_listenFd s, sv_disconnecting s, sv_timedOut s, ep_of s)"

lemma loop_viewD:
  assumes "loop_view s' = loop_view s"
  shows "sv_running s' = sv_running s" and "sv_listenFd s' = sv_listenFd s"
    and "sv_disconnecting s' = sv_disconnecting s" and "sv_timedOut s' = sv_timedOut s"
    and "ep_of s' = ep_of s"
  using assms by (simp_all add: loop_view_def)

lemma fds_ok_quiet:
  assumes "fds_ok base s" and "loop_view s' = loop_view s" and "os_open (sv_os s') = os_open (sv_os s)"
    and "dom (sv_handlers s') = dom (sv_handlers s)"
    and "set (sv_pending s') \<subseteq> set (sv_pending s) \<union> dom (sv_handlers s)"
  shows "fds_ok base s'"
proof -
  have "queued s' \<subseteq> queued s \<union> dom (sv_handlers s)"
    using assms(5) loop_viewD [OF assms(2)] by (auto simp: queued_def)
  then show ?thesis
    using assms(1,3,4) loop_viewD [OF assms(2)] unfolding fds_ok_def by auto
qed

lemma serves_quiet:
  assumes "serves a' outs {fd} s s'" and "sv_handlers s fd \<noteq> None"
  shows "loop_view s' = loop_view s" and "fds_ok base s \<Longrightarrow> fds_ok base s'"
proof -
  note D = servesD [OF assms(1)] and I = ignoring_inputD [OF servesD(3) [OF assms(1)]]
  show v: "loop_view s' = loop_view s" using I by (simp add: loop_view_def ep_of_def)
  have d: "dom (sv_handlers s') = dom (sv_handlers s)" using D(4) by (auto simp: dom_def)
  have p: "set (sv_pending s') \<subseteq> set (sv_pending s) \<union> dom (sv_handlers s)"
  proof -
    obtain fds where f: "sv_pending s' = sv_pending s @ fds"
      "\<forall>g \<in> set fds. failed s' g \<or> g \<in> {fd}" using D(6) by blast
    have "g \<in> dom (sv_handlers s)" if "g \<in> set fds" for g
      using f(2) that assms(2) D(4) [of g] by (auto simp: failed_iff)
    then show ?thesis using f(1) by auto
  qed
  show "fds_ok base s'" if "fds_ok base s"
    using fds_ok_quiet [OF that v I(6) d p] .
qed

lemma sends_quiet:
  assumes "server_ok s" and "sends [] s s'" and "sv_handlers s fd \<noteq> None"
  shows "loop_view s' = loop_view s" and "fds_ok base s \<Longrightarrow> fds_ok base s'"
proof -
  have "implements (abs_chat s) [] {} s s'" using sends_implements [of s "[]" s'] assms by simp
  then have S: "serves (abs_chat s) [] {fd} s s'"
    using implements_serves implements_leaving_mono by blast
  show "loop_view s' = loop_view s" and "fds_ok base s \<Longrightarrow> fds_ok base s'"
    using serves_quiet [OF S assms(3)] by blast+
qed

lemma client_events_quiet:
  assumes ok: "server_ok s"
  shows "loop_view (client_handleRead fd s) = loop_view s"
    and "fds_ok base s \<Longrightarrow> fds_ok base (client_handleRead fd s)"
    and "loop_view (client_handleWrite fd s) = loop_view s"
    and "fds_ok base s \<Longrightarrow> fds_ok base (client_handleWrite fd s)"
    and "loop_view (client_handleError fd ev s) = loop_view s"
    and "fds_ok base s \<Longrightarrow> fds_ok base (client_handleError fd ev s)"
proof -
  have "loop_view (client_handleRead fd s) = loop_view s \<and>
    (fds_ok base s \<longrightarrow> fds_ok base (client_handleRead fd s))"
  proof (cases "alive s fd")
    case True
    then have h: "sv_handlers s fd \<noteq> None" by (auto simp: alive_iff)
    obtain fs rest where cf: "chunk_frames (buffer_of (sv_recvBuffers s) fd)
        (read_chunks (os_recv (sv_os s) fd)) = (fs, rest)" by fastforce
    obtain a' outs where run: "spec_run (os_epoch (sv_os s)) fd fs (abs_chat s) = (a', outs)"
      by fastforce
    show ?thesis using serves_quiet [OF client_handleRead_serves(1) [OF ok True cf run] h] by blast
  qed (simp add: client_handleRead_dead)
  then show "loop_view (client_handleRead fd s) = loop_view s"
    and "fds_ok base s \<Longrightarrow> fds_ok base (client_handleRead fd s)" by blast+
  show "loop_view (client_handleWrite fd s) = loop_view s"
    and "fds_ok base s \<Longrightarrow> fds_ok base (client_handleWrite fd s)"
    using sends_quiet [OF ok sends_handleWrite [of s fd], of fd]
    by (cases "sv_handlers s fd"; simp add: client_handleWrite_def)+
  show "loop_view (client_handleError fd ev s) = loop_view s"
    and "fds_ok base s \<Longrightarrow> fds_ok base (client_handleError fd ev s)"
    using sends_quiet [OF ok sends_handleError [of s fd ev], of fd]
    by (cases "sv_handlers s fd"; simp add: client_handleError_def)+
qed

text \<open>Accepting connections: each is registered or its descriptor closed again.\<close>

lemma registerClient_view:
  assumes "registerClient fd ip port s = (res, s')" and "sv_hasReactor s" and "sv_hasClientMgr s"
  shows "loop_view s' = loop_view s" and "sv_pending s' = sv_pending s"
    and "os_open (sv_os s') = (if res then os_open (sv_os s) else removeAll fd (os_open (sv_os s)))"
proof -
  obtain okr r where r: "registerHandler (ctl_answer s) (ClientHandler fd) EVENT_READ (sv_reactor s) =
      (okr, r)" by fastforce
  show "loop_view s' = loop_view s" and "sv_pending s' = sv_pending s"
    and "os_open (sv_os s') = (if res then os_open (sv_os s) else removeAll fd (os_open (sv_os s)))"
    using assms r registerHandler_ep_fd [OF r]
    by (auto simp: registerClient_def reactor_register_def Let_def loop_view_def ep_of_def
        sys_close_def count_call_def put_conn_def split: if_splits option.splits)
qed

lemma accept_one_view:
  assumes ok: "server_ok s" and acc: "accept_one ip port s = (res, s')"
  shows "loop_view s' = loop_view s" and "fds_ok base s \<Longrightarrow> fds_ok base s'"
proof -
  define fd where "fd = lowest_unused (os_open (sv_os s))"
  let ?t = "s\<lparr>sv_os := (sv_os s)\<lparr>os_open := os_open (sv_os s) @ [fd],
      os_wire := (os_wire (sv_os s))(fd := [])\<rparr>\<rparr>"
  have fresh: "fd \<notin> set (os_open (sv_os s))" unfolding fd_def by (rule lowest_unused_fresh)
  have reg: "registerClient fd ip port ?t = (res, s')"
    using acc by (simp add: accept_one_def sys_accept_def fd_def Let_def)
  note R = registerClient_view [OF reg, simplified, OF server_okD(1,2) [OF ok]]
  note A = accept_one_fresh(8) [OF ok acc, folded fd_def]
  show v: "loop_view s' = loop_view s" using R(1) by (simp add: loop_view_def ep_of_def)
  have q: "queued s' = queued s" using R(2) loop_viewD [OF v] by (simp add: queued_def)
  show "fds_ok base s'" if "fds_ok base s"
    using that fresh R(3) loop_viewD [OF v] q A unfolding fds_ok_def by (auto split: if_splits)
qed

lemma accept_loop_view:
  "server_ok s \<Longrightarrow> accept_loop as s = (as', s') \<Longrightarrow>
   loop_view s' = loop_view s \<and> (fds_ok base s \<longrightarrow> fds_ok base s')"
proof (induction as s rule: accept_loop.induct)
  case (5 ip sin_port as s)
  obtain fd s1 where a: "sys_accept s = (fd, s1)" by fastforce
  let ?ip = "case ip of None \<Rightarrow> lit ''unknown'' | Some a \<Rightarrow> a"
  let ?port = "uint (ntohs (os_endian (sv_os s1)) sin_port)"
  obtain res s2 where acc: "accept_one ?ip ?port s = (res, s2)" by fastforce
  then have s2: "s2 = snd (registerClient fd ?ip ?port s1)" by (simp add: accept_one_def a)
  have run: "accept_loop as s2 = (as', s')" using "5.prems"(2) a s2 by simp
  show ?case
    using "5.IH" [OF a [symmetric] refl refl refl] accept_one_fresh(1) [OF "5.prems"(1) acc]
      accept_one_view [OF "5.prems"(1) acc] run s2 by simp
qed auto

lemma listen_view:
  assumes "server_ok s"
  shows "loop_view (listen_handleRead s) = loop_view s"
    and "fds_ok base s \<Longrightarrow> fds_ok base (listen_handleRead s)"
proof -
  obtain as s' where a: "accept_loop (os_accept (sv_os s)) s = (as, s')" by fastforce
  have e: "fds_ok base (s'\<lparr>sv_os := (sv_os s')\<lparr>os_accept := as\<rparr>\<rparr>) = fds_ok base s'"
    by (simp add: fds_ok_def ep_of_def queued_def)
  show "loop_view (listen_handleRead s) = loop_view s"
    and "fds_ok base s \<Longrightarrow> fds_ok base (listen_handleRead s)"
    using accept_loop_view [OF assms a, of base] e
    by (simp_all add: listen_handleRead_def a loop_view_def ep_of_def)
qed

text \<open>A disconnection closes the descriptor, tells the others, and is off the list.\<close>

lemma fds_ok_purge:
  assumes f: "fds_ok base s" and fd: "fd \<notin> set base \<union> {ep_of s}" and ne: "fd \<noteq> sv_listenFd s"
    and ds: "set ds \<subseteq> set (sv_disconnecting s)"
  shows "fds_ok base (purge fd (s\<lparr>sv_disconnecting := ds\<rparr>))"
proof -
  let ?p = "purge fd (s\<lparr>sv_disconnecting := ds\<rparr>)"
  have ep: "ep_of ?p = ep_of s"
    by (simp add: ep_of_def purge_def reactor_remove_def count_call_def sys_close_def
        cleanupFileSessionsForFd_def)
  have "queued ?p \<subseteq> queued s" using ds by (auto simp: queued_def purge_fields)
  then show ?thesis
    using f ne fd unfolding fds_ok_def ep by (auto simp: purge_fields)
qed

lemma disconnectNext_view:
  assumes ok: "server_ok s" and ds: "sv_disconnecting s = fd # ds"
  shows "sv_running (disconnectNext s) = sv_running s"
    and "sv_listenFd (disconnectNext s) = sv_listenFd s"
    and "sv_timedOut (disconnectNext s) = sv_timedOut s"
    and "fds_ok base s \<Longrightarrow> fds_ok base (disconnectNext s)"
proof -
  let ?p = "purge fd (s\<lparr>sv_disconnecting := ds\<rparr>)"
  have ne: "fd \<noteq> sv_listenFd s" and fd: "0 \<le> fd" using links_okD(4) [OF ok] ds by (auto simp: queue_ok_def)
  have okp: "server_ok ?p" using ds ne by (intro server_ok_purge [OF ok]) auto
  have e: "disconnectNext s = (if sv_running s then broadcastUserList ?p else ?p)"
    using server_okD(1-3) [OF ok] fd
    by (simp add: disconnectNext_def ds handleClientDisconnect_purge)
  have B: "\<exists>outs. implements (abs_chat ?p) outs {} ?p (disconnectNext s)"
    using sends_broadcast_ok [OF okp] nothing_done [OF okp] by (auto simp: e)
  then obtain outs where B: "implements (abs_chat ?p) outs {} ?p (disconnectNext s)" by blast
  note D = implementsD [OF B] and O = outerD [OF implementsD(3) [OF B]]
  have v: "loop_view (disconnectNext s) = loop_view ?p"
    using O by (simp add: loop_view_def ep_of_def)
  show "sv_running (disconnectNext s) = sv_running s" "sv_listenFd (disconnectNext s) = sv_listenFd s"
    "sv_timedOut (disconnectNext s) = sv_timedOut s"
    using O by (simp_all add: purge_fields)
  have d: "dom (sv_handlers (disconnectNext s)) = dom (sv_handlers ?p)" using D(4) by (auto simp: dom_def)
  have p: "set (sv_pending (disconnectNext s)) \<subseteq> set (sv_pending ?p) \<union> dom (sv_handlers ?p)"
  proof -
    obtain fds where "sv_pending (disconnectNext s) = sv_pending ?p @ fds"
      "\<forall>g \<in> set fds. failed (disconnectNext s) g" using D(6) by auto
    then show ?thesis using D(4) by (auto simp: failed_iff)
  qed
  show "fds_ok base (disconnectNext s)" if "fds_ok base s"
  proof -
    have "fd \<notin> set base \<union> {ep_of s}" using that ds by (auto simp: fds_ok_def queued_def)
    then have "fds_ok base ?p" using ds by (intro fds_ok_purge [OF that _ ne]) auto
    then show ?thesis using fds_ok_quiet [OF _ v O(7) d p] by blast
  qed
qed

lemma swapPending_view:
  assumes "sv_disconnecting s = []"
  shows "sv_running (swapPending s) = sv_running s" and "sv_timedOut (swapPending s) = sv_timedOut s"
    and "fds_ok base s \<Longrightarrow> fds_ok base (swapPending s)"
  using assms by (auto simp: swapPending_def fds_ok_def ep_of_def queued_def)

lemma heartbeat_queue_view:
  shows "sv_running (heartbeat_queue s) = sv_running s"
    and "sv_disconnecting (heartbeat_queue s) = sv_disconnecting s"
    and "fds_ok base s \<Longrightarrow> fds_ok base (heartbeat_queue s)"
  by (cases "sv_timedOut s"; auto simp: heartbeat_queue_def queueDisconnect_def fds_ok_def ep_of_def
      queued_def)+

lemma heartbeat_scan_view:
  assumes "server_ok s" and "sv_timedOut s = []" and "fds_ok base s"
  shows "fds_ok base (heartbeat_scan s)"
proof -
  let ?t = "checkTimeout (os_now (sv_os s)) kHeartbeatTimeoutSec (sv_clients s)"
  have "set ?t \<subseteq> dom (sv_handlers s)"
  proof
    fix fd assume "fd \<in> set ?t"
    then have "fd \<in> fst ` set (sv_clients s)" by (force simp: checkTimeout_def)
    then show "fd \<in> dom (sv_handlers s)"
      using server_okD(7) [OF assms(1), of fd] by (auto simp: map_of_eq_None_iff)
  qed
  then show ?thesis
    using assms(2,3) unfolding fds_ok_def
    by (auto simp: heartbeat_scan_def ep_of_def queued_def)
qed

text \<open>One event of a poll, whichever descriptor it names.\<close>

lemma findHandler_kind:
  assumes "server_ok s" and "findHandler fd (sv_reactor s) = Some h"
  shows "h = ListenHandler (sv_listenFd s) \<or> h = ClientHandler fd"
proof (cases "fd = sv_listenFd s")
  case True
  then show ?thesis using links_okD(1) [OF assms(1)] assms(2) by simp
next
  case False
  then obtain c where c: "sv_handlers s fd = Some c" using links_okD(3) [OF assms] by auto
  have "conn_inv s fd c" using conns_okD [OF server_okD(4) [OF assms(1)] c] .
  then show ?thesis using assms(2) by (auto simp: conn_inv_def findHandler_def split: option.splits)
qed

definition step_keeps :: "int list \<Rightarrow> server \<Rightarrow> server \<Rightarrow> bool" where
  "step_keeps base s s' \<longleftrightarrow> server_ok s' \<and> loop_view s' = loop_view s \<and> fds_ok base s'"

lemma handler_steps:
  assumes "server_ok s" and "fds_ok base s"
  shows "step_keeps base s (handler_read h s)" and "step_keeps base s (handler_write h s)"
    and "step_keeps base s (handler_error h ev s)"
  using assms server_ok_client_events [OF assms(1)] client_events_quiet [OF assms(1)]
    server_ok_listen [OF assms(1)] listen_view [OF assms(1)]
  by (cases h; simp add: step_keeps_def)+

lemma step_keepsD:
  "step_keeps base s s' \<Longrightarrow> server_ok s'" "step_keeps base s s' \<Longrightarrow> fds_ok base s'"
  "step_keeps base s s' \<Longrightarrow> loop_view s' = loop_view s"
  by (simp_all add: step_keeps_def)

lemma step_keeps_trans:
  "step_keeps base s s1 \<Longrightarrow> step_keeps base s1 s2 \<Longrightarrow> step_keeps base s s2"
  by (simp add: step_keeps_def)

lemma dispatch_keeps:
  assumes ok: "server_ok s" and f: "fds_ok base s"
  shows "step_keeps base s (dispatch event s)"
proof -
  obtain fd events where ev: "event = (fd, events)" by fastforce
  have refl: "step_keeps base s s" using ok f by (simp add: step_keeps_def)
  let ?ev = "fromEpollEvents events"
  show ?thesis
  proof (cases "findHandler fd (sv_reactor s)")
    case None
    then show ?thesis using refl by (simp add: dispatch_def dispatch_event_def ev)
  next
    case (Some h)
    define s1 where "s1 = (if ?ev AND EVENT_READ \<noteq> 0 then handler_read h s else s)"
    have k1: "step_keeps base s s1"
      using refl handler_steps(1) [OF ok f] by (simp add: s1_def)
    have w: "step_keeps base s (handler_write h' s1)" for h'
      using step_keeps_trans [OF k1] handler_steps(2) step_keepsD(1,2) [OF k1] by blast
    show ?thesis
      using k1 w handler_steps(3) [OF ok f]
      by (simp add: dispatch_def dispatch_event_def ev Some s1_def [symmetric] Let_def split: option.split)
  qed
qed

section \<open>Start and end\<close>

lemma sys_open_fresh:
  assumes "sys_open s = (fd, s')"
  shows "fd \<notin> set (os_open (sv_os s))" and "0 \<le> fd"
    and "s' = s\<lparr>sv_os := (sv_os s)\<lparr>os_open := os_open (sv_os s) @ [fd]\<rparr>\<rparr>"
  using assms lowest_unused_fresh by (auto simp: sys_open_def Let_def)

lemma initListenSocket_ok:
  assumes "initListenSocket su ip port s = (True, s')"
  shows "\<exists>fd. 0 \<le> fd \<and> fd \<notin> set (os_open (sv_os s)) \<and>
    s' = s\<lparr>sv_listenFd := fd, sv_os := (sv_os s)\<lparr>os_open := os_open (sv_os s) @ [fd]\<rparr>\<rparr>"
proof -
  obtain fd t where o: "sys_open s = (fd, t)" by fastforce
  show ?thesis
    using assms sys_open_fresh [OF o]
    by (auto simp: initListenSocket_def o Let_def split: if_splits)
qed

text \<open>The state that a successful start leaves behind.\<close>

lemma start_ok:
  assumes env: "os_open env = base" and st: "start su ip port (Server env) = (True, s)"
  shows "server_ok s" and "fds_ok base s" and "sv_running s = False" and "sv_handlers s = (\<lambda>_. None)"
    and "sv_disconnecting s = []" and "sv_timedOut s = []"
proof -
  obtain s1 where i: "initListenSocket su ip port (Server env) = (True, s1)"
    using st by (cases "initListenSocket su ip port (Server env)") (auto simp: start_def split: if_splits)
  obtain l where l: "0 \<le> l" "l \<notin> set base"
    and s1: "s1 = (Server env)\<lparr>sv_listenFd := l, sv_os := env\<lparr>os_open := base @ [l]\<rparr>\<rparr>"
    using initListenSocket_ok [OF i] env by (auto simp: Server_def)
  have ep: "su_epoll su"
    using st by (auto simp: start_def i reactor_init_def epoll_create_def split: if_splits prod.splits)
  define e where "e = lowest_unused (base @ [l])"
  have e: "0 \<le> e" "e \<notin> set base" "e \<noteq> l"
    using lowest_unused_fresh [of "base @ [l]"] by (auto simp: e_def)
  define r where "r = Reactor\<lparr>re_epoll := EpollWrapper\<lparr>ep_fd := e\<rparr>\<rparr>"
  define s2 where "s2 = s1\<lparr>sv_hasReactor := True, sv_hasClientMgr := True, sv_hasProtocol := True,
      sv_reactor := r, sv_os := env\<lparr>os_open := base @ [l, e]\<rparr>\<rparr>"
  have i2: "reactor_init su ((destroy_reactor s1)\<lparr>sv_hasReactor := True, sv_reactor := Reactor\<rparr>) =
      (True, s1\<lparr>sv_hasReactor := True, sv_reactor := r, sv_os := env\<lparr>os_open := base @ [l, e]\<rparr>\<rparr>)"
    using ep e(1) by (simp add: reactor_init_def sys_open_def destroy_reactor_def s1 Server_def r_def
        e_def [symmetric] epoll_create_def Reactor_def)
  have s2': "(s1\<lparr>sv_hasReactor := True, sv_reactor := r, sv_os := env\<lparr>os_open := base @ [l, e]\<rparr>\<rparr>)
      \<lparr>sv_hasClientMgr := True, sv_clients := [], sv_hasProtocol := True,
       sv_recvBuffers := (\<lambda>_. None)\<rparr> = s2"
    by (simp add: s2_def s1 Server_def)
  have l2: "sv_listenFd s2 = l" by (simp add: s2_def s1)
  have "start su ip port (Server env) =
      (case reactor_register (ListenHandler l) EVENT_READ s2 of
         (ok, s) \<Rightarrow> if \<not> ok then (False, close_listen s) else (True, s))"
    by (simp only: start_def i i2 prod.case Let_def s2' l2 simp_thms if_False)
  then have reg: "reactor_register (ListenHandler l) EVENT_READ s2 = (True, s)"
    using st by (auto split: prod.splits if_splits)
  obtain q where q: "registerHandler (ctl_answer s2) (ListenHandler l) EVENT_READ r = (True, q)"
    and s: "s = count_call (s2\<lparr>sv_reactor := q\<rparr>)"
    using reg by (auto simp: reactor_register_def s2_def split: prod.splits)
  have rh: "re_handlers q = (\<lambda>_. None)(l \<mapsto> \<lparr>he_handler = ListenHandler l, he_events = EVENT_READ\<rparr>)"
    using registerHandler_new [OF _ q] by (simp add: r_def Reactor_def)
  have "watched r" by (rule watched_Reactor) (simp_all add: r_def Reactor_def EpollWrapper_def)
  then have w: "watched q"
    using watched_register [of r EVENT_READ "ctl_answer s2" "ListenHandler l"] q by (simp add: EVENT_READ_def)
  have qe: "ep_fd (re_epoll q) = e"
    using registerHandler_ep_fd [OF q] by (simp add: r_def Reactor_def)
  have f: "sv_running s = False" "sv_handlers s = (\<lambda>_. None)" "sv_clients s = []"
    "sv_recvBuffers s = (\<lambda>_. None)" "sv_files s = (\<lambda>_. None)" "sv_pending s = []"
    "sv_disconnecting s = []" "sv_timedOut s = []" "sv_listenFd s = l" "sv_reactor s = q"
    "os_open (sv_os s) = base @ [l, e]" "sv_hasReactor s" "sv_hasClientMgr s" "sv_hasProtocol s"
    by (simp_all add: s count_call_def s2_def s1 Server_def)
  show "sv_running s = False" "sv_handlers s = (\<lambda>_. None)" "sv_disconnecting s = []"
    "sv_timedOut s = []" using f by simp_all
  show "server_ok s"
    by (simp add: server_ok_def links_ok_def conns_ok_def f rh findHandler_def queue_ok_def
        getOnlineCount_def w)
  show "fds_ok base s"
    using l e by (auto simp: fds_ok_def ep_of_def queued_def f qe)
qed

text \<open>All clients are disconnected when the server no longer runs.\<close>

lemma cleanup_fold:
  "server_ok s \<Longrightarrow> fds_ok base s \<Longrightarrow> \<not> sv_running s \<Longrightarrow>
   \<forall>fd \<in> set fds. 0 \<le> fd \<and> fd \<noteq> sv_listenFd s \<and> fd \<notin> set base \<union> {ep_of s} \<Longrightarrow>
   s' = fold handleClientDisconnect fds s \<Longrightarrow>
   server_ok s' \<and> fds_ok base s' \<and> loop_view s' = loop_view s \<and>
   (\<forall>g. sv_handlers s' g = (if g \<in> set fds then None else sv_handlers s g))"
proof (induction fds arbitrary: s)
  case (Cons fd fds)
  have e: "handleClientDisconnect fd s = purge fd s"
    using Cons.prems(3,4) server_okD(1-3) [OF Cons.prems(1)]
    by (simp add: handleClientDisconnect_purge)
  have same: "s\<lparr>sv_disconnecting := sv_disconnecting s\<rparr> = s" by simp
  have fd: "fd \<noteq> sv_listenFd s" "fd \<notin> set base \<union> {ep_of s}" using Cons.prems(4) by auto
  have ok: "server_ok (purge fd s)"
    using server_ok_purge [OF Cons.prems(1), of fd "sv_disconnecting s"] fd(1) unfolding same by blast
  have f: "fds_ok base (purge fd s)"
    using fds_ok_purge [OF Cons.prems(2) fd(2,1), of "sv_disconnecting s"] unfolding same by blast
  have v: "loop_view (purge fd s) = loop_view s"
    by (simp add: loop_view_def ep_of_def purge_def reactor_remove_def count_call_def sys_close_def
        cleanupFileSessionsForFd_def)
  have IH: "server_ok s' \<and> fds_ok base s' \<and> loop_view s' = loop_view (purge fd s) \<and>
     (\<forall>g. sv_handlers s' g = (if g \<in> set fds then None else sv_handlers (purge fd s) g))"
    using loop_viewD [OF v] Cons.prems(3-5) e by (intro Cons.IH [OF ok f]) auto
  then show ?case using v by (auto simp: purge_fields)
qed auto

definition stopped :: "int list \<Rightarrow> server \<Rightarrow> bool" where
  "stopped base s \<longleftrightarrow> sv_handlers s = (\<lambda>_. None) \<and> sv_clients s = [] \<and>
     sv_recvBuffers s = (\<lambda>_. None) \<and> sv_files s = (\<lambda>_. None) \<and> sv_listenFd s = -1 \<and>
     \<not> sv_hasReactor s \<and> set (os_open (sv_os s)) = set base"

lemma run_end_stopped:
  assumes ok: "server_ok s" and f: "fds_ok base s" and run: "\<not> sv_running s"
  shows "stopped base (run_end s)" and "\<not> sv_running (run_end s)"
proof -
  let ?fds = "getAllFds (sv_clients s)"
  let ?s1 = "fold handleClientDisconnect ?fds s"
  have dom: "set ?fds = dom (sv_handlers s)"
    using server_okD(7) [OF ok] by (auto simp: getAllFds_def map_of_eq_None_iff dom_def)
  have g: "\<forall>fd \<in> set ?fds. 0 \<le> fd \<and> fd \<noteq> sv_listenFd s \<and> fd \<notin> set base \<union> {ep_of s}"
  proof
    fix fd assume "fd \<in> set ?fds"
    then have d: "fd \<in> dom (sv_handlers s)" using dom by blast
    then have "0 \<le> fd" "fd \<noteq> sv_listenFd s"
      using handler_nonneg [OF server_okD(4) [OF ok]] not_listening [OF server_okD(4) [OF ok]] by auto
    then show "0 \<le> fd \<and> fd \<noteq> sv_listenFd s \<and> fd \<notin> set base \<union> {ep_of s}"
      using d f by (auto simp: fds_ok_def)
  qed
  note C = cleanup_fold [OF ok f run g refl]
  have h: "sv_handlers ?s1 = (\<lambda>_. None)"
    using C dom by (auto simp: fun_eq_iff dom_def)
  have ok1: "server_ok ?s1" and f1: "fds_ok base ?s1" and v: "loop_view ?s1 = loop_view s"
    using C by blast+
  have cl: "sv_clients ?s1 = []"
  proof (cases "sv_clients ?s1")
    case (Cons p ps)
    then show ?thesis using server_okD(7) [OF ok1, of "fst p"] h by (cases p) simp
  qed simp
  have rb: "sv_recvBuffers ?s1 = (\<lambda>_. None)"
    using server_okD(9) [OF ok1] h by (metis not_None_eq)
  have fl: "sv_files ?s1 = (\<lambda>_. None)"
    using server_okD(8) [OF ok1] h by (metis not_None_eq)
  have c: "cleanupAllClients s = ?s1"
    using server_okD(2) [OF ok] h by (cases ?s1) (simp add: cleanupAllClients_def)
  note F = f1 [unfolded fds_ok_def]
  have os: "set (os_open (sv_os ?s1)) = set base \<union> {sv_listenFd ?s1, ep_of ?s1}"
    "sv_listenFd ?s1 \<notin> set base" "ep_of ?s1 \<notin> set base" "0 \<le> sv_listenFd ?s1" "0 \<le> ep_of ?s1"
    using F h by auto
  show "stopped base (run_end s)"
    using os server_okD(1) [OF ok1]
    by (auto simp: stopped_def run_end_def c Let_def close_listen_def destroy_reactor_def sys_close_def
        ep_of_def h cl rb fl)
  show "\<not> sv_running (run_end s)"
    using run loop_viewD(1) [OF v]
    by (simp add: run_end_def c Let_def close_listen_def destroy_reactor_def sys_close_def)
qed

section \<open>The system\<close>

text \<open>
  The invariant of the running system: at every program point but the last the server's
  invariant and the accounting of the descriptors hold; the list of a thread is empty
  unless the thread works on it; the join is reached, and the heartbeat thread left, only
  when the server was told to stop.
\<close>

definition sys_ok :: "int list \<Rightarrow> system \<Rightarrow> bool" where
  "sys_ok base y \<longleftrightarrow>
     (if sy_main y = AtEnd
      then stopped base (sy_server y) \<and> \<not> sv_running (sy_server y) \<and> sy_heartbeat y = HbExited
      else server_ok (sy_server y) \<and> fds_ok base (sy_server y) \<and>
        (sv_disconnecting (sy_server y) \<noteq> [] \<longrightarrow> sy_main y = AtFirst \<or> sy_main y = AtSecond) \<and>
        (sv_timedOut (sy_server y) \<noteq> [] \<longrightarrow> sy_heartbeat y = HbQueueing) \<and>
        (sy_main y = AtJoin \<or> sy_heartbeat y = HbExited \<longrightarrow> \<not> sv_running (sy_server y)))"

inductive_cases main_stepE: "main_step y y'"
inductive_cases heartbeat_stepE: "heartbeat_step y y'"
inductive_cases env_stepE: "env_step y y'"

lemma not_running_irrelevant:
  "server_ok (s\<lparr>sv_running := b\<rparr>) = server_ok s" "fds_ok base (s\<lparr>sv_running := b\<rparr>) = fds_ok base s"
  "stopped base (s\<lparr>sv_running := b\<rparr>) = stopped base s"
  by (simp_all add: server_ok_def links_ok_def conns_ok_def conn_inv_def fds_ok_def ep_of_def
      queued_def stopped_def)

lemma sys_ok_main:
  assumes y: "sys_ok base y" and st: "main_step y y'"
  shows "sys_ok base y'"
  using st
proof cases
  case enter_loop
  then have none: "sv_disconnecting (sy_server y) = []" and ok: "server_ok (sy_server y)"
    using y by (auto simp: sys_ok_def)
  show ?thesis
    using y enter_loop swapPending_ok(1) [OF ok none] swapPending_view [OF none]
    by (simp add: sys_ok_def)
next
  case leave_loop
  then show ?thesis using y by (simp add: sys_ok_def not_running_irrelevant)
next
  case disconnect_one
  then obtain fd ds where ds: "sv_disconnecting (sy_server y) = fd # ds"
    by (cases "sv_disconnecting (sy_server y)") auto
  have ok: "server_ok (sy_server y)" using y disconnect_one by (auto simp: sys_ok_def)
  show ?thesis
    using y disconnect_one disconnectNext_ok(1) [OF ok ds] disconnectNext_view [OF ok ds]
    by (auto simp: sys_ok_def)
next
  case first_done
  then show ?thesis using y by (simp add: sys_ok_def)
next
  case poll_ready
  then show ?thesis using y by (simp add: sys_ok_def)
next
  case poll_error
  then show ?thesis using y by (simp add: sys_ok_def not_running_irrelevant)
next
  case (dispatch_one event events)
  then have k: "step_keeps base (sy_server y) (dispatch event (sy_server y))"
    using y by (intro dispatch_keeps) (auto simp: sys_ok_def)
  show ?thesis
    using y dispatch_one step_keepsD [OF k] loop_viewD [OF step_keepsD(3) [OF k]]
    by (simp add: sys_ok_def)
next
  case dispatch_done
  then have none: "sv_disconnecting (sy_server y) = []" and ok: "server_ok (sy_server y)"
    using y by (auto simp: sys_ok_def)
  show ?thesis
    using y dispatch_done swapPending_ok(1) [OF ok none] swapPending_view [OF none]
    by (simp add: sys_ok_def)
next
  case second_done
  then show ?thesis using y by (simp add: sys_ok_def)
next
  case joined
  then show ?thesis using y run_end_stopped [of "sy_server y" base] by (simp add: sys_ok_def)
qed

lemma sys_ok_heartbeat:
  assumes y: "sys_ok base y" and st: "heartbeat_step y y'"
  shows "sys_ok base y'"
  using st
proof cases
  case scan
  then show ?thesis
    using y heartbeat_scan_ok [of "sy_server y"] heartbeat_scan_view [of "sy_server y" base]
    by (auto simp: sys_ok_def) (simp_all add: heartbeat_scan_def)
next
  case queue_one
  then show ?thesis
    using y heartbeat_queue_ok [of "sy_server y"] heartbeat_queue_view(1,2) [of "sy_server y"]
      heartbeat_queue_view(3) [of base "sy_server y"]
    by (auto simp: sys_ok_def)
qed (use y in \<open>auto simp: sys_ok_def\<close>)

lemma sys_ok_env:
  assumes y: "sys_ok base y" and st: "env_step y y'"
  shows "sys_ok base y'"
  using st
proof cases
  case signal
  then show ?thesis using y by (simp add: sys_ok_def stop_def not_running_irrelevant)
next
  case (kernel env)
  have "fds_ok base ((sy_server y)\<lparr>sv_os := env\<rparr>) = fds_ok base (sy_server y)"
    "stopped base ((sy_server y)\<lparr>sv_os := env\<rparr>) = stopped base (sy_server y)"
    using kernel(2) by (simp_all add: fds_ok_def ep_of_def queued_def stopped_def)
  then show ?thesis
    using y kernel(1) os_irrelevant(1) [OF kernel(2)] by (simp add: sys_ok_def)
qed

lemma sys_ok_step: "sys_ok base y \<Longrightarrow> step y y' \<Longrightarrow> sys_ok base y'"
  unfolding step_def using sys_ok_main sys_ok_heartbeat sys_ok_env by blast

lemma run_begin_ok: "run_begin s = Some s' \<Longrightarrow> s' = s\<lparr>sv_running := True\<rparr>"
  by (auto simp: run_begin_def split: if_splits)

lemma reachable_sys_ok: "reachable base y \<Longrightarrow> sys_ok base y"
proof (induction rule: reachable.induct)
  case (started env su ip port s s')
  then show ?case
    using start_ok [OF started(1,2)] run_begin_ok [OF started(3)]
    by (simp add: sys_ok_def not_running_irrelevant)
next
  case (step y y')
  then show ?case by (blast intro: sys_ok_step)
qed

text \<open>The steps through one poll do what \<open>Reactor::poll\<close> does.\<close>

lemma server_poll_dispatch:
  "server_poll (WaitReady events # ws) s = (int (length events), fold dispatch events s)"
  by (simp add: server_poll_def dispatch_def)

lemma poll_steps:
  "main_step\<^sup>*\<^sup>* \<lparr>sy_main = AtDispatch events, sy_heartbeat = h, sy_server = s\<rparr>
     \<lparr>sy_main = AtDispatch [], sy_heartbeat = h, sy_server = fold dispatch events s\<rparr>"
proof (induction events arbitrary: s)
  case (Cons e es)
  have "main_step \<lparr>sy_main = AtDispatch (e # es), sy_heartbeat = h, sy_server = s\<rparr>
      \<lparr>sy_main = AtDispatch es, sy_heartbeat = h, sy_server = dispatch e s\<rparr>"
    using main_step.dispatch_one [of "\<lparr>sy_main = AtDispatch (e # es), sy_heartbeat = h, sy_server = s\<rparr>"]
    by simp
  then show ?case using Cons.IH [of "dispatch e s"] by (simp add: converse_rtranclp_into_rtranclp)
qed simp

section \<open>Shutdown\<close>

text \<open>
  Once \<open>running_\<close> is false, each step of a thread brings the system closer to its end:
  the point of the main thread, what is left of its list, the point of the heartbeat
  thread, what is left of its list decrease lexicographically.
\<close>

fun main_rank :: "main_point \<Rightarrow> nat" where
  "main_rank AtFirst = 6"
| "main_rank AtPoll = 5"
| "main_rank (AtDispatch es) = 4"
| "main_rank AtSecond = 3"
| "main_rank AtTest = 2"
| "main_rank AtJoin = 1"
| "main_rank AtEnd = 0"

fun main_left :: "main_point \<Rightarrow> server \<Rightarrow> nat" where
  "main_left (AtDispatch es) s = length es"
| "main_left _ s = length (sv_disconnecting s)"

fun heartbeat_rank :: "heartbeat_point \<Rightarrow> nat" where
  "heartbeat_rank HbQueueing = 2"
| "heartbeat_rank HbTest = 1"
| "heartbeat_rank HbAsleep = 1"
| "heartbeat_rank HbExited = 0"

definition to_end :: "(system \<times> system) set" where
  "to_end = inv_image (less_than <*lex*> less_than <*lex*> less_than <*lex*> less_than)
     (\<lambda>y. (main_rank (sy_main y), main_left (sy_main y) (sy_server y),
        heartbeat_rank (sy_heartbeat y), length (sv_timedOut (sy_server y))))"

lemma wf_to_end: "wf to_end"
  unfolding to_end_def by (intro wf_inv_image wf_lex_prod wf_less_than)

lemma main_left_queue:
  "main_left m (heartbeat_queue s) = main_left m s"
  by (cases m) (simp_all add: heartbeat_queue_view)

lemma thread_step_to_end:
  assumes y: "sys_ok base y" and off: "\<not> sv_running (sy_server y)"
    and st: "main_step y y' \<or> heartbeat_step y y'"
  shows "(y', y) \<in> to_end" and "\<not> sv_running (sy_server y')"
proof -
  have "(y', y) \<in> to_end \<and> \<not> sv_running (sy_server y')"
    using st
  proof
    assume "main_step y y'"
    then show ?thesis
    proof cases
      case disconnect_one
      then obtain fd ds where ds: "sv_disconnecting (sy_server y) = fd # ds"
        by (cases "sv_disconnecting (sy_server y)") auto
      have ok: "server_ok (sy_server y)" using y disconnect_one by (auto simp: sys_ok_def)
      show ?thesis
        using off disconnect_one(1,2) disconnectNext_ok(5,6) [OF ok ds] ds
        by (auto simp: to_end_def)
    next
      case (dispatch_one event events)
      then have k: "step_keeps base (sy_server y) (dispatch event (sy_server y))"
        using y by (intro dispatch_keeps) (auto simp: sys_ok_def)
      show ?thesis
        using off dispatch_one loop_viewD [OF step_keepsD(3) [OF k]] by (simp add: to_end_def)
    next
      case joined
      then show ?thesis using y off run_end_stopped [of "sy_server y" base] by (auto simp: to_end_def sys_ok_def)
    qed (use off in \<open>auto simp: to_end_def swapPending_def\<close>)
  next
    assume "heartbeat_step y y'"
    then show ?thesis
    proof cases
      case queue_one
      then have "length (sv_timedOut (heartbeat_queue (sy_server y))) < length (sv_timedOut (sy_server y))"
        by (cases "sv_timedOut (sy_server y)") (simp_all add: heartbeat_queue_def queueDisconnect_def)
      then show ?thesis
        using off queue_one(1) heartbeat_queue_view(1) [of "sy_server y"]
        by (simp add: to_end_def main_left_queue)
    qed (use off in \<open>auto simp: to_end_def\<close>)
  qed
  then show "(y', y) \<in> to_end" and "\<not> sv_running (sy_server y')" by blast+
qed

text \<open>As long as the end is not reached, a thread can take a step.\<close>

lemma thread_progress:
  assumes off: "\<not> sv_running (sy_server y)" and "sy_main y \<noteq> AtEnd"
  shows "\<exists>y'. main_step y y' \<or> heartbeat_step y y'"
proof (cases "sy_main y")
  case AtJoin
  show ?thesis
  proof (cases "sy_heartbeat y")
    case HbQueueing
    then show ?thesis using heartbeat_step.queue_one [of y] heartbeat_step.all_queued [of y] by blast
  qed (use AtJoin off main_step.joined [of y] heartbeat_step.exit_test [of y]
      heartbeat_step.exit_asleep [of y] in blast)+
next
  case (AtDispatch es)
  then show ?thesis
    using main_step.dispatch_done [of y] main_step.dispatch_one [of y] by (cases es) blast+
qed (use assms main_step.intros [of y] in blast)+

end
