(* ===== verification/Lifecycle_Properties.thy ===== *)
theory Lifecycle_Properties
  imports Server_Properties Server_Lifecycle
begin

text \<open>
  The properties of the server's life: what a start leaves behind, what holds in every
  state the two threads and the environment can bring it into, how it ends; and a defect
  of the list of descriptors to disconnect.
\<close>

section \<open>A start\<close>

definition demo_setup :: net_setup where
  "demo_setup = \<lparr>su_socket = True, su_setsockopt = True, su_inet_pton = (\<lambda>_. True),
     su_bind = (\<lambda>_ _. True), su_listen = True, su_epoll = True\<rparr>"

definition demo_env :: os where
  "demo_env = demo_os\<lparr>os_open := [0, 1, 2]\<rparr>"

definition thread_step :: "system \<Rightarrow> system \<Rightarrow> bool" where
  "thread_step y y' \<longleftrightarrow> main_step y y' \<or> heartbeat_step y y'"

lemma demo_lowest: "lowest_unused [0, 1, 2] = 3" "lowest_unused [0, 1, 2, 3] = 4"
  by (simp_all add: lowest_unused_def upt_rec)

definition demo_started :: server where
  "demo_started = snd (start demo_setup (lit ''0.0.0.0'') 8888 (Server demo_env))"

lemma demo_start: "start demo_setup (lit ''0.0.0.0'') 8888 (Server demo_env) = (True, demo_started)"
proof -
  have "fst (start demo_setup (lit ''0.0.0.0'') 8888 (Server demo_env))"
    by (simp add: start_def initListenSocket_def sys_open_def demo_setup_def Server_def demo_env_def
        demo_os_def demo_lowest setNonBlocking_def reactor_init_def destroy_reactor_def
        epoll_create_def Reactor_def EpollWrapper_def reactor_register_def registerHandler_def
        addFd_def ctl_answer_def)
  then show ?thesis by (simp add: demo_started_def prod_eq_iff)
qed

definition demo_system :: system where
  "demo_system = \<lparr>sy_main = AtTest, sy_heartbeat = HbTest,
     sy_server = demo_started\<lparr>sv_running := True\<rparr>\<rparr>"

lemma demo_reachable: "reachable [0, 1, 2] demo_system"
proof -
  note ok = start_ok(1) [OF refl demo_start]
  have "run_begin demo_started = Some (demo_started\<lparr>sv_running := True\<rparr>)"
    using server_okD(1-3) [OF ok] by (simp add: run_begin_def)
  from reachable.started [OF _ demo_start this] show ?thesis
    by (simp add: demo_system_def demo_env_def)
qed

lemma demo_stopped_reachable:
  "reachable [0, 1, 2] (demo_system\<lparr>sy_server := stop (sy_server demo_system)\<rparr>)"
  using reachable.step [OF demo_reachable] env_step.signal [of demo_system] unfolding step_def by blast

lemma cleanup_nobody:
  assumes "sv_handlers s = (\<lambda>_. None)" and "sv_clients s = []"
  shows "cleanupAllClients s = s"
  using assms by (cases s) (simp add: cleanupAllClients_def getAllFds_def)

lemma delete_idle:
  assumes "sv_handlers s = (\<lambda>_. None)" and "sv_clients s = []" and "sv_listenFd s = -1"
  shows "os_open (sv_os (delete_server s)) =
    (if sv_hasReactor s \<and> 0 \<le> ep_of s then removeAll (ep_of s) (os_open (sv_os s))
     else os_open (sv_os s))"
proof -
  have "cleanupAllClients (stop s) = stop s"
    using assms by (intro cleanup_nobody) (simp_all add: stop_def)
  then have "server_destructor s = stop s"
    using assms(3) by (simp add: server_destructor_def) (simp add: stop_def)
  then show ?thesis
    by (simp add: delete_server_def destroy_reactor_def Let_def sys_close_def ep_of_def)
      (simp add: stop_def)
qed

lemma initListenSocket_failed:
  assumes "initListenSocket su ip port s = (False, s')"
  shows "\<exists>r env. s' = s\<lparr>sv_reactor := r, sv_listenFd := -1, sv_os := env\<rparr> \<and> set (os_open env) = set (os_open (sv_os s))"
proof -
  obtain fd t where o: "sys_open s = (fd, t)" by fastforce
  let ?env = "(sv_os s)\<lparr>os_open := removeAll fd (os_open (sv_os s) @ [fd])\<rparr>"
  have c: "close_listen (t\<lparr>sv_listenFd := fd\<rparr>) =
      s\<lparr>sv_reactor := kernel_closes fd (sv_reactor s), sv_listenFd := -1, sv_os := ?env\<rparr>"
    using sys_open_fresh [OF o] by (simp add: close_listen_def sys_close_def)
  have "s' = s\<lparr>sv_listenFd := -1\<rparr> \<or> s' = close_listen (t\<lparr>sv_listenFd := fd\<rparr>)"
    using assms by (auto simp: initListenSocket_def o Let_def split: if_splits)
  moreover have "s\<lparr>sv_listenFd := -1\<rparr> = s\<lparr>sv_reactor := sv_reactor s, sv_listenFd := -1, sv_os := sv_os s\<rparr>" by simp
  moreover have "set (os_open ?env) = set (os_open (sv_os s))"
    using sys_open_fresh(1) [OF o] by auto
  ultimately show ?thesis unfolding c by blast
qed

lemma start_failed:
  assumes env: "os_open env = base" and st: "start su ip port (Server env) = (False, s)"
  shows "sv_listenFd s = -1" and "set (os_open (sv_os (delete_server s))) = set base"
proof -
  have key: "sv_listenFd s = -1 \<and> set (os_open (sv_os (delete_server s))) = set base"
  proof (cases "initListenSocket su ip port (Server env)")
    case (Pair ok s1)
    show ?thesis
    proof (cases ok)
      case False
      then have "s = s1" and i: "initListenSocket su ip port (Server env) = (False, s)"
        using st Pair by (simp_all add: start_def)
      obtain r env' where s: "s = (Server env)\<lparr>sv_reactor := r, sv_listenFd := -1, sv_os := env'\<rparr>"
        and o: "set (os_open env') = set base"
        using initListenSocket_failed [OF i] env by (auto simp: Server_def)
      have "os_open (sv_os (delete_server s)) = os_open env'"
        by (subst delete_idle) (simp_all add: s Server_def)
      then show ?thesis using o by (simp add: s)
    next
      case True
      obtain l where l: "0 \<le> l" "l \<notin> set base"
        and s1: "s1 = (Server env)\<lparr>sv_listenFd := l, sv_os := env\<lparr>os_open := base @ [l]\<rparr>\<rparr>"
        using initListenSocket_ok [of su ip port "Server env" s1] Pair True env by (auto simp: Server_def)
      let ?s2 = "(destroy_reactor s1)\<lparr>sv_hasReactor := True, sv_reactor := Reactor\<rparr>"
      obtain ok2 s2 where i: "reactor_init su ?s2 = (ok2, s2)" by fastforce
      show ?thesis
      proof (cases "su_epoll su")
        case False
        have s2: "\<not> ok2" "sv_listenFd s2 = l" "ep_of s2 = -1" "os_open (sv_os s2) = base @ [l]"
          "sv_handlers s2 = (\<lambda>_. None)" "sv_clients s2 = []"
          using i False
          by (auto simp: reactor_init_def s1 Server_def destroy_reactor_def epoll_create_def ep_of_def)
        have s: "s = close_listen s2" using st i Pair True s2(1) by (simp add: start_def)
        then show ?thesis
          using s2 l delete_idle [of s]
          by (simp add: close_listen_def sys_close_def ep_of_def)
      next
        case ep: True
        define e where "e = lowest_unused (base @ [l])"
        have e: "0 \<le> e" "e \<notin> set base" "e \<noteq> l"
          using lowest_unused_fresh [of "base @ [l]"] by (auto simp: e_def)
        have s2: "ok2" "sv_listenFd s2 = l" "ep_of s2 = e" "sv_hasReactor s2"
          "os_open (sv_os s2) = base @ [l, e]" "sv_handlers s2 = (\<lambda>_. None)"
          using i ep e(1)
          by (auto simp: reactor_init_def sys_open_def s1 Server_def destroy_reactor_def
              epoll_create_def ep_of_def e_def [symmetric])
        let ?s3 = "s2\<lparr>sv_hasClientMgr := True, sv_clients := [], sv_hasProtocol := True,
          sv_recvBuffers := (\<lambda>_. None)\<rparr>"
        obtain ok3 s3 where r: "reactor_register (ListenHandler l) EVENT_READ ?s3 = (ok3, s3)"
          by fastforce
        have s: "s = close_listen s3"
          using st Pair True i s2(1,2) r by (auto simp: start_def split: if_splits)
        obtain q where q': "registerHandler (ctl_answer ?s3) (ListenHandler l) EVENT_READ
            (sv_reactor ?s3) = (ok3, q)" and q: "s3 = count_call (?s3\<lparr>sv_reactor := q\<rparr>)"
          using r by (auto simp: reactor_register_def split: prod.splits)
        have "ep_fd (re_epoll q) = e"
          using registerHandler_ep_fd [OF q'] s2(3) by (simp add: ep_of_def)
        note q = q this
        have "sv_listenFd s3 = l" "ep_of s3 = e" "sv_hasReactor s3" "sv_clients s3 = []"
          "os_open (sv_os s3) = base @ [l, e]" "sv_handlers s3 = (\<lambda>_. None)"
          using q s2 by (simp_all add: count_call_def ep_of_def)
        then show ?thesis
          using l e delete_idle [of s]
          by (simp add: s close_listen_def sys_close_def ep_of_def)
      qed
    qed
  qed
  then show "sv_listenFd s = -1" and "set (os_open (sv_os (delete_server s))) = set base" by blast+
qed

text \<open>
  C31: starting the server is all or nothing: when \<open>start\<close> reports success, the invariant
  holds, nobody is connected, and exactly the listening socket and the epoll instance were
  opened; when it reports a failure, whichever call failed, there is no listening socket,
  and once the object is deleted no descriptor it opened is left.
\<close>

theorem start_all_or_nothing:
  assumes "os_open env = base" and "start su ip port (Server env) = (ok, s)"
  shows "(ok \<longrightarrow> server_ok s \<and> sv_handlers s = (\<lambda>_. None) \<and> 0 \<le> sv_listenFd s \<and>
      set (os_open (sv_os s)) = set base \<union> {sv_listenFd s, ep_of s} \<and>
      sv_listenFd s \<notin> set base \<and> ep_of s \<notin> set base \<union> {sv_listenFd s}) \<and>
    (\<not> ok \<longrightarrow> sv_listenFd s = -1 \<and> set (os_open (sv_os (delete_server s))) = set base)"
proof (cases ok)
  case True
  then have st: "start su ip port (Server env) = (True, s)" using assms(2) by simp
  note S = start_ok [OF assms(1) st]
  then have "0 \<le> sv_listenFd s \<and> set (os_open (sv_os s)) = set base \<union> {sv_listenFd s, ep_of s} \<and>
      sv_listenFd s \<notin> set base \<and> ep_of s \<notin> set base \<union> {sv_listenFd s}"
    unfolding fds_ok_def by auto
  then show ?thesis using True S by simp
next
  case False
  then show ?thesis using start_failed assms by simp
qed

theorem start_all_or_nothing_witness:
  "server_ok (snd (start demo_setup (lit ''0.0.0.0'') 8888 (Server demo_env)))"
  using start_all_or_nothing [OF refl demo_start] by (simp add: demo_start)

section \<open>Running\<close>

text \<open>
  C28: whatever the clients send, however the threads interleave and whatever the kernel
  answers, at every program point of a running server its invariant holds, and exactly the
  descriptors it was started with, its listening socket, its epoll instance and its
  connections are open: none is leaked, and none is closed that belongs to others.
\<close>

theorem reachable_invariant:
  assumes "reachable base y" and "sy_main y \<noteq> AtEnd"
  shows "server_ok (sy_server y) \<and>
    set (os_open (sv_os (sy_server y))) =
      set base \<union> {sv_listenFd (sy_server y), ep_of (sy_server y)} \<union> dom (sv_handlers (sy_server y)) \<and>
    set base \<inter> dom (sv_handlers (sy_server y)) = {} \<and>
    (sy_main y = AtPoll \<longrightarrow> sv_disconnecting (sy_server y) = [])"
proof -
  have "sys_ok base y" using assms(1) by (rule reachable_sys_ok)
  then show ?thesis using assms(2) by (auto simp: sys_ok_def fds_ok_def)
qed

theorem reachable_invariant_witness:
  "server_ok (sy_server demo_system) \<and> sv_disconnecting (sy_server demo_system) = []"
  using reachable_invariant [OF demo_reachable] start_ok(5) [OF refl demo_start]
  by (simp add: demo_system_def)

section \<open>What the kernel watches\<close>

lemma asks_for_write: "toEpollEvents (write_mask c) AND EPOLLOUT \<noteq> 0 \<longleftrightarrow> unsent c \<noteq> []"
  by (simp add: write_mask_def pending_0_iff [symmetric] epoll_mask_defs
      toEpollEvents_def kUseEdgeTriggered_def)

text \<open>
  C25: no lost wake-up: at every program point of a running server, whatever the clients,
  the threads and the kernel do, the kernel's interest set consists of the listening
  socket and the connections, each watched for reading and for the peer's shutdown. It
  asks for write events of a healthy connection exactly when bytes wait to be sent on it,
  unless \<open>epoll_ctl\<close> has refused the last change of this descriptor, which the program
  ignores.
\<close>

theorem kernel_watches_connections:
  assumes "reachable base y" and "sy_main y \<noteq> AtEnd"
    and "s = sy_server y" and "ep = re_epoll (sv_reactor s)"
  shows "dom (ep_interest ep) = insert (sv_listenFd s) (dom (sv_handlers s)) \<and>
    (\<forall>fd m. ep_interest ep fd = Some m \<longrightarrow> m AND EPOLLIN \<noteq> 0 \<and> m AND EPOLLRDHUP \<noteq> 0) \<and>
    (\<forall>fd c m. sv_handlers s fd = Some c \<longrightarrow> \<not> co_closing c \<longrightarrow> fd \<notin> ep_stale ep \<longrightarrow>
       ep_interest ep fd = Some m \<longrightarrow> (m AND EPOLLOUT \<noteq> 0 \<longleftrightarrow> unsent c \<noteq> []))"
proof -
  have ok: "server_ok s" using reachable_sys_ok [OF assms(1)] assms(2,3) by (simp add: sys_ok_def)
  note w = watchedD [OF server_ok_watched [OF ok], folded assms(4)]
  have conn: "\<exists>en. re_handlers (sv_reactor s) fd = Some en \<and> (\<not> co_closing c \<longrightarrow> he_events en = write_mask c)"
    if "sv_handlers s fd = Some c" for fd c
    using conns_okD [OF server_okD(4) [OF ok] that] by (auto simp: conn_inv_def split: option.splits)
  have "ep_interest ep fd = None \<longleftrightarrow> fd \<noteq> sv_listenFd s \<and> sv_handlers s fd = None" for fd
    unfolding w(1) using links_okD(1) [OF ok] unregistered [OF ok, of fd] conn [of fd]
    by (cases "sv_handlers s fd"; cases "fd = sv_listenFd s") (auto simp: findHandler_def)
  then have "dom (ep_interest ep) = insert (sv_listenFd s) (dom (sv_handlers s))"
    unfolding dom_def set_eq_iff by simp
  moreover have "m AND EPOLLIN \<noteq> 0 \<and> m AND EPOLLRDHUP \<noteq> 0" if "ep_interest ep fd = Some m" for fd m
    using w(1) [of fd] w(2) [of fd] that
    by (cases "re_handlers (sv_reactor s) fd") (auto simp: watches_def)
  moreover have "m AND EPOLLOUT \<noteq> 0 \<longleftrightarrow> unsent c \<noteq> []"
    if "sv_handlers s fd = Some c" "\<not> co_closing c" "fd \<notin> ep_stale ep" "ep_interest ep fd = Some m" for fd c m
    using conn [OF that(1)] w(2) [of fd] that asks_for_write [of c] by auto
  ultimately show ?thesis by blast
qed

text \<open>A client connects to the server just started.\<close>

definition demo_connected :: server where
  "demo_connected = dispatch (3, EPOLLIN)
     (demo_started\<lparr>sv_running := True, sv_os := (sv_os demo_started)\<lparr>os_accept := [Accepted None 80, AcceptAgain]\<rparr>\<rparr>)"

lemma demo_started_eq:
  "demo_started = (Server demo_env)\<lparr>sv_listenFd := 3, sv_hasReactor := True, sv_hasClientMgr := True,
     sv_hasProtocol := True,
     sv_reactor := \<lparr>re_epoll = \<lparr>ep_fd = 4, ep_interest = [3 \<mapsto> toEpollEvents EVENT_READ], ep_stale = {}\<rparr>,
       re_handlers = [3 \<mapsto> \<lparr>he_handler = ListenHandler 3, he_events = EVENT_READ\<rparr>]\<rparr>,
     sv_os := demo_env\<lparr>os_open := [0, 1, 2, 3, 4], os_calls := 1\<rparr>\<rparr>"
  by (simp add: demo_started_def start_def initListenSocket_def sys_open_def demo_setup_def Server_def demo_env_def
        demo_os_def demo_lowest setNonBlocking_def reactor_init_def destroy_reactor_def
        epoll_create_def Reactor_def EpollWrapper_def reactor_register_def registerHandler_def
        addFd_def ctl_answer_def count_call_def)

lemmas accept_eval =
  listen_handleRead_def sys_accept_def lowest_unused_def upt_rec registerClient_def setNonBlocking_def
  reactor_register_def registerHandler_def addFd_def ctl_answer_def count_call_def put_conn_def Let_def

lemma demo_connected_handlers:
  "sv_handlers demo_connected = [5 \<mapsto> new_ClientHandler]" "sv_listenFd demo_connected = 3"
  by (simp_all add: demo_connected_def demo_started_eq Server_def demo_env_def demo_os_def
    dispatch_def dispatch_event_def findHandler_def fromEpollEvents_def epoll_mask_defs accept_eval)

lemma demo_connected_reachable:
  "reachable [0, 1, 2] \<lparr>sy_main = AtDispatch [], sy_heartbeat = HbTest, sy_server = demo_connected\<rparr>"
proof -
  define s where "s = demo_started\<lparr>sv_running := True,
    sv_os := (sv_os demo_started)\<lparr>os_accept := [Accepted None 80, AcceptAgain]\<rparr>\<rparr>"
  let ?y = "\<lambda>m. \<lparr>sy_main = m, sy_heartbeat = HbTest, sy_server = s\<rparr>"
  have f: "sv_running s" "sv_pending s = []" "sv_disconnecting s = []"
    by (simp_all add: s_def demo_started_eq Server_def)
  have "env_step demo_system (?y AtTest)"
    using env_step.kernel [of "sv_os s" demo_system] by (simp add: demo_system_def s_def)
  moreover have "main_step (?y AtTest) (?y AtFirst)"
    using main_step.enter_loop [of "?y AtTest"] f by (simp add: swapPending_def)
  moreover have "main_step (?y AtFirst) (?y AtPoll)"
    using main_step.first_done [of "?y AtFirst"] f by simp
  moreover have "main_step (?y AtPoll) (?y (AtDispatch [(3, EPOLLIN)]))"
    using main_step.poll_ready [of "?y AtPoll"] by simp
  moreover have "main_step (?y (AtDispatch [(3, EPOLLIN)])) ((?y (AtDispatch []))\<lparr>sy_server := demo_connected\<rparr>)"
    using main_step.dispatch_one [of "?y (AtDispatch [(3, EPOLLIN)])"]
    by (simp add: demo_connected_def s_def)
  ultimately have "reachable [0, 1, 2] ((?y (AtDispatch []))\<lparr>sy_server := demo_connected\<rparr>)"
    using demo_reachable reachable.step unfolding step_def by blast
  then show ?thesis by simp
qed

theorem kernel_watches_connections_witness:
  "dom (ep_interest (re_epoll (sv_reactor demo_connected))) = {3, 5}"
  using kernel_watches_connections [OF demo_connected_reachable] by (simp add: demo_connected_handlers)

section \<open>Shutdown\<close>

text \<open>
  C29: once the server was told to stop, its threads cannot run for ever without reaching
  the end of \<open>run\<close>, and they are never stuck before it: every run of them is finite, and
  it can be continued until the end.
\<close>

theorem shutdown_terminates:
  assumes "reachable base y" and "\<not> sv_running (sy_server y)"
  shows "(\<exists>y'. thread_step\<^sup>*\<^sup>* y y' \<and> sy_main y' = AtEnd) \<and>
    (\<nexists>run. run 0 = y \<and> (\<forall>i. thread_step (run i) (run (Suc i))))"
proof
  have ok: "sys_ok base y" using assms(1) by (rule reachable_sys_ok)
  have next_ok: "sys_ok base x' \<and> (x', x) \<in> to_end \<and> \<not> sv_running (sy_server x')"
    if "thread_step x x'" "sys_ok base x" "\<not> sv_running (sy_server x)" for x x'
    using that thread_step_to_end [of base x x'] sys_ok_step [of base x x']
    by (auto simp: thread_step_def step_def)
  show "\<exists>y'. thread_step\<^sup>*\<^sup>* y y' \<and> sy_main y' = AtEnd"
    using ok assms(2)
  proof (induction y rule: wf_induct_rule [OF wf_to_end])
    case (1 y)
    show ?case
    proof (cases "sy_main y = AtEnd")
      case False
      then obtain x where x: "thread_step y x"
        using thread_progress [OF "1.prems"(2)] by (auto simp: thread_step_def)
      then obtain y' where "thread_step\<^sup>*\<^sup>* x y'" "sy_main y' = AtEnd"
        using "1.IH" next_ok [OF x "1.prems"] by blast
      then show ?thesis using x by (meson converse_rtranclp_into_rtranclp)
    qed blast
  qed
  show "\<nexists>run. run 0 = y \<and> (\<forall>i. thread_step (run i) (run (Suc i)))"
  proof
    assume "\<exists>run. run 0 = y \<and> (\<forall>i. thread_step (run i) (run (Suc i)))"
    then obtain run where r: "run 0 = y" "\<And>i. thread_step (run i) (run (Suc i))" by blast
    have inv: "sys_ok base (run i) \<and> \<not> sv_running (sy_server (run i))" for i
      using r(1) ok assms(2) next_ok r(2) by (induction i) auto
    have "\<forall>i. (run (Suc i), run i) \<in> to_end"
    proof
      fix i
      show "(run (Suc i), run i) \<in> to_end" using next_ok [OF r(2), of i] inv [of i] by blast
    qed
    then show False using wf_to_end unfolding wf_iff_no_infinite_down_chain by blast
  qed
qed

theorem shutdown_terminates_witness:
  "\<exists>y'. thread_step\<^sup>*\<^sup>* (demo_system\<lparr>sy_server := stop (sy_server demo_system)\<rparr>) y' \<and> sy_main y' = AtEnd"
  using shutdown_terminates [OF demo_stopped_reachable] by (simp add: stop_def)

text \<open>What is left when \<open>run\<close> has returned.\<close>

lemma ended_clean:
  assumes "reachable base y" and "sy_main y = AtEnd"
  shows "sv_handlers (sy_server y) = (\<lambda>_. None) \<and> sv_clients (sy_server y) = [] \<and>
    sv_recvBuffers (sy_server y) = (\<lambda>_. None) \<and> sv_files (sy_server y) = (\<lambda>_. None) \<and>
    sv_listenFd (sy_server y) = -1 \<and> set (os_open (sv_os (sy_server y))) = set base \<and>
    delete_server (sy_server y) = sy_server y"
proof -
  define s where "s = sy_server y"
  have st: "stopped base s" "\<not> sv_running s"
    using reachable_sys_ok [OF assms(1)] assms(2) by (simp_all add: sys_ok_def s_def)
  have "stop s = s" using st(2) by (cases s) (simp add: stop_def)
  then have "delete_server s = s"
    using st(1) by (simp add: delete_server_def server_destructor_def cleanup_nobody stopped_def
        destroy_reactor_def)
  then show ?thesis using st(1) by (simp add: stopped_def s_def)
qed

text \<open>
  C30: when \<open>run\<close> has ended, every client has been disconnected, nothing is left of their
  state, the listening socket and the epoll instance are closed, exactly the descriptors
  the process had before are open, and the destructor finds nothing to do.
\<close>

theorem run_leaves_nothing:
  assumes "reachable base y" and "sy_main y = AtEnd"
  shows "sv_handlers (sy_server y) = (\<lambda>_. None) \<and> sv_clients (sy_server y) = [] \<and>
    sv_recvBuffers (sy_server y) = (\<lambda>_. None) \<and> sv_files (sy_server y) = (\<lambda>_. None) \<and>
    sv_listenFd (sy_server y) = -1 \<and> set (os_open (sv_os (sy_server y))) = set base \<and>
    delete_server (sy_server y) = sy_server y"
  using ended_clean [OF assms] .

lemma demo_ended: "\<exists>y. reachable [0, 1, 2] y \<and> sy_main y = AtEnd"
proof -
  let ?y = "demo_system\<lparr>sy_server := stop (sy_server demo_system)\<rparr>"
  let ?y1 = "?y\<lparr>sy_main := AtJoin, sy_server := (sy_server ?y)\<lparr>sv_running := False\<rparr>\<rparr>"
  let ?y2 = "?y1\<lparr>sy_heartbeat := HbExited\<rparr>"
  let ?y3 = "?y2\<lparr>sy_main := AtEnd, sy_server := run_end (sy_server ?y2)\<rparr>"
  have "step ?y ?y1" using main_step.leave_loop [of ?y] by (simp add: step_def demo_system_def stop_def)
  moreover have "step ?y1 ?y2"
    using heartbeat_step.exit_test [of ?y1] by (simp add: step_def demo_system_def)
  moreover have "step ?y2 ?y3" using main_step.joined [of ?y2] by (simp add: step_def)
  ultimately have "reachable [0, 1, 2] ?y3" using demo_stopped_reachable reachable.step by blast
  then show ?thesis by (rule exI [of _ ?y3, OF conjI]) simp
qed

theorem run_leaves_nothing_witness:
  "\<exists>y. reachable [0, 1, 2] y \<and> set (os_open (sv_os (sy_server y))) = {0, 1, 2}"
proof -
  obtain y where "reachable [0, 1, 2] y" "sy_main y = AtEnd" using demo_ended by blast
  from run_leaves_nothing [OF this] show ?thesis using \<open>reachable [0, 1, 2] y\<close> by auto
qed

section \<open>A stale descriptor\<close>

text \<open>
  A client that failed earlier but is not disconnected yet is still in the registry, so a
  broadcast tries to send to it, fails and queues it again.
\<close>

lemma sendResponse_keeps:
  assumes "conns_ok s" and "sendResponse g p s = (ok, s')"
  shows "conns_ok s'" and "set (sv_pending s) \<subseteq> set (sv_pending s')"
    and "failed s b \<Longrightarrow> failed s' b"
proof -
  note D = sendsD [OF sends_sendResponse(1) [OF assms(2)] assms(1)]
  show "conns_ok s'" by (rule D(1))
  show "set (sv_pending s) \<subseteq> set (sv_pending s')" using D(6) by auto
  show "failed s' b" if "failed s b" using failed_stays [OF D(5) D(3) that] .
qed

lemma failed_requeued: "failed s b \<Longrightarrow> b \<in> set (sv_pending (snd (sendResponse b p s)))"
  by (auto simp: failed_def sendResponse_def queueSend_def queueDisconnect_def split: option.splits)

lemma broadcast_requeues:
  "conns_ok s \<Longrightarrow> failed s b \<Longrightarrow> b \<in> set (sv_pending s) \<or> b \<in> set (map ci_fd cl) \<Longrightarrow>
   b \<in> set (sv_pending (fold (\<lambda>info s. snd (sendResponse (ci_fd info) p s)) cl s))"
proof (induction cl arbitrary: s)
  case (Cons info cl)
  obtain ok s' where s': "sendResponse (ci_fd info) p s = (ok, s')" by fastforce
  note K = sendResponse_keeps [OF Cons.prems(1) s']
  have "b \<in> set (sv_pending s') \<or> b \<in> set (map ci_fd cl)"
    using Cons.prems(3) K(2) failed_requeued [OF Cons.prems(2), of p] s' by auto
  then show ?case using Cons.IH [OF K(1) K(3) [OF Cons.prems(2)]] s' by simp
qed simp

lemma disconnectNext_requeues:
  assumes "server_ok s" and "sv_running s" and "sv_disconnecting s = a # ds" and "a \<noteq> b"
    and "failed s b" and "getClientInfo b (sv_clients s) = Some info" and "ci_isOnline info"
  shows "b \<in> set (sv_pending (disconnectNext s))"
proof -
  let ?p = "purge a (s\<lparr>sv_disconnecting := ds\<rparr>)"
  have q: "a \<noteq> sv_listenFd s" "0 \<le> a" using links_okD(4) [OF assms(1)] assms(3) by (auto simp: queue_ok_def)
  have okp: "server_ok ?p" using assms(3) q(1) by (intro server_ok_purge [OF assms(1)]) auto
  note reg = server_okD(5) [OF assms(1)] and regp = server_okD(5) [OF okp]
  have e: "disconnectNext s = broadcastUserList ?p"
    using server_okD(1-3) [OF assms(1)] q(2) assms(2,3)
    by (simp add: disconnectNext_def handleClientDisconnect_purge)
  have f: "failed ?p b" using assms(4,5) by (simp add: failed_def purge_fields)
  have "map_of (sv_clients ?p) b = Some info"
    using assms(4,6) by (simp add: purge_fields map_of_removeClient [OF reg] getClientInfo_def)
  then have "b \<in> dom (abs_users (sv_clients ?p))" using assms(7) by (auto simp: abs_users_def)
  then have o: "b \<in> set (map ci_fd (getOnlineClients (sv_clients ?p)))"
    using dom_abs_users [OF regp] by blast
  then have "getOnlineClients (sv_clients ?p) \<noteq> []" by auto
  then show ?thesis
    using broadcast_requeues [OF server_okD(4) [OF okp] f disjI2 [OF o]] server_okD(2) [OF okp] e
    by (simp add: broadcastUserList_def Let_def)
qed

lemma disconnectNext_pending:
  assumes "server_ok s"
  shows "set (sv_pending s) \<subseteq> set (sv_pending (disconnectNext s))"
proof (cases "sv_disconnecting s")
  case (Cons a ds)
  let ?p = "purge a (s\<lparr>sv_disconnecting := ds\<rparr>)"
  have q: "a \<noteq> sv_listenFd s" "0 \<le> a" using links_okD(4) [OF assms(1)] Cons by (auto simp: queue_ok_def)
  have okp: "server_ok ?p" using Cons q(1) by (intro server_ok_purge [OF assms(1)]) auto
  have e: "disconnectNext s = (if sv_running s then broadcastUserList ?p else ?p)"
    using server_okD(1-3) [OF assms(1)] q(2) Cons
    by (simp add: disconnectNext_def handleClientDisconnect_purge)
  have "set (sv_pending ?p) \<subseteq> set (sv_pending (broadcastUserList ?p))"
    using implementsD(6) [OF sends_broadcast_ok [OF okp]] by auto
  then show ?thesis by (simp add: e purge_fields)
qed (simp add: disconnectNext_def)

lemma disconnect_all_pending:
  "server_ok s \<Longrightarrow> n \<le> length (sv_disconnecting s) \<Longrightarrow>
   set (sv_pending s) \<subseteq> set (sv_pending ((disconnectNext ^^ n) s))"
proof (induction n arbitrary: s)
  case (Suc n)
  then obtain a ds where ds: "sv_disconnecting s = a # ds" by (cases "sv_disconnecting s") auto
  note N = disconnectNext_ok [OF Suc.prems(1) ds]
  have "set (sv_pending (disconnectNext s)) \<subseteq> set (sv_pending ((disconnectNext ^^ n) (disconnectNext s)))"
    using Suc.prems(2) ds by (intro Suc.IH [OF N(1)]) (simp add: N(5))
  then show ?case
    using disconnectNext_pending [OF Suc.prems(1)] by (simp add: funpow_swap1)
qed simp

text \<open>What the round closes, and what stays of it while new connections are accepted.\<close>

lemma disconnectNext_open:
  assumes "server_ok s" and "sv_disconnecting s = fd # ds"
  shows "os_open (sv_os (disconnectNext s)) = removeAll fd (os_open (sv_os s))"
proof -
  let ?p = "purge fd (s\<lparr>sv_disconnecting := ds\<rparr>)"
  have q: "fd \<noteq> sv_listenFd s" "0 \<le> fd" using links_okD(4) [OF assms(1)] assms(2) by (auto simp: queue_ok_def)
  have okp: "server_ok ?p" using assms(2) q(1) by (intro server_ok_purge [OF assms(1)]) auto
  have "disconnectNext s = (if sv_running s then broadcastUserList ?p else ?p)"
    using server_okD(1-3) [OF assms(1)] q(2) assms(2)
    by (simp add: disconnectNext_def handleClientDisconnect_purge)
  then show ?thesis
    using outerD(7) [OF implementsD(3) [OF sends_broadcast_ok [OF okp]]] by (simp add: purge_fields)
qed

lemma disconnect_all_open:
  "server_ok s \<Longrightarrow> sv_disconnecting s = ds \<Longrightarrow>
   set (os_open (sv_os ((disconnectNext ^^ length ds) s))) = set (os_open (sv_os s)) - set ds"
proof (induction ds arbitrary: s)
  case (Cons fd ds)
  note N = disconnectNext_ok [OF Cons.prems]
  show ?case
    using Cons.IH [OF N(1,5)] disconnectNext_open [OF Cons.prems] by (auto simp: funpow_swap1)
qed simp

lemma processPendingDisconnects_closes:
  assumes "server_ok s" and "sv_disconnecting s = []"
  shows "set (os_open (sv_os (processPendingDisconnects s))) = set (os_open (sv_os s)) - set (sv_pending s)"
proof -
  note S = swapPending_ok [OF assms]
  have "sv_os (swapPending s) = sv_os s" by (simp add: swapPending_def)
  then show ?thesis
    using disconnect_all_open [OF S(1) refl] S(4) by (simp add: processPendingDisconnects_def Let_def)
qed

lemma accept_loop_pending:
  "server_ok s \<Longrightarrow> accept_loop as s = (as', s') \<Longrightarrow> sv_pending s' = sv_pending s"
proof (induction as s rule: accept_loop.induct)
  case (5 ip sin_port as s)
  obtain fd s1 where a: "sys_accept s = (fd, s1)" by fastforce
  let ?ip = "case ip of None \<Rightarrow> lit ''unknown'' | Some a \<Rightarrow> a"
  let ?port = "uint (ntohs (os_endian (sv_os s1)) sin_port)"
  obtain res s2 where acc: "accept_one ?ip ?port s = (res, s2)" by fastforce
  then have s2: "s2 = snd (registerClient fd ?ip ?port s1)" by (simp add: accept_one_def a)
  have run: "accept_loop as s2 = (as', s')" using "5.prems"(2) a s2 by simp
  show ?case
    using "5.IH" [OF a [symmetric] refl refl refl] accept_one_fresh(1,7) [OF "5.prems"(1) acc] run s2 by simp
qed auto

lemma listen_pending:
  assumes "server_ok s"
  shows "sv_pending (listen_handleRead s) = sv_pending s"
    and "sv_disconnecting (listen_handleRead s) = sv_disconnecting s"
  using accept_loop_pending [OF assms] loop_viewD(3) [OF listen_view(1) [OF assms]]
  by (auto simp: listen_handleRead_def split: prod.split)

text \<open>
  C32: a defect of the list of descriptors to disconnect. When a logged-in client whose
  connection has failed (\<open>b\<close>) is disconnected in one round with a lower descriptor (\<open>a\<close>) by
  a running server, its descriptor is closed but is queued again for the next round: the
  user list that announces the departure of \<open>a\<close> is still sent to \<open>b\<close>. A new client that
  gets the descriptor in between is disconnected in that round although nothing is wrong
  with it: nothing but the number ties the entry to the connection that failed.
\<close>

theorem stale_entry_disconnects_newcomer:
  assumes "server_ok s" and "sv_running s" and "sv_disconnecting s = []"
    and "{a, b} \<subseteq> set (sv_pending s)" and "a < b" and "failed s b"
    and "getClientInfo b (sv_clients s) = Some info" and "ci_isOnline info"
    and "s1 = processPendingDisconnects s"
    and "os_open env = os_open (sv_os s1)" and "s2 = listen_handleRead (s1\<lparr>sv_os := env\<rparr>)"
    and "s3 = processPendingDisconnects s2"
  shows "sv_handlers s1 b = None \<and> b \<notin> set (os_open (sv_os s1)) \<and> b \<in> set (sv_pending s1) \<and>
    (alive s2 b \<longrightarrow> sv_handlers s3 b = None \<and> b \<notin> set (os_open (sv_os s3)) \<and>
       getClientInfo b (sv_clients s3) = None)"
proof -
  define t where "t = swapPending s"
  note S = swapPending_ok [OF assms(1,3), folded t_def]
  note P = processPendingDisconnects_ok [OF assms(1,3) assms(9) [symmetric]]
  have t: "t = s\<lparr>sv_pending := [], sv_disconnecting := remdups_adj (sort (sv_pending s))\<rparr>"
    using assms(4) by (auto simp: t_def swapPending_def)
  obtain m ds where ds: "sv_disconnecting t = m # ds"
    using S(4) assms(4) by (cases "sv_disconnecting t") auto
  have "sorted (sv_disconnecting t)" by (simp add: t)
  then have "sorted (m # ds)" by (simp add: ds)
  then have "m \<le> a" using S(4) ds assms(4) by auto
  then have ne: "m \<noteq> b" using assms(5) by simp
  have "b \<in> set (sv_pending (disconnectNext t))"
    using assms(2,6-8) t
    by (intro disconnectNext_requeues [OF S(1) _ ds ne, of info]) (simp_all add: failed_def)
  moreover have "set (sv_pending (disconnectNext t)) \<subseteq>
      set (sv_pending ((disconnectNext ^^ length ds) (disconnectNext t)))"
    using disconnectNext_ok(1,5) [OF S(1) ds] by (intro disconnect_all_pending) simp_all
  ultimately have b: "b \<in> set (sv_pending s1)"
    by (auto simp: assms(9) processPendingDisconnects_def Let_def t_def [symmetric] ds funpow_swap1)
  have closed: "b \<notin> set (os_open (sv_os s1))"
    using processPendingDisconnects_closes [OF assms(1,3)] assms(4,9) by simp
  have ok1: "server_ok (s1\<lparr>sv_os := env\<rparr>)" using P(1) os_irrelevant(1) [OF assms(10)] by simp
  have ok2: "server_ok s2" unfolding assms(11) by (rule server_ok_listen(1) [OF ok1])
  have q2: "sv_pending s2 = sv_pending s1" "sv_disconnecting s2 = []"
    using listen_pending [OF ok1] P(2) by (simp_all add: assms(11))
  note Q = processPendingDisconnects_ok [OF ok2 q2(2) assms(12) [symmetric]]
  have h3: "sv_handlers s3 b = None" using Q(4) [of b] b q2(1) by simp
  moreover have "b \<notin> set (os_open (sv_os s3))"
    using processPendingDisconnects_closes [OF ok2 q2(2)] b q2(1) assms(12) by simp
  moreover have "getClientInfo b (sv_clients s3) = None"
    using server_okD(7) [OF Q(1), of b] h3 by (simp add: getClientInfo_def)
  ultimately show ?thesis using P(4) [of b] assms(4) b closed by simp
qed

definition demo_stale :: server where
  "demo_stale = queueDisconnect 5 (requestClose 6 (demo\<lparr>sv_os := demo_os\<lparr>os_open := [0, 1, 2, 3, 4, 5, 6]\<rparr>\<rparr>))"

lemma demo_stale_ok: "server_ok demo_stale"
proof -
  let ?d = "demo\<lparr>sv_os := demo_os\<lparr>os_open := [0, 1, 2, 3, 4, 5, 6]\<rparr>\<rparr>"
  have "server_ok ?d" by (rule server_ok_open [OF demo_ok, of 0]) (simp_all add: demo_def demo_os_def)
  then have "server_ok (requestClose 6 ?d)" by (rule servesD(1) [OF serves_requestClose])
  moreover have "sv_listenFd (requestClose 6 ?d) = 3"
    by (simp add: requestClose_def queueDisconnect_def put_conn_def demo_def)
  ultimately show ?thesis unfolding demo_stale_def by (intro server_ok_queue) simp_all
qed

lemma demo_stale_round:
  "processPendingDisconnects demo_stale = demo
     \<lparr>sv_reactor := \<lparr>re_epoll = \<lparr>ep_fd = 4, ep_interest = [3 \<mapsto> toEpollEvents EVENT_READ], ep_stale = {}\<rparr>,
        re_handlers = [3 \<mapsto> \<lparr>he_handler = ListenHandler 3, he_events = EVENT_READ\<rparr>]\<rparr>,
      sv_clients := [], sv_handlers := (\<lambda>_. None), sv_pending := [6],
      sv_os := demo_os\<lparr>os_open := [0, 1, 2, 3, 4], os_calls := 2\<rparr>\<rparr>"
  by (simp add: processPendingDisconnects_def swapPending_def demo_stale_def queueDisconnect_def
      requestClose_def put_conn_def disconnectNext_def handleClientDisconnect_def reactor_remove_def
      count_call_def removeHandler_def removeFd_def ctl_answer_def demo_def demo_reactor_def demo_os_def
      removeClient_def parser_removeClient_def cleanupFileSessionsForFd_def sys_close_def
      broadcastUserList_def getOnlineClients_def demo_client_def sendResponse_def queueSend_def
      kernel_closes_def Let_def numeral_2_eq_2)

theorem stale_entry_disconnects_newcomer_witness:
  "\<exists>s2. alive s2 6 \<and> sv_handlers (processPendingDisconnects s2) 6 = None"
proof -
  define s1 where "s1 = processPendingDisconnects demo_stale"
  define env where "env = (sv_os s1)\<lparr>os_accept := [Accepted None 80, Accepted None 80, AcceptAgain]\<rparr>"
  define s2 where "s2 = listen_handleRead (s1\<lparr>sv_os := env\<rparr>)"
  have "alive s2 6"
    by (simp add: s2_def s1_def env_def alive_def demo_stale_round demo_def demo_os_def accept_eval)
  moreover have "os_open env = os_open (sv_os s1)" by (simp add: env_def)
  ultimately show ?thesis
    using stale_entry_disconnects_newcomer [OF demo_stale_ok _ _ _ _ _ _ _ s1_def _ s2_def refl, of 5 6 "demo_client 6 66"]
    by (simp add: demo_stale_def requestClose_def queueDisconnect_def put_conn_def demo_def
      failed_def getClientInfo_def demo_client_def) blast
qed

end
