(* ===== verification/Server_Main.thy ===== *)
theory Server_Main
  imports Lifecycle_Properties
begin

text \<open>
  The server's program, \<open>server/src/main.cpp\<close>: its arguments, its signal handler and its
  exit codes. Printing and the installation of the handlers are left out; the signals
  themselves are the environment's steps of \<open>Server_Run\<close>.
\<close>

section \<open>Arguments\<close>

text \<open>
  \<open>std::atoi\<close>: blanks, a sign, digits; what follows is ignored, and a text without digits
  is 0. For values that are no \<open>int\<close> C leaves the result open; here it is the number.
\<close>

definition is_blank :: "byte \<Rightarrow> bool" where
  "is_blank b = (b = 32 \<or> 9 \<le> b \<and> b \<le> 13)"

definition is_digit :: "byte \<Rightarrow> bool" where
  "is_digit b = (48 \<le> b \<and> b \<le> 57)"

definition decimal :: "bytes \<Rightarrow> int" where
  "decimal ds = foldl (\<lambda>n d. 10 * n + (uint d - 48)) 0 (takeWhile is_digit ds)"

definition atoi :: "bytes \<Rightarrow> int" where
  "atoi str =
     (case dropWhile is_blank (c_text str) of
        [] \<Rightarrow> 0
      | b # bs \<Rightarrow> if b = 45 then - decimal bs else if b = 43 then decimal bs else decimal (b # bs))"

definition main_arguments :: "bytes list \<Rightarrow> bytes \<times> int" where
  "main_arguments argv =
     (if 3 \<le> length argv then argv ! 2 else lit ''0.0.0.0'',
      if 2 \<le> length argv then atoi (argv ! 1) else 8888)"

section \<open>The program\<close>

text \<open>\<open>g_server\<close> is null until the server has been made.\<close>

definition signalHandler :: "bool \<Rightarrow> server \<Rightarrow> server" where
  "signalHandler g_server s = (if g_server then stop s else s)"

text \<open>
  \<open>main\<close> up to the loop of \<open>run\<close>: an exit code with what is left, or the running system;
  the server is destroyed when \<open>main\<close> returns.
\<close>

definition server_main :: "net_setup \<Rightarrow> os \<Rightarrow> bytes list \<Rightarrow> int \<times> server + system" where
  "server_main su env argv =
     (let (ip, port) = main_arguments argv in
      case start su ip port (Server env) of (ok, s) \<Rightarrow>
        if \<not> ok then Inl (1, delete_server s)
        else
          (case run_begin s of
             None \<Rightarrow> Inl (0, delete_server s)
           | Some s \<Rightarrow> Inr \<lparr>sy_main = AtTest, sy_heartbeat = HbTest, sy_server = s\<rparr>))"

definition main_return :: "system \<Rightarrow> (int \<times> server) option" where
  "main_return y = (if sy_main y = AtEnd then Some (0, delete_server (sy_server y)) else None)"

section \<open>What the program leaves behind\<close>

lemma started_runs:
  assumes "os_open env = base" and "start su ip port (Server env) = (True, s)"
  shows "\<exists>s'. run_begin s = Some s'"
  using start_ok [OF assms] by (auto simp: run_begin_def server_ok_def)

text \<open>
  C34: the program either exits with 1 because the server could not be started, or runs a
  server whose states are those of \<open>reachable\<close>, and exits with 0 when \<open>run\<close> has ended;
  either way exactly the descriptors it was given are open at the end, whatever its
  arguments.
\<close>

theorem server_main_outcomes:
  assumes "os_open env = base"
  shows "case server_main su env argv of
      Inl (code, s) \<Rightarrow> code = 1 \<and> set (os_open (sv_os s)) = set base
    | Inr y \<Rightarrow> reachable base y \<and>
        (\<forall>y' code s. reachable base y' \<longrightarrow> main_return y' = Some (code, s) \<longrightarrow>
           code = 0 \<and> set (os_open (sv_os s)) = set base)"
proof -
  obtain ip port where a: "main_arguments argv = (ip, port)" by fastforce
  obtain ok s where st: "start su ip port (Server env) = (ok, s)" by fastforce
  show ?thesis
  proof (cases ok)
    case True
    then have st': "start su ip port (Server env) = (True, s)" using st by simp
    obtain s' where r: "run_begin s = Some s'" using started_runs [OF assms st'] by blast
    let ?y = "\<lparr>sy_main = AtTest, sy_heartbeat = HbTest, sy_server = s'\<rparr>"
    have m: "server_main su env argv = Inr ?y" by (simp add: server_main_def a st' r)
    have "code = 0 \<and> set (os_open (sv_os t)) = set base"
      if "reachable base y'" "main_return y' = Some (code, t)" for y' code t
      using that ended_clean [of base y'] by (auto simp: main_return_def split: if_splits)
    then show ?thesis using reachable.started [OF assms st' r] unfolding m by auto
  next
    case False
    then show ?thesis
      using start_failed [OF assms] st by (simp add: server_main_def a)
  qed
qed

theorem server_main_outcomes_witness:
  "\<exists>y. server_main demo_setup demo_env [lit ''server''] = Inr y \<and> reachable [0, 1, 2] y"
proof -
  have a: "main_arguments [lit ''server''] = (lit ''0.0.0.0'', 8888)" by (simp add: main_arguments_def)
  obtain s where "run_begin demo_started = Some s"
    using started_runs [OF _ demo_start] by blast
  then have "server_main demo_setup demo_env [lit ''server''] =
      Inr \<lparr>sy_main = AtTest, sy_heartbeat = HbTest, sy_server = s\<rparr>"
    by (simp add: server_main_def a demo_start)
  moreover have "os_open demo_env = [0, 1, 2]" by (simp add: demo_env_def)
  ultimately show ?thesis
    using server_main_outcomes [of demo_env "[0, 1, 2]" demo_setup "[lit ''server'']"] by simp
qed

text \<open>
  The port argument is not checked: a text that is no number asks for port 0, which lets
  the kernel choose one, and a number is taken modulo 65536.
\<close>

lemma start_bound_port:
  assumes "start su ip port s = (True, s')"
  shows "su_bind su ip (word_of_int port)"
  using assms by (auto simp: start_def initListenSocket_def Let_def split: prod.splits if_splits)

theorem port_argument_unchecked:
  assumes "server_main su env [prog, p] = Inr y"
  shows "su_bind su (lit ''0.0.0.0'') (word_of_int (atoi p mod 65536)) \<and>
    (\<not> is_blank b \<and> \<not> is_digit b \<and> b \<noteq> 43 \<and> b \<noteq> 45 \<and> p = b # bs \<longrightarrow>
       su_bind su (lit ''0.0.0.0'') 0)"
proof -
  have "fst (start su (lit ''0.0.0.0'') (atoi p) (Server env))"
    using assms by (auto simp: server_main_def main_arguments_def split: prod.splits if_splits)
  then have bound: "su_bind su (lit ''0.0.0.0'') (word_of_int (atoi p))"
    using start_bound_port by (metis prod.collapse)
  have "(word_of_int (atoi p mod 65536) :: u16) = word_of_int (atoi p)"
    by (rule word_uint_eqI) (simp add: uint_word_of_int)
  moreover have "atoi p = 0" if "\<not> is_blank b" "\<not> is_digit b" "b \<noteq> 43" "b \<noteq> 45" "p = b # bs"
    using that by (cases "b = 0") (simp_all add: atoi_def c_text_def decimal_def)
  ultimately show ?thesis using bound by auto
qed

definition demo_picky :: net_setup where
  "demo_picky = demo_setup\<lparr>su_bind := \<lambda>_ p. p = 4464\<rparr>"

lemma demo_atoi: "atoi (lit ''70000'') = 70000"
  by (simp add: atoi_def lit_def c_text_def is_blank_def is_digit_def decimal_def)

lemma demo_picky_start: "fst (start demo_picky (lit ''0.0.0.0'') 70000 (Server demo_env))"
  by (simp add: start_def initListenSocket_def sys_open_def demo_picky_def demo_setup_def Server_def
      demo_env_def demo_os_def demo_lowest setNonBlocking_def reactor_init_def destroy_reactor_def
      epoll_create_def Reactor_def EpollWrapper_def reactor_register_def registerHandler_def
      addFd_def ctl_answer_def)

theorem port_argument_unchecked_witness:
  "su_bind demo_picky (lit ''0.0.0.0'') (word_of_int (70000 mod 65536)) \<and>
   \<not> su_bind demo_picky (lit ''0.0.0.0'') 8888"
proof -
  obtain s where st: "start demo_picky (lit ''0.0.0.0'') 70000 (Server demo_env) = (True, s)"
    using demo_picky_start by (metis prod.collapse)
  obtain s' where "run_begin s = Some s'" using started_runs [OF refl st] by blast
  then have "server_main demo_picky demo_env [lit ''server'', lit ''70000''] =
      Inr \<lparr>sy_main = AtTest, sy_heartbeat = HbTest, sy_server = s'\<rparr>"
    using st by (simp add: server_main_def main_arguments_def demo_atoi)
  from port_argument_unchecked [OF this, of 0 "[]"] show ?thesis
    by (simp add: demo_atoi) (simp add: demo_picky_def)
qed

end
