(* ===== verification/Heartbeat_Properties.thy ===== *)
theory Heartbeat_Properties
  imports Server_Properties
begin

text \<open>
  The heartbeat: a round of its thread followed by the main thread's work on the queue.
\<close>

text \<open>The body of \<open>heartbeatLoop\<close> after the sleep, without another thread in between.\<close>

definition heartbeat_round :: "server \<Rightarrow> server" where
  "heartbeat_round s = (let s = heartbeat_scan s in (heartbeat_queue ^^ length (sv_timedOut s)) s)"

lemma heartbeat_queue_all:
  "server_ok s \<Longrightarrow> sv_timedOut s = fds \<Longrightarrow> (heartbeat_queue ^^ length fds) s = s' \<Longrightarrow>
   server_ok s' \<and> sv_timedOut s' = [] \<and> sv_pending s' = sv_pending s @ fds \<and>
   sv_disconnecting s' = sv_disconnecting s \<and> sv_clients s' = sv_clients s \<and> sv_handlers s' = sv_handlers s \<and>
   sv_os s' = sv_os s"
proof (induction fds arbitrary: s)
  case (Cons fd fds)
  have q: "heartbeat_queue s = queueDisconnect fd (s\<lparr>sv_timedOut := fds\<rparr>)"
    using Cons.prems(2) by (simp add: heartbeat_queue_def)
  have "sv_timedOut (heartbeat_queue s) = fds" by (simp add: q queueDisconnect_def)
  then show ?case
    using Cons.IH [OF heartbeat_queue_ok [OF Cons.prems(1)]] Cons.prems(3)
    by (simp add: funpow_swap1 q queueDisconnect_def)
qed simp

text \<open>
  C22: the heartbeat ends silent connections and no others: of the registered clients, a
  round of the heartbeat thread and the main thread's next pass over the queue remove
  exactly those that were queued before or whose last heartbeat is eleven seconds old
  (the limit of ten compared with the elapsed time cut to whole seconds).
\<close>

theorem silent_clients_removed:
  assumes "server_ok s" and "sv_disconnecting s = []"
    and "s' = processPendingDisconnects (heartbeat_round s)" and "getClientInfo fd (sv_clients s) = Some info"
  shows "server_ok s' \<and>
    (getClientInfo fd (sv_clients s') = None \<longleftrightarrow>
       fd \<in> set (sv_pending s) \<or> ci_lastHeartbeat info + 11 * 1000000000 \<le> os_now (sv_os s))"
proof -
  note scan = heartbeat_scan_ok [OF assms(1)]
  have R: "server_ok (heartbeat_round s)" "sv_disconnecting (heartbeat_round s) = []"
    "sv_pending (heartbeat_round s) =
       sv_pending s @ checkTimeout (os_now (sv_os s)) kHeartbeatTimeoutSec (sv_clients s)"
    "sv_handlers (heartbeat_round s) = sv_handlers s"
    using heartbeat_queue_all [OF scan refl refl] assms(2)
    by (simp_all add: heartbeat_round_def Let_def heartbeat_scan_def)
  note P = processPendingDisconnects_ok [OF R(1,2) assms(3) [symmetric]]
  have "fd \<in> set (checkTimeout (os_now (sv_os s)) kHeartbeatTimeoutSec (sv_clients s)) \<longleftrightarrow>
      ci_lastHeartbeat info + 11 * 1000000000 \<le> os_now (sv_os s)"
    using checkTimeout_iff [OF server_okD(5) [OF assms(1)], of kHeartbeatTimeoutSec fd] assms(4)
    by (simp add: getClientInfo_def kHeartbeatTimeoutSec_def)
  moreover have "getClientInfo fd (sv_clients s') = None \<longleftrightarrow> sv_handlers s' fd = None"
    using server_okD(7) [OF P(1), of fd] by (simp add: getClientInfo_def)
  moreover have "sv_handlers s fd \<noteq> None"
    using server_okD(7) [OF assms(1), of fd] assms(4) by (simp add: getClientInfo_def)
  ultimately show ?thesis using P(1) P(4) [of fd] R(3,4) by auto
qed

theorem silent_clients_removed_witness:
  "\<exists>s. server_ok s \<and> getClientInfo 5 (sv_clients s) \<noteq> None \<and>
     getClientInfo 5 (sv_clients (processPendingDisconnects (heartbeat_round s))) = None"
proof -
  let ?s = "demo\<lparr>sv_os := demo_os\<lparr>os_now := 11 * 1000000000\<rparr>\<rparr>"
  have ok: "server_ok ?s"
    using demo_ok os_irrelevant(1) [of "demo_os\<lparr>os_now := 11 * 1000000000\<rparr>" demo] by (simp add: demo_def)
  obtain info where i: "getClientInfo 5 (sv_clients ?s) = Some info" "ci_lastHeartbeat info = 0"
    by (simp add: demo_def getClientInfo_def demo_client_def)
  then have "getClientInfo 5 (sv_clients (processPendingDisconnects (heartbeat_round ?s))) = None"
    using silent_clients_removed [OF ok _ refl i(1)] by (simp add: demo_def)
  with ok i(1) show ?thesis by blast
qed

end
