(* ===== verification/Tcp_Client.thy ===== *)
theory Tcp_Client
  imports Client_Protocol "HOL-Library.AList"
begin

text \<open>
  \<open>TcpClient\<close> (\<open>client/network/tcpclient.h\<close>, \<open>.cpp\<close>): the client's connection, the
  messages it sends and handles, and its file transfers. Qt is not part of the
  repository: strings' conversions, files, directories and the socket's state are the
  fields of a record \<open>qt\<close> of functions, over a world \<open>'w\<close> they may change; the laws the
  theorems need of them are hypotheses. The slots connected to a signal are a function
  \<open>emit\<close>: the code's \<open>emit\<close> statements run them in place.
\<close>

section \<open>Qt\<close>

type_synonym qstring = "u16 list"

datatype SocketState =
    UnconnectedState | HostLookupState | ConnectingState | ConnectedState | ClosingState

datatype SocketError =
    ConnectionRefusedError | RemoteHostClosedError | HostNotFoundError | NetworkError
  | SocketTimeoutError | OtherError

datatype OpenMode = ReadOnly | WriteOnly

record ('f, 'w) qt =
  qt_endian :: endian
  fromUtf8 :: "bytes \<Rightarrow> qstring"
  toStdString :: "qstring \<Rightarrow> bytes"
  trimmed :: "qstring \<Rightarrow> qstring"
  arg :: "qstring \<Rightarrow> qstring \<Rightarrow> qstring"
  argInt :: "qstring \<Rightarrow> int \<Rightarrow> qstring"
  currentSecs :: "'w \<Rightarrow> u64"
  connectToHost :: "qstring \<Rightarrow> int \<Rightarrow> SocketState \<Rightarrow> 'w \<Rightarrow> SocketState \<times> 'w"
  disconnectFromHost :: "SocketState \<Rightarrow> 'w \<Rightarrow> SocketState \<times> 'w"
  errorString :: "'w \<Rightarrow> qstring"
  info_exists :: "qstring \<Rightarrow> 'w \<Rightarrow> bool"
  info_isFile :: "qstring \<Rightarrow> 'w \<Rightarrow> bool"
  info_completeBaseName :: "qstring \<Rightarrow> qstring"
  info_suffix :: "qstring \<Rightarrow> qstring"
  downloadLocation :: "'w \<Rightarrow> qstring"
  currentFilePath :: "qstring \<Rightarrow> 'w \<Rightarrow> qstring"
  dir_exists :: "qstring \<Rightarrow> 'w \<Rightarrow> bool"
  dir_mkpath :: "qstring \<Rightarrow> 'w \<Rightarrow> 'w"
  dir_filePath :: "qstring \<Rightarrow> qstring \<Rightarrow> qstring"
  file_exists :: "qstring \<Rightarrow> 'w \<Rightarrow> bool"
  file_create :: "qstring \<Rightarrow> 'w \<Rightarrow> 'f \<times> 'w"
  file_open :: "'f \<Rightarrow> OpenMode \<Rightarrow> 'w \<Rightarrow> bool \<times> 'w"
  file_isOpen :: "'f \<Rightarrow> 'w \<Rightarrow> bool"
  file_atEnd :: "'f \<Rightarrow> 'w \<Rightarrow> bool"
  file_read :: "'f \<Rightarrow> nat \<Rightarrow> 'w \<Rightarrow> bytes \<times> 'w"
  file_write :: "'f \<Rightarrow> bytes \<Rightarrow> 'w \<Rightarrow> int \<times> 'w"
  file_seek :: "'f \<Rightarrow> int \<Rightarrow> 'w \<Rightarrow> bool \<times> 'w"
  file_flush :: "'f \<Rightarrow> 'w \<Rightarrow> 'w"
  file_close :: "'f \<Rightarrow> 'w \<Rightarrow> 'w"

text \<open>A C string literal or a terminated \<open>char\<close> array used as a \<open>QString\<close>.\<close>

definition qlit :: "('f, 'w) qt \<Rightarrow> string \<Rightarrow> qstring" where
  "qlit q s = fromUtf8 q (lit s)"

definition qtext :: "('f, 'w) qt \<Rightarrow> bytes \<Rightarrow> qstring" where
  "qtext q arr = fromUtf8 q (c_text arr)"

section \<open>State\<close>

datatype signal =
    SigConnected
  | SigConnectError qstring
  | SigDisconnected
  | SigLoginResponse bool qstring
  | SigChatMessage qstring qstring qstring bool qstring u64
  | SigUserListUpdated
  | SigFileOffer qstring qstring u64 qstring qstring
  | SigFileOfferResponse qstring u32 qstring
  | SigFileProgress qstring u64 u64 bool
  | SigFileCompleted qstring bool bool qstring

record PendingOffer =
  po_fileId :: qstring
  po_fileName :: qstring
  po_fileSize :: u64
  po_fromId :: qstring
  po_fromNick :: qstring

record 'f FileSendSession =
  ss_fileId :: qstring
  ss_filePath :: qstring
  ss_fileName :: qstring
  ss_fileSize :: u64
  ss_toId :: qstring
  ss_bytesSent :: u64
  ss_started :: bool
  ss_file :: "'f option"

record 'f FileReceiveSession =
  rs_fileId :: qstring
  rs_fileName :: qstring
  rs_fileSize :: u64
  rs_bytesReceived :: u64
  rs_savePath :: qstring
  rs_file :: "'f option"

text \<open>
  The hash tables are association lists. \<open>tc_written\<close> collects what was handed to the
  socket, in order; \<open>tc_listeners\<close> is the state of the objects connected to the signals.
\<close>

record ('f, 'w, 'u) TcpClient =
  tc_socket :: SocketState
  tc_timer :: bool
  tc_recvBuffer :: bytes
  tc_sequence :: u32
  tc_clientId :: qstring
  tc_nickname :: qstring
  tc_userList :: "UserInfo list"
  tc_pendingOffers :: "(qstring \<times> PendingOffer) list"
  tc_sendSessions :: "(qstring \<times> 'f FileSendSession) list"
  tc_recvSessions :: "(qstring \<times> 'f FileReceiveSession) list"
  tc_written :: bytes
  tc_world :: 'w
  tc_listeners :: 'u

type_synonym ('f, 'w, 'u) emitter = "signal \<Rightarrow> ('f, 'w, 'u) TcpClient \<Rightarrow> ('f, 'w, 'u) TcpClient"

definition TcpClient :: "'w \<Rightarrow> 'u \<Rightarrow> ('f, 'w, 'u) TcpClient" where
  "TcpClient world listeners =
     \<lparr>tc_socket = UnconnectedState, tc_timer = False, tc_recvBuffer = [], tc_sequence = 0,
      tc_clientId = [], tc_nickname = [], tc_userList = [], tc_pendingOffers = [],
      tc_sendSessions = [], tc_recvSessions = [], tc_written = [], tc_world = world,
      tc_listeners = listeners\<rparr>"

definition kFileChunkSize :: nat where "kFileChunkSize = 16 * 1024"

section \<open>Sending\<close>

definition isConnected :: "('f, 'w, 'u) TcpClient \<Rightarrow> bool" where
  "isConnected c = (tc_socket c = ConnectedState)"

definition sendData :: "bytes \<Rightarrow> ('f, 'w, 'u) TcpClient \<Rightarrow> ('f, 'w, 'u) TcpClient" where
  "sendData data c = (if \<not> isConnected c then c else c\<lparr>tc_written := tc_written c @ data\<rparr>)"

text \<open>\<open>++sequence_\<close>.\<close>

definition next_sequence :: "('f, 'w, 'u) TcpClient \<Rightarrow> ('f, 'w, 'u) TcpClient" where
  "next_sequence c = c\<lparr>tc_sequence := tc_sequence c + 1\<rparr>"

definition setIdentity ::
    "('f, 'w) qt \<Rightarrow> qstring \<Rightarrow> qstring \<Rightarrow> ('f, 'w, 'u) TcpClient \<Rightarrow> ('f, 'w, 'u) TcpClient" where
  "setIdentity q clientId nickname c =
     c\<lparr>tc_clientId := trimmed q clientId, tc_nickname := trimmed q nickname\<rparr>"

definition sendLoginRequest ::
    "('f, 'w) qt \<Rightarrow> qstring \<Rightarrow> qstring \<Rightarrow> ('f, 'w, 'u) TcpClient \<Rightarrow> ('f, 'w, 'u) TcpClient" where
  "sendLoginRequest q clientId nickname c =
     (let c = next_sequence c;
          data = packLoginRequest (qt_endian q) (tc_sequence c) (toStdString q clientId)
                   (toStdString q nickname)
      in sendData data c)"

definition sendLogoutRequest ::
    "('f, 'w) qt \<Rightarrow> ('f, 'w, 'u) TcpClient \<Rightarrow> ('f, 'w, 'u) TcpClient" where
  "sendLogoutRequest q c =
     (let c = next_sequence c in sendData (packLogoutRequest (qt_endian q) (tc_sequence c)) c)"

definition sendHeartbeat ::
    "('f, 'w) qt \<Rightarrow> ('f, 'w, 'u) TcpClient \<Rightarrow> ('f, 'w, 'u) TcpClient" where
  "sendHeartbeat q c =
     (let c = next_sequence c in sendData (packHeartbeatRequest (qt_endian q) (tc_sequence c)) c)"

definition requestUserList ::
    "('f, 'w) qt \<Rightarrow> ('f, 'w, 'u) TcpClient \<Rightarrow> ('f, 'w, 'u) TcpClient" where
  "requestUserList q c =
     (let c = next_sequence c in sendData (packUserListRequest (qt_endian q) (tc_sequence c)) c)"

definition sendChatMessage ::
    "('f, 'w) qt \<Rightarrow> ChatScope \<Rightarrow> qstring \<Rightarrow> qstring \<Rightarrow>
     ('f, 'w, 'u) TcpClient \<Rightarrow> ('f, 'w, 'u) TcpClient" where
  "sendChatMessage q scope toId text c =
     (let timestamp = currentSecs q (tc_world c);
          c = next_sequence c;
          data = client_packChatMessage (qt_endian q) (tc_sequence c) scope
                   (toStdString q (tc_clientId c)) (toStdString q (tc_nickname c))
                   (toStdString q toId) (toStdString q text) timestamp
      in sendData data c)"

definition sendFileOffer ::
    "('f, 'w) qt \<Rightarrow> ('f, 'w, 'u) emitter \<Rightarrow> qstring \<Rightarrow> qstring \<Rightarrow> qstring \<Rightarrow> u64 \<Rightarrow> qstring \<Rightarrow>
     ('f, 'w, 'u) TcpClient \<Rightarrow> ('f, 'w, 'u) TcpClient" where
  "sendFileOffer q emit fileId filePath fileName fileSize toId c =
     (if \<not> info_exists q filePath (tc_world c) \<or> \<not> info_isFile q filePath (tc_world c) then
        emit (SigFileCompleted fileId False False (qlit q ''File not found'')) c
      else
        let session = \<lparr>ss_fileId = fileId, ss_filePath = filePath, ss_fileName = fileName,
              ss_fileSize = fileSize, ss_toId = toId, ss_bytesSent = 0, ss_started = False,
              ss_file = None\<rparr>;
            c = c\<lparr>tc_sendSessions := AList.update fileId session (tc_sendSessions c)\<rparr>;
            c = next_sequence c;
            data = client_packFileOffer (qt_endian q) (tc_sequence c) (toStdString q fileId)
                     (toStdString q fileName) fileSize (toStdString q (tc_clientId c))
                     (toStdString q (tc_nickname c)) (toStdString q toId)
        in sendData data c)"

section \<open>Where a received file goes\<close>

text \<open>
  The loop over the numbered names; it ends only when one of them is free, hence
  \<open>partial_function\<close>.
\<close>

partial_function (option) free_candidate ::
    "('f, 'w) qt \<Rightarrow> qstring \<Rightarrow> qstring \<Rightarrow> qstring \<Rightarrow> int \<Rightarrow> 'w \<Rightarrow> qstring option" where
  "free_candidate q dir baseName suffix index w =
     (let name = (if suffix = [] then argInt q (arg q (qlit q ''%1_%2'') baseName) index
                  else arg q (argInt q (arg q (qlit q ''%1_%2.%3'') baseName) index) suffix);
          candidate = dir_filePath q dir name
      in if \<not> file_exists q candidate w then Some candidate
         else free_candidate q dir baseName suffix (index + 1) w)"

definition buildDownloadPath ::
    "('f, 'w) qt \<Rightarrow> qstring \<Rightarrow> 'w \<Rightarrow> (qstring \<times> 'w) option" where
  "buildDownloadPath q fileName w =
     (let baseDir = downloadLocation q w;
          baseDir = (if baseDir = [] then currentFilePath q (qlit q ''downloads'') w else baseDir);
          w = (if \<not> dir_exists q baseDir w then dir_mkpath q baseDir w else w);
          candidate = dir_filePath q baseDir fileName
      in if \<not> file_exists q candidate w then Some (candidate, w)
         else map_option (\<lambda>p. (p, w))
           (free_candidate q baseDir (info_completeBaseName q fileName) (info_suffix q fileName) 1 w))"

text \<open>The answer to an offer; \<open>None\<close> only when \<open>buildDownloadPath\<close> does not return.\<close>

definition answer_offer ::
    "('f, 'w) qt \<Rightarrow> qstring \<Rightarrow> u32 \<Rightarrow> qstring \<Rightarrow> ('f, 'w, 'u) TcpClient \<Rightarrow> ('f, 'w, 'u) TcpClient" where
  "answer_offer q fileId result msg c =
     (let c = next_sequence c;
          data = client_packFileOfferResponse (qt_endian q) (tc_sequence c) (toStdString q fileId)
                   result (toStdString q msg);
          c = sendData data c
      in c\<lparr>tc_pendingOffers := AList.delete fileId (tc_pendingOffers c)\<rparr>)"

definition sendFileOfferResponse ::
    "('f, 'w) qt \<Rightarrow> ('f, 'w, 'u) emitter \<Rightarrow> qstring \<Rightarrow> u32 \<Rightarrow> qstring \<Rightarrow>
     ('f, 'w, 'u) TcpClient \<Rightarrow> ('f, 'w, 'u) TcpClient option" where
  "sendFileOfferResponse q emit fileId result msg c =
     (if result = FILE_OFFER_ACCEPT then
        (case map_of (tc_pendingOffers c) fileId of
           None \<Rightarrow> Some (answer_offer q fileId FILE_OFFER_DECLINE (qlit q ''Offer expired'') c)
         | Some offer \<Rightarrow>
             (case buildDownloadPath q (po_fileName offer) (tc_world c) of
                None \<Rightarrow> None
              | Some (savePath, w) \<Rightarrow>
                  let (f, w) = file_create q savePath w;
                      (ok, w) = file_open q f WriteOnly w;
                      c = c\<lparr>tc_world := w\<rparr>
                  in if \<not> ok then
                       let c = emit (SigFileCompleted fileId True False (qlit q ''Cannot save file'')) c
                       in Some (answer_offer q fileId FILE_OFFER_DECLINE (qlit q ''Cannot save file'') c)
                     else
                       let session = \<lparr>rs_fileId = po_fileId offer, rs_fileName = po_fileName offer,
                             rs_fileSize = po_fileSize offer, rs_bytesReceived = 0,
                             rs_savePath = savePath, rs_file = Some f\<rparr>;
                           c = c\<lparr>tc_recvSessions := AList.update fileId session (tc_recvSessions c)\<rparr>
                       in Some (answer_offer q fileId FILE_OFFER_ACCEPT msg c)))
      else Some (answer_offer q fileId result msg c))"

section \<open>File transfers\<close>

definition drop_send :: "qstring \<Rightarrow> ('f, 'w, 'u) TcpClient \<Rightarrow> ('f, 'w, 'u) TcpClient" where
  "drop_send fileId c = c\<lparr>tc_sendSessions := AList.delete fileId (tc_sendSessions c)\<rparr>"

definition drop_recv :: "qstring \<Rightarrow> ('f, 'w, 'u) TcpClient \<Rightarrow> ('f, 'w, 'u) TcpClient" where
  "drop_recv fileId c = c\<lparr>tc_recvSessions := AList.delete fileId (tc_recvSessions c)\<rparr>"

definition close_file :: "('f, 'w) qt \<Rightarrow> 'f \<Rightarrow> ('f, 'w, 'u) TcpClient \<Rightarrow> ('f, 'w, 'u) TcpClient" where
  "close_file q f c = c\<lparr>tc_world := file_close q f (tc_world c)\<rparr>"

text \<open>
  The loop of \<open>startFileSend\<close>; \<open>session\<close> is the object the code holds a reference to,
  kept in the table as well. How long the loop runs is up to the file.
\<close>

partial_function (option) file_send_loop ::
    "('f, 'w) qt \<Rightarrow> ('f, 'w, 'u) emitter \<Rightarrow> qstring \<Rightarrow> 'f \<Rightarrow> 'f FileSendSession \<Rightarrow>
     ('f, 'w, 'u) TcpClient \<Rightarrow> ('f, 'w, 'u) TcpClient option" where
  "file_send_loop q emit fileId f session c =
     (if file_atEnd q f (tc_world c) then
        let c = close_file q f c;
            c = emit (SigFileCompleted fileId False True (qlit q ''Sent'')) c
        in Some (drop_send fileId c)
      else
        let (chunk, w) = file_read q f kFileChunkSize (tc_world c);
            c = c\<lparr>tc_world := w\<rparr>
        in if chunk = [] \<and> \<not> file_atEnd q f (tc_world c) then
             let c = emit (SigFileCompleted fileId False False (qlit q ''Read error'')) c
             in Some (drop_send fileId (close_file q f c))
           else
             let c = next_sequence c;
                 packet = packFileData (qt_endian q) (tc_sequence c) (toStdString q fileId)
                            (ss_bytesSent session) chunk;
                 c = sendData packet c;
                 session = session\<lparr>ss_bytesSent := ss_bytesSent session + of_nat (length chunk)\<rparr>;
                 c = c\<lparr>tc_sendSessions := AList.update fileId session (tc_sendSessions c)\<rparr>;
                 c = emit (SigFileProgress fileId (ss_bytesSent session) (ss_fileSize session) False) c
             in file_send_loop q emit fileId f session c)"

definition startFileSend ::
    "('f, 'w) qt \<Rightarrow> ('f, 'w, 'u) emitter \<Rightarrow> qstring \<Rightarrow>
     ('f, 'w, 'u) TcpClient \<Rightarrow> ('f, 'w, 'u) TcpClient option" where
  "startFileSend q emit fileId c =
     (case map_of (tc_sendSessions c) fileId of
        None \<Rightarrow> Some c
      | Some session \<Rightarrow>
          if ss_started session then Some c
          else
            let (f, w) = file_create q (ss_filePath session) (tc_world c);
                session = session\<lparr>ss_file := Some f\<rparr>;
                (ok, w) = file_open q f ReadOnly w;
                c = c\<lparr>tc_world := w,
                      tc_sendSessions := AList.update fileId session (tc_sendSessions c)\<rparr>
            in if \<not> ok then
                 let c = emit (SigFileCompleted fileId False False (qlit q ''Cannot open file'')) c
                 in Some (drop_send fileId c)
               else
                 let session = session\<lparr>ss_started := True, ss_bytesSent := 0\<rparr>;
                     c = c\<lparr>tc_sendSessions := AList.update fileId session (tc_sendSessions c)\<rparr>
                 in file_send_loop q emit fileId f session c)"

text \<open>
  \<open>handleFileData\<close>. A failed step reports, closes the file and drops the session; the
  offset is cast to \<open>qint64\<close>.
\<close>

definition fail_recv ::
    "('f, 'w) qt \<Rightarrow> ('f, 'w, 'u) emitter \<Rightarrow> qstring \<Rightarrow> 'f \<Rightarrow> string \<Rightarrow>
     ('f, 'w, 'u) TcpClient \<Rightarrow> ('f, 'w, 'u) TcpClient" where
  "fail_recv q emit fileId f why c =
     (let c = emit (SigFileCompleted fileId True False (qlit q why)) c
      in drop_recv fileId (close_file q f c))"

definition tcp_handleFileData ::
    "('f, 'w) qt \<Rightarrow> ('f, 'w, 'u) emitter \<Rightarrow> qstring \<Rightarrow> u64 \<Rightarrow> bytes \<Rightarrow>
     ('f, 'w, 'u) TcpClient \<Rightarrow> ('f, 'w, 'u) TcpClient" where
  "tcp_handleFileData q emit fileId off payload c =
     (case map_of (tc_recvSessions c) fileId of
        None \<Rightarrow> c
      | Some session \<Rightarrow>
          (case rs_file session of
             None \<Rightarrow> drop_recv fileId
               (emit (SigFileCompleted fileId True False (qlit q ''File not open'')) c)
           | Some f \<Rightarrow>
               if \<not> file_isOpen q f (tc_world c) then
                 drop_recv fileId
                   (emit (SigFileCompleted fileId True False (qlit q ''File not open'')) c)
               else
                 let (seek_ok, w) = (if off \<noteq> rs_bytesReceived session
                        then file_seek q f (sint off) (tc_world c) else (True, tc_world c));
                     c = c\<lparr>tc_world := w\<rparr>
                 in if \<not> seek_ok then fail_recv q emit fileId f ''Seek failed'' c
                    else
                      let session = session\<lparr>rs_bytesReceived := off\<rparr>;
                          (written, w) = (if payload \<noteq> [] then file_write q f payload (tc_world c)
                             else (0, tc_world c));
                          c = c\<lparr>tc_world := w,
                                tc_recvSessions := AList.update fileId session (tc_recvSessions c)\<rparr>
                      in if written < 0 then fail_recv q emit fileId f ''Write failed'' c
                         else
                           let session = session\<lparr>rs_bytesReceived :=
                                 rs_bytesReceived session + word_of_int written\<rparr>;
                               c = c\<lparr>tc_recvSessions :=
                                     AList.update fileId session (tc_recvSessions c)\<rparr>;
                               c = emit (SigFileProgress fileId (rs_bytesReceived session)
                                     (rs_fileSize session) True) c
                           in if 0 < rs_fileSize session \<and>
                                 rs_fileSize session \<le> rs_bytesReceived session then
                                let c = c\<lparr>tc_world := file_flush q f (tc_world c)\<rparr>;
                                    c = close_file q f c;
                                    c = emit (SigFileCompleted fileId True True (rs_savePath session)) c
                                in drop_recv fileId c
                              else c))"

definition close_open :: "('f, 'w) qt \<Rightarrow> 'f option \<Rightarrow> 'w \<Rightarrow> 'w" where
  "close_open q file w =
     (case file of None \<Rightarrow> w | Some f \<Rightarrow> if file_isOpen q f w then file_close q f w else w)"

definition clearFileSessions ::
    "('f, 'w) qt \<Rightarrow> ('f, 'w, 'u) TcpClient \<Rightarrow> ('f, 'w, 'u) TcpClient" where
  "clearFileSessions q c =
     (let w = fold (\<lambda>(k, s). close_open q (ss_file s)) (tc_sendSessions c) (tc_world c);
          w = fold (\<lambda>(k, s). close_open q (rs_file s)) (tc_recvSessions c) w
      in c\<lparr>tc_world := w, tc_sendSessions := [], tc_recvSessions := [], tc_pendingOffers := []\<rparr>)"

section \<open>Messages of the server\<close>

definition processMessage ::
    "('f, 'w) qt \<Rightarrow> ('f, 'w, 'u) emitter \<Rightarrow> MessageHeader \<Rightarrow> bytes \<Rightarrow>
     ('f, 'w, 'u) TcpClient \<Rightarrow> ('f, 'w, 'u) TcpClient option" where
  "processMessage q emit header body c =
     (if msgType header = MSG_HEARTBEAT_RSP then Some c
      else if msgType header = MSG_LOGIN_RSP then
        (case parseLoginResponse (qt_endian q) body of
           Some rsp \<Rightarrow>
             let success = (lrs_result rsp = LOGIN_SUCCESS)
             in Some (emit (SigLoginResponse success (qtext q (lrs_message rsp))) c)
         | None \<Rightarrow> Some (emit (SigLoginResponse False (qlit q ''Failed to parse response'')) c))
      else if msgType header = MSG_CHAT_MSG then
        (case client_parseChatMessage (qt_endian q) body of
           Some msg \<Rightarrow>
             let isPrivate = (cm_chatType msg = scope_byte CHAT_PRIVATE)
             in Some (emit (SigChatMessage (qtext q (cm_fromId msg)) (qtext q (cm_fromNick msg))
                  (qtext q (cm_message msg)) isPrivate (qtext q (cm_toId msg)) (cm_timestamp msg)) c)
         | None \<Rightarrow> Some c)
      else if msgType header = MSG_USER_LIST_RSP then
        (case parseUserListResponse (qt_endian q) body of
           Some users \<Rightarrow> Some (emit SigUserListUpdated (c\<lparr>tc_userList := users\<rparr>))
         | None \<Rightarrow> Some c)
      else if msgType header = MSG_FILE_OFFER then
        (case client_parseFileOffer (qt_endian q) body of
           Some offer \<Rightarrow>
             let fileId = qtext q (fo_fileId offer);
                 fileName = qtext q (fo_fileName offer);
                 fromId = qtext q (fo_fromId offer);
                 fromNick = qtext q (fo_fromNick offer);
                 pending = \<lparr>po_fileId = fileId, po_fileName = fileName,
                   po_fileSize = fo_fileSize offer, po_fromId = fromId, po_fromNick = fromNick\<rparr>;
                 c = c\<lparr>tc_pendingOffers := AList.update fileId pending (tc_pendingOffers c)\<rparr>
             in Some (emit (SigFileOffer fileId fileName (fo_fileSize offer) fromId fromNick) c)
         | None \<Rightarrow> Some c)
      else if msgType header = MSG_FILE_OFFER_RSP then
        (case client_parseFileOfferResponse (qt_endian q) body of
           Some rsp \<Rightarrow>
             let fileId = qtext q (fr_fileId rsp);
                 text = qtext q (fr_message rsp);
                 c = emit (SigFileOfferResponse fileId (fr_result rsp) text) c
             in if fr_result rsp = FILE_OFFER_ACCEPT then startFileSend q emit fileId c
                else if map_of (tc_sendSessions c) fileId \<noteq> None then
                  Some (drop_send fileId (emit (SigFileCompleted fileId False False text) c))
                else Some c
         | None \<Rightarrow> Some c)
      else if msgType header = MSG_FILE_DATA then
        (case parseFileData (qt_endian q) body of
           Some (headerData, payload) \<Rightarrow>
             Some (tcp_handleFileData q emit (qtext q (fd_fileId headerData)) (fd_offset headerData)
                     payload c)
         | None \<Rightarrow> Some c)
      else Some c)"

text \<open>
  The loop of \<open>onReadyRead\<close>. The message stays at the front of the buffer while it is
  processed, and the buffer is a member a slot may change, so that only
  \<open>partial_function\<close> fits.
\<close>

partial_function (option) read_loop ::
    "('f, 'w) qt \<Rightarrow> ('f, 'w, 'u) emitter \<Rightarrow>
     ('f, 'w, 'u) TcpClient \<Rightarrow> ('f, 'w, 'u) TcpClient option" where
  "read_loop q emit c =
     (if length (tc_recvBuffer c) \<ge> sizeof_MessageHeader then
        let header = header_ntoh (qt_endian q) (MessageHeader_load (qt_endian q) (tc_recvBuffer c)) in
        if \<not> client_validateHeader header then Some (c\<lparr>tc_recvBuffer := []\<rparr>)
        else
          let totalLen = sizeof_MessageHeader + unat (bodyLength header) in
          if length (tc_recvBuffer c) < totalLen then Some c
          else
            let body = take (unat (bodyLength header)) (drop sizeof_MessageHeader (tc_recvBuffer c)) in
            Option.bind (processMessage q emit header body c) (\<lambda>c.
              read_loop q emit (c\<lparr>tc_recvBuffer := drop totalLen (tc_recvBuffer c)\<rparr>))
      else Some c)"

definition onReadyRead ::
    "('f, 'w) qt \<Rightarrow> ('f, 'w, 'u) emitter \<Rightarrow> bytes \<Rightarrow>
     ('f, 'w, 'u) TcpClient \<Rightarrow> ('f, 'w, 'u) TcpClient option" where
  "onReadyRead q emit newData c = read_loop q emit (c\<lparr>tc_recvBuffer := tc_recvBuffer c @ newData\<rparr>)"

section \<open>Connecting and disconnecting\<close>

definition connectToServer ::
    "('f, 'w) qt \<Rightarrow> qstring \<Rightarrow> int \<Rightarrow> ('f, 'w, 'u) TcpClient \<Rightarrow> ('f, 'w, 'u) TcpClient" where
  "connectToServer q ip port c =
     (let (st, w) = connectToHost q ip port (tc_socket c) (tc_world c)
      in c\<lparr>tc_socket := st, tc_world := w\<rparr>)"

definition tcp_onDisconnected ::
    "('f, 'w) qt \<Rightarrow> ('f, 'w, 'u) emitter \<Rightarrow> ('f, 'w, 'u) TcpClient \<Rightarrow> ('f, 'w, 'u) TcpClient" where
  "tcp_onDisconnected q emit c =
     emit SigDisconnected (clearFileSessions q (c\<lparr>tc_timer := False\<rparr>))"

text \<open>
  When nothing is left to be written the socket is closed, and \<open>disconnected\<close> emitted,
  within \<open>disconnectFromHost\<close>; the new state says so. Otherwise both happen later.
\<close>

definition disconnectFromServer ::
    "('f, 'w) qt \<Rightarrow> ('f, 'w, 'u) emitter \<Rightarrow> ('f, 'w, 'u) TcpClient \<Rightarrow> ('f, 'w, 'u) TcpClient" where
  "disconnectFromServer q emit c =
     (let c = c\<lparr>tc_timer := False\<rparr>;
          c = clearFileSessions q c;
          c = (if isConnected c then sendLogoutRequest q c else c)
      in if tc_socket c \<noteq> UnconnectedState then
           let (st, w) = disconnectFromHost q (tc_socket c) (tc_world c);
               c = c\<lparr>tc_socket := st, tc_world := w\<rparr>
           in if st = UnconnectedState then tcp_onDisconnected q emit c else c
         else c)"

definition tcp_onConnected ::
    "('f, 'w, 'u) emitter \<Rightarrow> ('f, 'w, 'u) TcpClient \<Rightarrow> ('f, 'w, 'u) TcpClient" where
  "tcp_onConnected emit c =
     emit SigConnected (c\<lparr>tc_recvBuffer := [], tc_sequence := 0, tc_timer := True\<rparr>)"

definition tcp_onError ::
    "('f, 'w) qt \<Rightarrow> ('f, 'w, 'u) emitter \<Rightarrow> SocketError \<Rightarrow>
     ('f, 'w, 'u) TcpClient \<Rightarrow> ('f, 'w, 'u) TcpClient" where
  "tcp_onError q emit err c =
     (if err = RemoteHostClosedError then c
      else
        let errorStr = (case err of
              ConnectionRefusedError \<Rightarrow> qlit q ''Connection refused''
            | HostNotFoundError \<Rightarrow> qlit q ''Host not found''
            | NetworkError \<Rightarrow> qlit q ''Network error''
            | SocketTimeoutError \<Rightarrow> qlit q ''Connection timeout''
            | _ \<Rightarrow> errorString q (tc_world c))
        in emit (SigConnectError errorStr) c)"

definition onHeartbeatTimeout ::
    "('f, 'w) qt \<Rightarrow> ('f, 'w, 'u) TcpClient \<Rightarrow> ('f, 'w, 'u) TcpClient" where
  "onHeartbeatTimeout q c = sendHeartbeat q c"

end
