(* ===== verification/Chat_Window.thy ===== *)
theory Chat_Window
  imports Tcp_Client "HOL-Library.Log_Nat"
begin

text \<open>
  \<open>ChatWindow\<close> (\<open>client/ui/chatwindow.h\<close>, \<open>.cpp\<close>): what the window holds and shows, and its
  slots. The window is part of the listeners of the client. Widgets are reduced to their
  contents; fonts, sizes and layout are left out. A message box or a file dialog runs
  its own event loop until it is closed: what happens meanwhile is an argument of the
  operations that open one.
\<close>

section \<open>Qt for windows\<close>

record ('f, 'w, 'd) gui =
  gui_qt :: "('f, 'w) qt"
  numberF :: "rat \<Rightarrow> nat \<Rightarrow> qstring"
  arg2 :: "qstring \<Rightarrow> qstring \<Rightarrow> qstring \<Rightarrow> qstring"
  arg3 :: "qstring \<Rightarrow> qstring \<Rightarrow> qstring \<Rightarrow> qstring \<Rightarrow> qstring"
  arg4 :: "qstring \<Rightarrow> qstring \<Rightarrow> qstring \<Rightarrow> qstring \<Rightarrow> qstring \<Rightarrow> qstring"
  toInt :: "qstring \<Rightarrow> int option"
  currentDateTime :: "'w \<Rightarrow> 'd"
  fromSecsSinceEpoch :: "int \<Rightarrow> 'd"
  dt_isValid :: "'d \<Rightarrow> bool"
  dt_toString :: "'d \<Rightarrow> string \<Rightarrow> qstring"
  bounded :: "int \<Rightarrow> int \<Rightarrow> 'w \<Rightarrow> int \<times> 'w"
  createUuid :: "'w \<Rightarrow> qstring \<times> 'w"
  info_fileName :: "qstring \<Rightarrow> qstring"
  info_size :: "qstring \<Rightarrow> 'w \<Rightarrow> int"
  combo_current :: "(qstring \<times> qstring) list \<Rightarrow> qstring \<times> qstring"
  here_exists :: "qstring \<Rightarrow> 'w \<Rightarrow> bool"
  here_mkdir :: "qstring \<Rightarrow> 'w \<Rightarrow> 'w"

definition glit :: "('f, 'w, 'd) gui \<Rightarrow> string \<Rightarrow> qstring" where
  "glit q s = qlit (gui_qt q) s"

datatype QColor = QColor nat nat nat | Gray | Red

datatype dialog =
    Warning qstring qstring
  | Information qstring qstring
  | Critical qstring qstring

section \<open>Numbers\<close>

text \<open>
  A \<open>double\<close> is the rational it stands for: \<open>dbl\<close> rounds to 53 bits, ties to even. The
  values computed here are 0 or between \<open>2 ^ -64\<close> and \<open>2 ^ 71\<close>, far from the limits of the exponent.
\<close>

definition round_half_even :: "rat \<Rightarrow> int" where
  "round_half_even m =
     (let n = \<lfloor>m\<rfloor>; d = m - of_int n
      in if d < 1 / 2 then n else if 1 / 2 < d then n + 1 else if even n then n else n + 1)"

definition dbl :: "rat \<Rightarrow> rat" where
  "dbl x =
     (if x = 0 then 0
      else
        let (a, b) = quotient_of x;
            e = int (floorlog 2 (nat a)) - int (floorlog 2 (nat b));
            e = (if x < 2 powi e then e - 1 else e);
            ulp = 2 powi (e - 52)
        in of_int (round_half_even (x / ulp)) * ulp)"

definition dbl_of_u64 :: "u64 \<Rightarrow> rat" where
  "dbl_of_u64 n = dbl (of_nat (unat n))"

fun size_units :: "rat \<Rightarrow> nat \<Rightarrow> nat \<Rightarrow> rat \<times> nat" where
  "size_units value unitIndex 0 = (value, unitIndex)"
| "size_units value unitIndex (Suc left) =
     (if 1024 \<le> value then size_units (dbl (value / 1024)) (unitIndex + 1) left
      else (value, unitIndex))"

definition formatSize :: "('f, 'w, 'd) gui \<Rightarrow> u64 \<Rightarrow> qstring" where
  "formatSize q n =
     (let (value, unitIndex) = size_units (dbl_of_u64 n) 0 3;
          precision = (if unitIndex = 0 then 0 else 1)
      in numberF q value precision @ glit q '' '' @
         glit q ([''B'', ''KB'', ''MB'', ''GB''] ! unitIndex))"

section \<open>The window\<close>

datatype action = OfferButtons bool | CancelButton bool

record transfer_row =
  tr_file :: qstring
  tr_size :: qstring
  tr_status :: "qstring option"
  tr_fileId :: qstring
  tr_action :: action

text \<open>
  \<open>cw_data\<close> and \<open>cw_text\<close> are the current item's data and the text of the editable
  combo box, \<open>cw_targets\<close> its items; the buttons of a row hold the file id they were made for.
\<close>

record ChatWindow =
  cw_visible :: bool
  cw_status :: "qstring \<times> QColor"
  cw_targets :: "(qstring \<times> qstring) list"
  cw_data :: qstring
  cw_text :: qstring
  cw_online :: "qstring list"
  cw_table :: "transfer_row list"
  cw_transferRows :: "(qstring \<times> nat) list"
  cw_messages :: "qstring list"
  cw_input :: qstring

definition setStatus :: "qstring \<Rightarrow> QColor \<Rightarrow> ChatWindow \<Rightarrow> ChatWindow" where
  "setStatus text color cw = cw\<lparr>cw_status := (text, color)\<rparr>"

definition set_targets ::
    "('f, 'w, 'd) gui \<Rightarrow> (qstring \<times> qstring) list \<Rightarrow> ChatWindow \<Rightarrow> ChatWindow" where
  "set_targets q items cw =
     (let (d, t) = combo_current q items in cw\<lparr>cw_targets := items, cw_data := d, cw_text := t\<rparr>)"

definition group_item :: "('f, 'w, 'd) gui \<Rightarrow> qstring \<times> qstring" where
  "group_item q = (glit q ''Group (All)'', [])"

definition updateTransferStatus :: "qstring \<Rightarrow> qstring \<Rightarrow> ChatWindow \<Rightarrow> ChatWindow" where
  "updateTransferStatus fileId status cw =
     (case map_of (cw_transferRows cw) fileId of
        None \<Rightarrow> cw
      | Some row \<Rightarrow>
          cw\<lparr>cw_table := (cw_table cw)[row := (cw_table cw ! row)\<lparr>tr_status := Some status\<rparr>]\<rparr>)"

definition addTransferRow ::
    "('f, 'w, 'd) gui \<Rightarrow> qstring \<Rightarrow> qstring \<Rightarrow> u64 \<Rightarrow> qstring \<Rightarrow> bool \<Rightarrow> ChatWindow \<Rightarrow> ChatWindow" where
  "addTransferRow q fileId fileName fileSize status incoming cw =
     (if map_of (cw_transferRows cw) fileId \<noteq> None then updateTransferStatus fileId status cw
      else
        let row = length (cw_table cw);
            entry = \<lparr>tr_file = fileName, tr_size = formatSize q fileSize, tr_status = Some status,
              tr_fileId = fileId,
              tr_action = (if incoming then OfferButtons True else CancelButton True)\<rparr>
        in cw\<lparr>cw_table := cw_table cw @ [entry],
              cw_transferRows := AList.update fileId row (cw_transferRows cw)\<rparr>)"

definition appendMessage ::
    "('f, 'w, 'd) gui \<Rightarrow> qstring \<Rightarrow> qstring \<Rightarrow> 'd \<Rightarrow> bool \<Rightarrow> qstring \<Rightarrow> 'w \<Rightarrow>
     ChatWindow \<Rightarrow> ChatWindow" where
  "appendMessage q sender message timestamp outgoing target w cw =
     (let timeStr = (if dt_isValid q timestamp then dt_toString q timestamp ''HH:mm:ss''
            else dt_toString q (currentDateTime q w) ''HH:mm:ss'');
          prefix = arg (gui_qt q) (glit q ''[%1]'') timeStr;
          line = (if outgoing then
                    (if target = [] then arg3 q (glit q ''%1 %2: %3'') prefix sender message
                     else arg4 q (glit q ''%1 %2 -> %3: %4'') prefix sender target message)
                  else
                    (if target = [] then arg3 q (glit q ''%1 %2: %3'') prefix sender message
                     else arg4 q (glit q ''%1 %2 -> %3: %4'') prefix sender target message))
      in cw\<lparr>cw_messages := cw_messages cw @ [line]\<rparr>)"

definition updateUserList ::
    "('f, 'w, 'd) gui \<Rightarrow> UserInfo list \<Rightarrow> qstring \<Rightarrow> ChatWindow \<Rightarrow> ChatWindow" where
  "updateUserList q users self cw =
     (let entry = (\<lambda>user.
            let i = qtext (gui_qt q) (ui_clientId user);
                nick = qtext (gui_qt q) (ui_nickname user)
            in ((if nick = [] then i else arg2 q (glit q ''%1 (%2)'') nick i), i));
          others = filter (\<lambda>(label, i). \<not> (self \<noteq> [] \<and> i = self)) (map entry users)
      in (set_targets q (group_item q # others) cw)\<lparr>cw_online := map fst others\<rparr>)"

section \<open>The slots\<close>

definition onChatMessageReceived ::
    "('f, 'w, 'd) gui \<Rightarrow> qstring \<Rightarrow> qstring \<Rightarrow> qstring \<Rightarrow> bool \<Rightarrow> qstring \<Rightarrow> u64 \<Rightarrow> 'w \<Rightarrow>
     ChatWindow \<Rightarrow> ChatWindow" where
  "onChatMessageReceived q fromId fromNick message isPrivate toId timestamp w =
     (let sender = (if fromNick = [] then fromId else fromNick);
          target = (if isPrivate then (if toId = [] then glit q ''Private'' else toId) else []);
          ts = (if timestamp = 0 then currentDateTime q w
                else fromSecsSinceEpoch q (sint timestamp))
      in appendMessage q sender message ts False target w)"

definition onFileOfferReceived ::
    "('f, 'w, 'd) gui \<Rightarrow> qstring \<Rightarrow> qstring \<Rightarrow> u64 \<Rightarrow> qstring \<Rightarrow> qstring \<Rightarrow>
     ChatWindow \<Rightarrow> ChatWindow" where
  "onFileOfferReceived q fileId fileName fileSize fromId fromNick =
     (let label = (if fromNick = [] then fromId else fromNick);
          status = arg (gui_qt q) (glit q ''Incoming from %1'') label
      in addTransferRow q fileId fileName fileSize status True)"

definition onFileOfferResponseReceived ::
    "('f, 'w, 'd) gui \<Rightarrow> qstring \<Rightarrow> u32 \<Rightarrow> qstring \<Rightarrow> ChatWindow \<Rightarrow> ChatWindow" where
  "onFileOfferResponseReceived q fileId result message =
     (let status = (if result = FILE_OFFER_ACCEPT then glit q ''Accepted''
            else if result = FILE_OFFER_DECLINE then glit q ''Declined''
            else if result = FILE_OFFER_BUSY then glit q ''Busy''
            else glit q ''Unknown'');
          status = (if message \<noteq> [] then arg2 q (glit q ''%1 (%2)'') status message else status)
      in updateTransferStatus fileId status)"

definition transfer_percent :: "u64 \<Rightarrow> u64 \<Rightarrow> rat" where
  "transfer_percent bytesTransferred totalBytes =
     dbl (dbl (dbl_of_u64 bytesTransferred / dbl_of_u64 totalBytes) * 100)"

definition onFileTransferProgress ::
    "('f, 'w, 'd) gui \<Rightarrow> qstring \<Rightarrow> u64 \<Rightarrow> u64 \<Rightarrow> bool \<Rightarrow> ChatWindow \<Rightarrow> ChatWindow" where
  "onFileTransferProgress q fileId bytesTransferred totalBytes incoming cw =
     (if totalBytes = 0 then cw
      else
        let percent = transfer_percent bytesTransferred totalBytes;
            a = arg (gui_qt q);
            status = a (a (a (a (glit q ''%1 %2% (%3 / %4)'')
                (glit q (if incoming then ''Receiving'' else ''Sending'')))
                (numberF q percent 1))
                (formatSize q bytesTransferred))
                (formatSize q totalBytes)
        in updateTransferStatus fileId status cw)"

definition onFileTransferCompleted ::
    "('f, 'w, 'd) gui \<Rightarrow> qstring \<Rightarrow> bool \<Rightarrow> bool \<Rightarrow> qstring \<Rightarrow> ChatWindow \<Rightarrow> ChatWindow" where
  "onFileTransferCompleted q fileId incoming success message =
     (let status = (if success then
            let status = glit q (if incoming then ''Received'' else ''Sent'')
            in if message \<noteq> [] then arg2 q (glit q ''%1 (%2)'') status message else status
          else if message = [] then glit q ''Failed''
          else arg (gui_qt q) (glit q ''Failed (%1)'') message)
      in updateTransferStatus fileId status)"

end
