(* ===== verification/Login_Window.thy ===== *)
theory Login_Window
  imports Chat_Window
begin

text \<open>
  \<open>LoginWindow\<close> (\<open>client/ui/loginwindow.h\<close>, \<open>.cpp\<close>) and the slots of both windows that use the
  client; the signals of \<open>TcpClient\<close> connected to their slots; the events of the
  application. This closes the client: \<open>client_step\<close> is what one event of Qt's loop does.
\<close>

section \<open>The windows\<close>

record ui =
  lw_visible :: bool
  lw_connectEnabled :: bool
  lw_status :: "qstring \<times> QColor"
  lw_ip :: qstring
  lw_port :: qstring
  lw_clientId :: qstring
  lw_nickname :: qstring
  lw_settings :: "(qstring \<times> qstring) list"
  lw_chatWindow :: "ChatWindow option"

type_synonym ('f, 'w) client = "('f, 'w, ui) TcpClient"

type_synonym ('f, 'w) boxes = "dialog \<Rightarrow> ('f, 'w) client \<Rightarrow> ('f, 'w) client"

definition on_ui :: "(ui \<Rightarrow> ui) \<Rightarrow> ('f, 'w) client \<Rightarrow> ('f, 'w) client" where
  "on_ui f c = c\<lparr>tc_listeners := f (tc_listeners c)\<rparr>"

definition on_chat :: "(ChatWindow \<Rightarrow> ChatWindow) \<Rightarrow> ('f, 'w) client \<Rightarrow> ('f, 'w) client" where
  "on_chat f = on_ui (\<lambda>u. u\<lparr>lw_chatWindow := map_option f (lw_chatWindow u)\<rparr>)"

definition has_chat :: "('f, 'w) client \<Rightarrow> bool" where
  "has_chat c = (lw_chatWindow (tc_listeners c) \<noteq> None)"

section \<open>ChatWindow and the client\<close>

definition chat_setupUI :: "('f, 'w, 'd) gui \<Rightarrow> bool \<Rightarrow> ChatWindow \<Rightarrow> ChatWindow" where
  "chat_setupUI q isConn cw =
     (let cw = set_targets q (cw_targets cw @ [group_item q]) cw
      in if isConn then setStatus (glit q ''Connected'') (QColor 0 160 0) cw
         else setStatus (glit q ''Disconnected'') Gray cw)"

text \<open>The constructor; connecting the slots is part of \<open>ui_emit\<close>.\<close>

definition new_ChatWindow :: "('f, 'w, 'd) gui \<Rightarrow> ('f, 'w) client \<Rightarrow> ('f, 'w) client" where
  "new_ChatWindow q c =
     (let cw = \<lparr>cw_visible = False, cw_status = ([], Gray), cw_targets = [], cw_data = [],
            cw_text = [], cw_online = [], cw_table = [], cw_transferRows = [], cw_messages = [],
            cw_input = []\<rparr>;
          cw = chat_setupUI q (isConnected c) cw;
          c = on_ui (\<lambda>u. u\<lparr>lw_chatWindow := Some cw\<rparr>) c
      in requestUserList (gui_qt q) c)"

definition chat_onConnected :: "('f, 'w, 'd) gui \<Rightarrow> ('f, 'w) client \<Rightarrow> ('f, 'w) client" where
  "chat_onConnected q c =
     requestUserList (gui_qt q) (on_chat (setStatus (glit q ''Connected'') (QColor 0 160 0)) c)"

definition chat_onDisconnected :: "('f, 'w, 'd) gui \<Rightarrow> ('f, 'w) client \<Rightarrow> ('f, 'w) client" where
  "chat_onDisconnected q = on_chat (setStatus (glit q ''Disconnected'') Red)"

text \<open>Whom the combo box names: everybody, or a user.\<close>

definition chosen_target :: "('f, 'w, 'd) gui \<Rightarrow> ChatWindow \<Rightarrow> bool \<times> qstring" where
  "chosen_target q cw =
     (let toId = trimmed (gui_qt q) (cw_data cw);
          targetText = trimmed (gui_qt q) (cw_text cw);
          isGroup = (toId = [] \<and> targetText = glit q ''Group (All)'');
          toId = (if \<not> isGroup \<and> toId = [] then targetText else toId)
      in (isGroup, toId))"

definition onSendClicked ::
    "('f, 'w, 'd) gui \<Rightarrow> ('f, 'w) boxes \<Rightarrow> ChatWindow \<Rightarrow> ('f, 'w) client \<Rightarrow> ('f, 'w) client" where
  "onSendClicked q box cw c =
     (if \<not> isConnected c then
        box (Warning (glit q ''Warning'') (glit q ''Not connected to the server.'')) c
      else
        let text = trimmed (gui_qt q) (cw_input cw) in
        if text = [] then c
        else
          let (isGroup, toId) = chosen_target q cw;
              scope = (if isGroup then CHAT_GROUP else CHAT_PRIVATE);
              c = sendChatMessage (gui_qt q) scope toId text c;
              sender = (if tc_nickname c = [] then glit q ''Me'' else tc_nickname c);
              c = on_chat (appendMessage q sender text (currentDateTime q (tc_world c)) True
                    (if isGroup then glit q ''Group'' else toId) (tc_world c)) c
          in on_chat (\<lambda>cw. cw\<lparr>cw_input := []\<rparr>) c)"

text \<open>\<open>pick\<close> is the file dialog: the path chosen, and what happened meanwhile.\<close>

definition onSelectFile ::
    "('f, 'w, 'd) gui \<Rightarrow> ('f, 'w) boxes \<Rightarrow> (('f, 'w) client \<Rightarrow> qstring \<times> ('f, 'w) client) \<Rightarrow>
     ('f, 'w, ui) emitter \<Rightarrow> ChatWindow \<Rightarrow> ('f, 'w) client \<Rightarrow> ('f, 'w) client" where
  "onSelectFile q box pick emit cw c =
     (if \<not> isConnected c then
        box (Warning (glit q ''Warning'') (glit q ''Not connected to the server.'')) c
      else
        let (isGroup, toId) = chosen_target q cw in
        if isGroup \<or> toId = [] then
          box (Warning (glit q ''Warning'') (glit q ''Please select a user for file transfer.'')) c
        else
          let (filePath, c) = pick c in
          if filePath = [] then c
          else
            let (fileId, w) = createUuid q (tc_world c);
                c = c\<lparr>tc_world := w\<rparr>;
                fileName = info_fileName q filePath;
                fileSize = word_of_int (info_size q filePath (tc_world c));
                c = sendFileOffer (gui_qt q) emit fileId filePath fileName fileSize toId c
            in on_chat (addTransferRow q fileId fileName fileSize (glit q ''Waiting for accept'') False) c)"

text \<open>The buttons of a row.\<close>

definition disable_action :: "nat \<Rightarrow> ChatWindow \<Rightarrow> ChatWindow" where
  "disable_action row cw =
     cw\<lparr>cw_table := (cw_table cw)[row := (cw_table cw ! row)\<lparr>tr_action :=
         (case tr_action (cw_table cw ! row) of OfferButtons _ \<Rightarrow> OfferButtons False
          | CancelButton _ \<Rightarrow> CancelButton False)\<rparr>]\<rparr>"

definition acceptClicked ::
    "('f, 'w, 'd) gui \<Rightarrow> ('f, 'w, ui) emitter \<Rightarrow> nat \<Rightarrow> qstring \<Rightarrow>
     ('f, 'w) client \<Rightarrow> ('f, 'w) client option" where
  "acceptClicked q emit row fileId c =
     Option.bind (sendFileOfferResponse (gui_qt q) emit fileId FILE_OFFER_ACCEPT (glit q ''Accepted'') c)
       (\<lambda>c. Some (on_chat (disable_action row)
          (on_chat (updateTransferStatus fileId (glit q ''Accepted'')) c)))"

definition declineClicked ::
    "('f, 'w, 'd) gui \<Rightarrow> ('f, 'w, ui) emitter \<Rightarrow> nat \<Rightarrow> qstring \<Rightarrow>
     ('f, 'w) client \<Rightarrow> ('f, 'w) client option" where
  "declineClicked q emit row fileId c =
     Option.bind (sendFileOfferResponse (gui_qt q) emit fileId FILE_OFFER_DECLINE (glit q ''Declined'') c)
       (\<lambda>c. Some (on_chat (disable_action row)
          (on_chat (updateTransferStatus fileId (glit q ''Declined'')) c)))"

definition cancelClicked ::
    "('f, 'w, 'd) gui \<Rightarrow> nat \<Rightarrow> qstring \<Rightarrow> ('f, 'w) client \<Rightarrow> ('f, 'w) client" where
  "cancelClicked q row fileId c =
     on_chat (disable_action row) (on_chat (updateTransferStatus fileId (glit q ''Canceled'')) c)"

section \<open>LoginWindow\<close>

definition updateStatus ::
    "('f, 'w, 'd) gui \<Rightarrow> string \<Rightarrow> QColor \<Rightarrow> ('f, 'w) client \<Rightarrow> ('f, 'w) client" where
  "updateStatus q status color =
     on_ui (\<lambda>u. u\<lparr>lw_status := (arg (gui_qt q) (glit q ''Status: %1'') (glit q status), color)\<rparr>)"

definition saveConfig :: "('f, 'w, 'd) gui \<Rightarrow> ui \<Rightarrow> ui" where
  "saveConfig q u =
     u\<lparr>lw_settings := AList.update (glit q ''user/nickname'') (lw_nickname u)
         (AList.update (glit q ''server/port'') (lw_port u)
           (AList.update (glit q ''server/ip'') (lw_ip u) (lw_settings u)))\<rparr>"

definition setting :: "('f, 'w, 'd) gui \<Rightarrow> ui \<Rightarrow> string \<Rightarrow> qstring \<Rightarrow> qstring" where
  "setting q u key old = (case map_of (lw_settings u) (glit q key) of None \<Rightarrow> old | Some v \<Rightarrow> v)"

definition loadConfig :: "('f, 'w, 'd) gui \<Rightarrow> ui \<Rightarrow> ui" where
  "loadConfig q u =
     u\<lparr>lw_ip := setting q u ''server/ip'' (lw_ip u),
       lw_port := setting q u ''server/port'' (lw_port u),
       lw_nickname := setting q u ''user/nickname'' (lw_nickname u)\<rparr>"

definition generateClientId :: "('f, 'w, 'd) gui \<Rightarrow> 'w \<Rightarrow> qstring \<times> 'w" where
  "generateClientId q w =
     (let timestamp = dt_toString q (currentDateTime q w) ''yyyyMMdd_hhmmss'';
          (random, w) = bounded q 1000 9999 w
      in (argInt (gui_qt q) (arg (gui_qt q) (glit q ''CLIENT_%1_%2'') timestamp) random, w))"

definition login_setupUI :: "('f, 'w, 'd) gui \<Rightarrow> ('f, 'w) client \<Rightarrow> ('f, 'w) client" where
  "login_setupUI q c =
     (let (clientId, w) = generateClientId q (tc_world c);
          c = on_ui (\<lambda>u. u\<lparr>lw_ip := glit q ''127.0.0.1'', lw_port := glit q ''8888'',
                lw_clientId := clientId\<rparr>) (c\<lparr>tc_world := w\<rparr>)
      in updateStatus q ''Disconnected'' Gray c)"

definition new_LoginWindow ::
    "('f, 'w, 'd) gui \<Rightarrow> (qstring \<times> qstring) list \<Rightarrow> 'w \<Rightarrow> ('f, 'w) client" where
  "new_LoginWindow q settings w =
     (let u = \<lparr>lw_visible = False, lw_connectEnabled = True, lw_status = ([], Gray), lw_ip = [],
            lw_port = [], lw_clientId = [], lw_nickname = [], lw_settings = settings,
            lw_chatWindow = None\<rparr>
      in on_ui (loadConfig q) (login_setupUI q (TcpClient w u)))"

definition onConnectClicked ::
    "('f, 'w, 'd) gui \<Rightarrow> ('f, 'w) boxes \<Rightarrow> ('f, 'w) client \<Rightarrow> ('f, 'w) client" where
  "onConnectClicked q box c =
     (let u = tc_listeners c;
          trim = trimmed (gui_qt q);
          ip = trim (lw_ip u);
          portStr = trim (lw_port u);
          clientId = trim (lw_clientId u);
          nickname = trim (lw_nickname u);
          warn = (\<lambda>text. box (Warning (glit q ''Warning'') (glit q text)) c)
      in if ip = [] then warn ''Please enter a server IP.''
         else if portStr = [] then warn ''Please enter a port.''
         else if nickname = [] then warn ''Please enter a nickname.''
         else
           (case toInt q portStr of
              None \<Rightarrow> warn ''Invalid port number.''
            | Some port \<Rightarrow>
                if port \<le> 0 \<or> 65535 < port then warn ''Invalid port number.''
                else
                  let c = on_ui (\<lambda>u. u\<lparr>lw_connectEnabled := False\<rparr>) c;
                      c = updateStatus q ''Connecting...'' (QColor 255 165 0) c;
                      c = on_ui (saveConfig q) c;
                      c = setIdentity (gui_qt q) clientId nickname c
                  in connectToServer (gui_qt q) ip port c))"

definition login_onConnected :: "('f, 'w, 'd) gui \<Rightarrow> ('f, 'w) client \<Rightarrow> ('f, 'w) client" where
  "login_onConnected q c =
     (let c = updateStatus q ''Connected, logging in...'' (QColor 0 128 255) c
      in sendLoginRequest (gui_qt q) (tc_clientId c) (tc_nickname c) c)"

definition login_onConnectError ::
    "('f, 'w, 'd) gui \<Rightarrow> ('f, 'w) boxes \<Rightarrow> qstring \<Rightarrow> ('f, 'w) client \<Rightarrow> ('f, 'w) client" where
  "login_onConnectError q box error c =
     (let c = updateStatus q ''Connection failed'' Red c;
          c = box (Critical (glit q ''Connection Error'')
                (arg (gui_qt q) (glit q (''Unable to connect to server:'' @ [CHR 0x0A] @ ''%1'')) error)) c
      in on_ui (\<lambda>u. u\<lparr>lw_connectEnabled := True\<rparr>) c)"

definition login_onDisconnected ::
    "('f, 'w, 'd) gui \<Rightarrow> ('f, 'w) boxes \<Rightarrow> ('f, 'w) client \<Rightarrow> ('f, 'w) client" where
  "login_onDisconnected q box c =
     (let c = updateStatus q ''Disconnected'' Red c;
          c = (if lw_visible (tc_listeners c) then
                 box (Information (glit q ''Disconnected'')
                   (glit q ''Connection lost. Please reconnect.'')) c
               else c)
      in on_ui (\<lambda>u. u\<lparr>lw_connectEnabled := True\<rparr>) c)"

text \<open>
  Both windows on \<open>disconnected\<close>, the login window first; for \<open>disconnectFromServer\<close>, which
  emits nothing else, as the listeners of that signal alone.
\<close>

definition windows_disconnected ::
    "('f, 'w, 'd) gui \<Rightarrow> ('f, 'w) boxes \<Rightarrow> ('f, 'w) client \<Rightarrow> ('f, 'w) client" where
  "windows_disconnected q box c =
     (let c = login_onDisconnected q box c in if has_chat c then chat_onDisconnected q c else c)"

fun closing :: "('f, 'w, 'd) gui \<Rightarrow> ('f, 'w) boxes \<Rightarrow> ('f, 'w, ui) emitter" where
  "closing q box SigDisconnected c = windows_disconnected q box c"
| "closing q box _ c = c"

text \<open>\<open>closeEvent\<close>; the slot of \<open>windowClosed\<close> is the login window's.\<close>

definition closeEvent :: "('f, 'w, 'd) gui \<Rightarrow> ('f, 'w) boxes \<Rightarrow> ('f, 'w) client \<Rightarrow> ('f, 'w) client" where
  "closeEvent q box c =
     (let c = disconnectFromServer (gui_qt q) (closing q box) c;
          c = on_ui (\<lambda>u. u\<lparr>lw_visible := True, lw_connectEnabled := True\<rparr>) c
      in on_chat (\<lambda>cw. cw\<lparr>cw_visible := False\<rparr>) c)"

definition login_onLoginResponse ::
    "('f, 'w, 'd) gui \<Rightarrow> ('f, 'w) boxes \<Rightarrow> bool \<Rightarrow> qstring \<Rightarrow> ('f, 'w) client \<Rightarrow> ('f, 'w) client" where
  "login_onLoginResponse q box success message c =
     (if success then
        let c = updateStatus q ''Login successful'' (QColor 0 200 0) c;
            c = box (Information (glit q ''Login'')
                  (arg (gui_qt q) (glit q (''Login successful.'' @ [CHR 0x0A] @ ''%1'')) message)) c;
            c = (if lw_chatWindow (tc_listeners c) = None then new_ChatWindow q c else c);
            c = on_chat (\<lambda>cw. cw\<lparr>cw_visible := True\<rparr>) c
        in on_ui (\<lambda>u. u\<lparr>lw_visible := False\<rparr>) c
      else
        let c = updateStatus q ''Login failed'' Red c;
            c = box (Critical (glit q ''Login Failed'')
                  (arg (gui_qt q) (glit q (''Login failed:'' @ [CHR 0x0A] @ ''%1'')) message)) c;
            c = disconnectFromServer (gui_qt q) (closing q box) c
        in on_ui (\<lambda>u. u\<lparr>lw_connectEnabled := True\<rparr>) c)"

section \<open>The connections of signals and slots\<close>

text \<open>
  The slots of the login window are connected first, those of the chat window when it is
  made.
\<close>

definition ui_emit :: "('f, 'w, 'd) gui \<Rightarrow> ('f, 'w) boxes \<Rightarrow> ('f, 'w, ui) emitter" where
  "ui_emit q box sg c =
     (case sg of
        SigConnected \<Rightarrow>
          let c = login_onConnected q c in if has_chat c then chat_onConnected q c else c
      | SigConnectError e \<Rightarrow> login_onConnectError q box e c
      | SigDisconnected \<Rightarrow> windows_disconnected q box c
      | SigLoginResponse success message \<Rightarrow> login_onLoginResponse q box success message c
      | SigChatMessage fromId fromNick message isPrivate toId timestamp \<Rightarrow>
          on_chat (onChatMessageReceived q fromId fromNick message isPrivate toId timestamp (tc_world c)) c
      | SigUserListUpdated \<Rightarrow> on_chat (updateUserList q (tc_userList c) (tc_clientId c)) c
      | SigFileOffer fileId fileName fileSize fromId fromNick \<Rightarrow>
          on_chat (onFileOfferReceived q fileId fileName fileSize fromId fromNick) c
      | SigFileOfferResponse fileId result message \<Rightarrow>
          on_chat (onFileOfferResponseReceived q fileId result message) c
      | SigFileProgress fileId bytesTransferred totalBytes incoming \<Rightarrow>
          on_chat (onFileTransferProgress q fileId bytesTransferred totalBytes incoming) c
      | SigFileCompleted fileId incoming success message \<Rightarrow>
          on_chat (onFileTransferCompleted q fileId incoming success message) c)"

section \<open>The application's events\<close>

text \<open>
  What the socket, the timer and the user do; \<open>Edit\<close> stands for the user's input into
  the widgets, which changes no more than their texts.
\<close>

datatype 'w event =
    ReadyRead bytes
  | SocketConnected
  | SocketDisconnected SocketState
  | SocketFailed SocketError SocketState
  | HeartbeatTimeout
  | EditLogin qstring qstring qstring qstring
  | ClickConnect
  | EditChat qstring qstring qstring
  | ClickSend
  | KeyPress bool bool
  | ClickFile
  | ClickAccept nat
  | ClickDecline nat
  | ClickCancel nat
  | CloseChat
  | WorldChanges 'w

text \<open>
  \<open>eventFilter\<close> sends on Return or Enter without a modifier; other keys are the input field's.
\<close>

definition chat_do ::
    "(ChatWindow \<Rightarrow> ('f, 'w) client \<Rightarrow> ('f, 'w) client) \<Rightarrow> ('f, 'w) client \<Rightarrow> ('f, 'w) client" where
  "chat_do f c = (case lw_chatWindow (tc_listeners c) of None \<Rightarrow> c | Some cw \<Rightarrow> f cw c)"

definition eventFilter ::
    "('f, 'w, 'd) gui \<Rightarrow> ('f, 'w) boxes \<Rightarrow> bool \<Rightarrow> bool \<Rightarrow> ('f, 'w) client \<Rightarrow> ('f, 'w) client" where
  "eventFilter q box isReturn noModifier c =
     (if isReturn \<and> noModifier then chat_do (onSendClicked q box) c else c)"

definition click_offer ::
    "(nat \<Rightarrow> qstring \<Rightarrow> ('f, 'w) client \<Rightarrow> ('f, 'w) client option) \<Rightarrow> nat \<Rightarrow>
     ('f, 'w) client \<Rightarrow> ('f, 'w) client option" where
  "click_offer f row c =
     (case lw_chatWindow (tc_listeners c) of
        None \<Rightarrow> Some c
      | Some cw \<Rightarrow>
          if row < length (cw_table cw) \<and> tr_action (cw_table cw ! row) = OfferButtons True
          then f row (tr_fileId (cw_table cw ! row)) c else Some c)"

fun client_step ::
    "('f, 'w, 'd) gui \<Rightarrow> ('f, 'w) boxes \<Rightarrow> (('f, 'w) client \<Rightarrow> qstring \<times> ('f, 'w) client) \<Rightarrow>
     'w event \<Rightarrow> ('f, 'w) client \<Rightarrow> ('f, 'w) client option" where
  "client_step q box pick (ReadyRead data) c = onReadyRead (gui_qt q) (ui_emit q box) data c"
| "client_step q box pick SocketConnected c =
     Some (tcp_onConnected (ui_emit q box) (c\<lparr>tc_socket := ConnectedState\<rparr>))"
| "client_step q box pick (SocketDisconnected st) c =
     Some (tcp_onDisconnected (gui_qt q) (ui_emit q box) (c\<lparr>tc_socket := st\<rparr>))"
| "client_step q box pick (SocketFailed e st) c =
     Some (tcp_onError (gui_qt q) (ui_emit q box) e (c\<lparr>tc_socket := st\<rparr>))"
| "client_step q box pick HeartbeatTimeout c =
     Some (if tc_timer c then onHeartbeatTimeout (gui_qt q) c else c)"
| "client_step q box pick (EditLogin ip port clientId nickname) c =
     Some (on_ui (\<lambda>u. u\<lparr>lw_ip := ip, lw_port := port, lw_clientId := clientId,
       lw_nickname := nickname\<rparr>) c)"
| "client_step q box pick ClickConnect c =
     Some (if lw_connectEnabled (tc_listeners c) then onConnectClicked q box c else c)"
| "client_step q box pick (EditChat input d t) c =
     Some (on_chat (\<lambda>cw. cw\<lparr>cw_input := input, cw_data := d, cw_text := t\<rparr>) c)"
| "client_step q box pick ClickSend c = Some (chat_do (onSendClicked q box) c)"
| "client_step q box pick (KeyPress isReturn noModifier) c = Some (eventFilter q box isReturn noModifier c)"
| "client_step q box pick ClickFile c = Some (chat_do (onSelectFile q box pick (ui_emit q box)) c)"
| "client_step q box pick (ClickAccept row) c = click_offer (acceptClicked q (ui_emit q box)) row c"
| "client_step q box pick (ClickDecline row) c = click_offer (declineClicked q (ui_emit q box)) row c"
| "client_step q box pick (ClickCancel row) c =
     Some (chat_do (\<lambda>cw c. if row < length (cw_table cw) \<and> tr_action (cw_table cw ! row) = CancelButton True
       then cancelClicked q row (tr_fileId (cw_table cw ! row)) c else c) c)"
| "client_step q box pick CloseChat c = Some (chat_do (\<lambda>_. closeEvent q box) c)"
| "client_step q box pick (WorldChanges w) c = Some (c\<lparr>tc_world := w\<rparr>)"

fun client_run ::
    "('f, 'w, 'd) gui \<Rightarrow> ('f, 'w) boxes \<Rightarrow> (('f, 'w) client \<Rightarrow> qstring \<times> ('f, 'w) client) \<Rightarrow>
     'w event list \<Rightarrow> ('f, 'w) client \<Rightarrow> ('f, 'w) client option" where
  "client_run q box pick [] c = Some c"
| "client_run q box pick (e # es) c = Option.bind (client_step q box pick e c) (client_run q box pick es)"

end
