(* ===== verification/Client_Input.thy ===== *)
theory Client_Input
  imports Tcp_Client
begin

text \<open>
  How the client takes messages from the bytes it receives. As on the server, the loop
  of \<open>onReadyRead\<close> is proved to hand over exactly the messages of \<open>deframe\<close>, so that
  the cuts between two reads do not matter. The slots may do anything that neither
  depends on the receive buffer nor changes it.
\<close>

section \<open>The receive buffer is invisible to the handlers\<close>

definition with_buffer :: "bytes \<Rightarrow> ('f, 'w, 'u) TcpClient \<Rightarrow> ('f, 'w, 'u) TcpClient" where
  "with_buffer b c = c\<lparr>tc_recvBuffer := b\<rparr>"

definition blind :: "('f, 'w, 'u) emitter \<Rightarrow> bool" where
  "blind emit \<longleftrightarrow> (\<forall>sg c b. emit sg (with_buffer b c) = with_buffer b (emit sg c))"

lemma blindD: "blind emit \<Longrightarrow> emit sg (with_buffer b c) = with_buffer b (emit sg c)"
  by (simp add: blind_def)

text \<open>Every other field is read and written past it.\<close>

lemma with_buffer_fields [simp]:
  "tc_recvBuffer (with_buffer b c) = b" "with_buffer b' (with_buffer b c) = with_buffer b' c"
  "tc_socket (with_buffer b c) = tc_socket c" "tc_sequence (with_buffer b c) = tc_sequence c"
  "tc_pendingOffers (with_buffer b c) = tc_pendingOffers c"
  "tc_sendSessions (with_buffer b c) = tc_sendSessions c"
  "tc_recvSessions (with_buffer b c) = tc_recvSessions c"
  "tc_written (with_buffer b c) = tc_written c" "tc_world (with_buffer b c) = tc_world c"
  "tc_userList (with_buffer b c) = tc_userList c"
  "tc_listeners (with_buffer b c) = tc_listeners c"
  by (simp_all add: with_buffer_def)

lemma with_buffer_updates [simp]:
  "tc_sequence_update f1 (with_buffer b c) = with_buffer b (tc_sequence_update f1 c)"
  "tc_pendingOffers_update f2 (with_buffer b c) = with_buffer b (tc_pendingOffers_update f2 c)"
  "tc_sendSessions_update f3 (with_buffer b c) = with_buffer b (tc_sendSessions_update f3 c)"
  "tc_recvSessions_update f4 (with_buffer b c) = with_buffer b (tc_recvSessions_update f4 c)"
  "tc_written_update f5 (with_buffer b c) = with_buffer b (tc_written_update f5 c)"
  "tc_world_update f6 (with_buffer b c) = with_buffer b (tc_world_update f6 c)"
  "tc_userList_update f7 (with_buffer b c) = with_buffer b (tc_userList_update f7 c)"
  by (simp_all add: with_buffer_def)

lemma with_buffer_operations [simp]:
  "next_sequence (with_buffer b c) = with_buffer b (next_sequence c)"
  "sendData d (with_buffer b c) = with_buffer b (sendData d c)"
  "drop_send k (with_buffer b c) = with_buffer b (drop_send k c)"
  "drop_recv k (with_buffer b c) = with_buffer b (drop_recv k c)"
  "close_file q f (with_buffer b c) = with_buffer b (close_file q f c)"
  by (simp_all add: next_sequence_def sendData_def isConnected_def drop_send_def drop_recv_def
      close_file_def)

lemma with_buffer_self: "with_buffer (tc_recvBuffer c) c = c"
  by (simp add: with_buffer_def)

text \<open>So the handlers do not depend on it either.\<close>

lemma file_send_loop_blind_Some:
  "file_send_loop q emit fileId f session c = Some c' \<Longrightarrow> blind emit \<Longrightarrow>
   file_send_loop q emit fileId f session (with_buffer b c) = Some (with_buffer b c')"
proof (induction rule: file_send_loop.raw_induct [rotated 1, consumes 1])
  case (1 loop q emit fileId f session c c')
  note IH = "1"(1) [OF _ "1"(3)]
  show ?case
    using "1"(2) IH
    by (subst file_send_loop.simps)
      (auto simp: Let_def blindD [OF "1"(3)] split: prod.splits if_splits)
qed

lemma file_send_loop_blind:
  assumes "blind emit"
  shows "file_send_loop q emit fileId f session (with_buffer b c) =
    map_option (with_buffer b) (file_send_loop q emit fileId f session c)"
proof (cases "file_send_loop q emit fileId f session c")
  case (Some c')
  then show ?thesis using file_send_loop_blind_Some [OF Some assms] by simp
next
  case None
  have "file_send_loop q emit fileId f session (with_buffer b c) = None"
  proof (rule ccontr)
    assume "file_send_loop q emit fileId f session (with_buffer b c) \<noteq> None"
    then obtain x where "file_send_loop q emit fileId f session (with_buffer b c) = Some x" by blast
    from file_send_loop_blind_Some [OF this assms, of "tc_recvBuffer c"] None show False
      by (simp add: with_buffer_self)
  qed
  then show ?thesis using None by simp
qed

lemma startFileSend_blind:
  assumes "blind emit"
  shows "startFileSend q emit fileId (with_buffer b c) =
    map_option (with_buffer b) (startFileSend q emit fileId c)"
  by (simp add: startFileSend_def Let_def file_send_loop_blind [OF assms] blindD [OF assms]
      split: option.split prod.split)

lemma handleFileData_blind:
  assumes "blind emit"
  shows "tcp_handleFileData q emit fileId off payload (with_buffer b c) =
    with_buffer b (tcp_handleFileData q emit fileId off payload c)"
  by (simp add: tcp_handleFileData_def fail_recv_def Let_def blindD [OF assms]
      split: option.split prod.split)

lemma processMessage_blind:
  assumes "blind emit"
  shows "processMessage q emit h body (with_buffer b c) =
    map_option (with_buffer b) (processMessage q emit h body c)"
  by (simp add: processMessage_def Let_def blindD [OF assms] startFileSend_blind [OF assms]
      handleFileData_blind [OF assms] split: option.split prod.split)

section \<open>The loop hands over the messages of the stream\<close>

fun handle_all ::
    "('f, 'w) qt \<Rightarrow> ('f, 'w, 'u) emitter \<Rightarrow> (MessageHeader \<times> bytes) list \<Rightarrow>
     ('f, 'w, 'u) TcpClient \<Rightarrow> ('f, 'w, 'u) TcpClient option" where
  "handle_all q emit [] c = Some c"
| "handle_all q emit ((h, b) # fs) c = Option.bind (processMessage q emit h b c) (handle_all q emit fs)"

lemma handle_all_append:
  "handle_all q emit (fs @ gs) c = Option.bind (handle_all q emit fs c) (handle_all q emit gs)"
proof (induction fs arbitrary: c)
  case (Cons f fs)
  then show ?case by (cases f; cases "processMessage q emit (fst f) (snd f) c") simp_all
qed simp

lemma handle_all_blind:
  assumes "blind emit"
  shows "handle_all q emit fs (with_buffer b c) = map_option (with_buffer b) (handle_all q emit fs c)"
proof (induction fs arbitrary: c)
  case (Cons f fs)
  obtain h body where f: "f = (h, body)" by fastforce
  show ?case
    by (cases "processMessage q emit h body c")
      (simp_all add: f processMessage_blind [OF assms] Cons.IH)
qed simp

definition rest_buffer :: "bytes option \<Rightarrow> bytes" where
  "rest_buffer r = (case r of None \<Rightarrow> [] | Some b \<Rightarrow> b)"

lemma map_option_with_buffer [simp]:
  "map_option (with_buffer b) (map_option (with_buffer b') x) = map_option (with_buffer b) x"
  by (cases x) simp_all

lemma read_loop_deframe:
  assumes "blind emit"
  shows "read_loop q emit (with_buffer buf c) =
    (case deframe buf of (fs, r) \<Rightarrow>
       map_option (with_buffer (rest_buffer r)) (handle_all q emit fs c))"
proof (induction buf arbitrary: c rule: deframe.induct)
  case (1 bs)
  let ?h = "decode_header bs"
  have load: "sizeof_MessageHeader \<le> length bs \<Longrightarrow>
      header_ntoh (qt_endian q) (MessageHeader_load (qt_endian q) bs) = ?h"
    by (rule header_load_decode)
  show ?case
  proof (cases "sizeof_MessageHeader \<le> length bs \<and> validateHeader ?h \<and> frame_len bs \<le> length bs")
    case True
    let ?body = "take (unat (bodyLength ?h)) (drop sizeof_MessageHeader bs)"
    obtain fs r where d: "deframe (drop (frame_len bs) bs) = (fs, r)" by fastforce
    have b: "get sizeof_MessageHeader (frame_len bs - sizeof_MessageHeader) bs = ?body"
      by (simp add: get_def frame_len_def)
    have IH: "read_loop q emit (with_buffer (drop (frame_len bs) bs) c') =
        map_option (with_buffer (rest_buffer r)) (handle_all q emit fs c')" for c'
      using "1.IH" True d by simp
    have fl: "frame_len bs = sizeof_MessageHeader + unat (bodyLength ?h)" by (simp add: frame_len_def)
    have "read_loop q emit (with_buffer bs c) =
        Option.bind (processMessage q emit ?h ?body (with_buffer bs c))
          (\<lambda>c. read_loop q emit (c\<lparr>tc_recvBuffer := drop (frame_len bs) (tc_recvBuffer c)\<rparr>))"
      using True by (subst read_loop.simps) (simp add: load client_validateHeader_eq fl Let_def)
    also have "\<dots> = Option.bind (processMessage q emit ?h ?body c)
        (\<lambda>c. read_loop q emit (with_buffer (drop (frame_len bs) bs) c))"
      by (cases "processMessage q emit ?h ?body c")
        (simp_all add: processMessage_blind [OF assms], simp add: with_buffer_def)
    also have "\<dots> = map_option (with_buffer (rest_buffer r)) (handle_all q emit ((?h, ?body) # fs) c)"
      by (cases "processMessage q emit ?h ?body c") (simp_all add: IH)
    finally show ?thesis
      using True d b by (subst deframe.simps) simp
  next
    case False
    then show ?thesis
      by (subst read_loop.simps, subst deframe.simps)
        (auto simp: load client_validateHeader_eq frame_len_def rest_buffer_def with_buffer_def Let_def)
  qed
qed

lemma onReadyRead_deframe:
  assumes "blind emit"
  shows "onReadyRead q emit data c =
    (case deframe (tc_recvBuffer c @ data) of (fs, r) \<Rightarrow>
       map_option (with_buffer (rest_buffer r)) (handle_all q emit fs c))"
  using read_loop_deframe [OF assms, of q "tc_recvBuffer c @ data" c]
  by (simp add: onReadyRead_def with_buffer_def)

text \<open>Several reads.\<close>

fun onReadyReads ::
    "('f, 'w) qt \<Rightarrow> ('f, 'w, 'u) emitter \<Rightarrow> bytes list \<Rightarrow>
     ('f, 'w, 'u) TcpClient \<Rightarrow> ('f, 'w, 'u) TcpClient option" where
  "onReadyReads q emit [] c = Some c"
| "onReadyReads q emit (d # ds) c = Option.bind (onReadyRead q emit d c) (onReadyReads q emit ds)"

lemma onReadyReads_deframe:
  assumes "blind emit"
  shows "deframe (tc_recvBuffer c @ concat ds) = (fs, Some r) \<Longrightarrow> ds \<noteq> [] \<Longrightarrow>
    onReadyReads q emit ds c = map_option (with_buffer r) (handle_all q emit fs c)"
proof (induction ds arbitrary: c fs)
  case (Cons d ds)
  obtain gs p where g: "deframe (tc_recvBuffer c @ d) = (gs, p)" by fastforce
  with Cons.prems(1) obtain u hs where u: "p = Some u"
    and h: "deframe (u @ concat ds) = (hs, Some r)" and fs: "fs = gs @ hs"
    using deframe_append [of "tc_recvBuffer c @ d" "concat ds"] by (auto split: option.splits prod.splits)
  have first: "onReadyRead q emit d c = map_option (with_buffer u) (handle_all q emit gs c)"
    by (simp add: onReadyRead_deframe [OF assms] g u rest_buffer_def)
  show ?case
  proof (cases ds)
    case Nil
    then have "hs = []" "r = u"
      using h deframe_rest_stuck [of "tc_recvBuffer c @ d" gs u] g u by auto
    then show ?thesis using first Nil fs by (cases "handle_all q emit gs c") simp_all
  next
    case (Cons x xs)
    have "onReadyReads q emit ds (with_buffer u c') = map_option (with_buffer r) (handle_all q emit hs c')"
      for c'
      using Cons.IH [of "with_buffer u c'" hs] h Cons by (simp add: handle_all_blind [OF assms])
    then show ?thesis
      using first fs by (cases "handle_all q emit gs c") (simp_all add: handle_all_append)
  qed
qed simp

end
