(* ===== verification/Client_Steps.thy ===== *)
theory Client_Steps
  imports Login_Window Client_Input
begin

text \<open>
  What holds between the client's state before and after any of its operations. A
  relation that allows every change of the state but for what was written and the
  windows, allows whole messages to be written, and allows what the windows do to
  their contents holds for every slot and for every run of the application: the locales
  state this once, for the two relations it is needed for.
\<close>

section \<open>The operations of TcpClient\<close>

definition bounded_reads :: "('f, 'w) qt \<Rightarrow> bool" where
  "bounded_reads q \<longleftrightarrow> (\<forall>f n w. length (fst (file_read q f n w)) \<le> n)"

locale client_relation =
  fixes R :: "('f, 'w, 'u) TcpClient \<Rightarrow> ('f, 'w, 'u) TcpClient \<Rightarrow> bool"
  assumes trans: "R a b \<Longrightarrow> R b c \<Longrightarrow> R a c"
    and quiet: "tc_written c' = tc_written c \<Longrightarrow> tc_listeners c' = tc_listeners c \<Longrightarrow> R c c'"
    and says: "length d \<le> 1048576 \<Longrightarrow> tc_written c' = tc_written c @ wire_message ty sq d \<Longrightarrow>
      tc_listeners c' = tc_listeners c \<Longrightarrow> R c c'"
begin

lemma same: "R c c"
  by (rule quiet) simp_all

lemma sendData_R:
  assumes "tc_written c1 = tc_written c" and "tc_listeners c1 = tc_listeners c"
    and "length d \<le> 1048576"
  shows "R c (sendData (wire_message ty sq d) c1)"
proof (cases "isConnected c1")
  case True
  then show ?thesis using assms by (intro says [of d _ _ ty sq]) (simp_all add: sendData_def)
next
  case False
  then show ?thesis using assms by (intro quiet) (simp_all add: sendData_def)
qed

lemma requests_R:
  "R c (sendLoginRequest q i n c)" "R c (sendLogoutRequest q c)" "R c (sendHeartbeat q c)"
  "R c (requestUserList q c)" "R c (sendChatMessage q scope t m c)"
  by (simp_all add: sendLoginRequest_def sendLogoutRequest_def sendHeartbeat_def requestUserList_def
    sendChatMessage_def Let_def client_pack_eq pack_simps sendData_R next_sequence_def)

text \<open>The last change of a state, peeled off.\<close>

lemma quiet_after:
  "R a b \<Longrightarrow> tc_written c = tc_written b \<Longrightarrow> tc_listeners c = tc_listeners b \<Longrightarrow> R a c"
  using trans quiet by blast

lemma after:
  assumes "R a b"
  shows "R a (tc_world_update f1 b)" "R a (tc_sendSessions_update f2 b)"
    "R a (tc_recvSessions_update f3 b)" "R a (tc_pendingOffers_update f4 b)"
    "R a (tc_userList_update f5 b)" "R a (tc_recvBuffer_update f6 b)" "R a (next_sequence b)"
    "R a (drop_send k b)" "R a (drop_recv k b)" "R a (close_file q f b)"
    "R a (tc_socket_update f7 b)" "R a (tc_timer_update f8 b)" "R a (tc_sequence_update f9 b)"
    "R a (clearFileSessions q b)" "R a (setIdentity q x y b)" "R a (connectToServer q ip port b)"
    "R a (requestUserList q b)" "R a (sendLogoutRequest q b)" "R a (sendLoginRequest q x y b)"
    "R a (sendChatMessage q scope x y b)" "R a (sendHeartbeat q b)"
    "length d \<le> 1048576 \<Longrightarrow> R a (sendData (wire_message ty sq d) b)"
  using assms requests_R [THEN trans [OF assms]] trans [OF assms sendData_R [OF refl refl]]
  by (auto intro!: quiet_after [OF assms] simp: next_sequence_def drop_send_def drop_recv_def
      close_file_def clearFileSessions_def setIdentity_def connectToServer_def Let_def split: prod.split)

lemma answer_offer_R: "R a b \<Longrightarrow> R a (answer_offer q k r m b)"
  unfolding answer_offer_def Let_def client_pack_eq packFileOfferResponse_wire
  by (intro after) simp_all

text \<open>The operations that emit.\<close>

lemma emits:
  assumes "\<And>sg c. R c (emit sg c)"
  shows "R a b \<Longrightarrow> R a (emit sg b)"
  using trans assms by blast

lemma disconnect_R:
  assumes "\<And>c. R c (emit SigDisconnected c)"
  shows "R a b \<Longrightarrow> R a (disconnectFromServer q emit b)"
  by (auto simp: disconnectFromServer_def tcp_onDisconnected_def Let_def split: prod.split
      intro!: after trans [OF _ assms])

lemma sendFileOffer_R:
  assumes "\<And>sg c. R c (emit sg c)"
  shows "R c (sendFileOffer q emit k p n z t c)"
  by (auto simp: sendFileOffer_def Let_def client_pack_eq packFileOffer_wire
      intro!: after same emits [OF assms])

lemma sendFileOfferResponse_R:
  assumes "\<And>sg c. R c (emit sg c)" and "sendFileOfferResponse q emit k r m c = Some c'"
  shows "R c c'"
  using assms(2)
  by (auto simp: sendFileOfferResponse_def Let_def split: if_splits option.splits prod.splits
      intro!: answer_offer_R after same emits [OF assms(1)])

lemma file_send_loop_R:
  "file_send_loop q emit k f s c = Some c' \<Longrightarrow> bounded_reads q \<Longrightarrow> (\<And>sg c. R c (emit sg c)) \<Longrightarrow> R c c'"
proof (induction rule: file_send_loop.raw_induct [rotated 1, consumes 1])
  case (1 loop q emit k f s c c')
  note E = emits [OF "1"(4)]
  have len: "file_read q f kFileChunkSize w = (d, w') \<Longrightarrow> length d \<le> kFileChunkSize" for w d w'
    using "1"(3) unfolding bounded_reads_def by (metis fst_conv)
  have len': "length d \<le> kFileChunkSize \<Longrightarrow> length d \<le> 1048527" for d :: bytes
    by (simp add: kFileChunkSize_def)
  note IH = "1"(1) [OF _ "1"(3,4)]
  show ?case
    using "1"(2)
    by (auto simp: Let_def packFileData_wire split: prod.splits if_splits
        intro!: after E same dest!: len len' dest: IH [THEN trans [rotated]])
qed

lemma startFileSend_R:
  assumes E: "\<And>sg c. R c (emit sg c)" and B: "bounded_reads q"
    and "startFileSend q emit k c = Some c'"
  shows "R c c'"
proof -
  note loop = file_send_loop_R [OF _ B E, THEN trans [rotated]]
  show ?thesis
    using assms(3)
    by (auto simp: startFileSend_def Let_def split: option.splits prod.splits if_splits
        intro!: after same emits [OF E] dest!: loop)
qed

lemma handleFileData_R:
  assumes E: "\<And>sg c. R c (emit sg c)" and a: "R a c"
  shows "R a (tcp_handleFileData q emit k off d c)"
proof -
  note steps = after emits [OF E] a
  have fail: "R a b \<Longrightarrow> R a (fail_recv q emit k f why b)" for f why b
    unfolding fail_recv_def Let_def by (intro steps)
  show ?thesis
    unfolding tcp_handleFileData_def Let_def
    by (intro steps fail | split option.split prod.split if_split | intro conjI impI allI)+
qed

lemma processMessage_R:
  assumes E: "\<And>sg c. R c (emit sg c)" and B: "bounded_reads q"
    and "processMessage q emit h b c = Some c'"
  shows "R c c'"
proof -
  note send = startFileSend_R [OF E B, THEN trans [rotated]]
  show ?thesis
    using assms(3)
    by (auto simp: processMessage_def Let_def split: option.splits if_splits prod.splits
        intro!: after same emits [OF E] handleFileData_R [OF E] dest!: send)
qed

lemma read_loop_R:
  "read_loop q emit c = Some c' \<Longrightarrow> bounded_reads q \<Longrightarrow> (\<And>sg c. R c (emit sg c)) \<Longrightarrow> R c c'"
proof (induction rule: read_loop.raw_induct [rotated 1, consumes 1])
  case (1 loop q emit c c')
  note step = processMessage_R [OF "1"(4,3)]
  have IH: "loop q emit x = Some c' \<Longrightarrow> R x c'" for x
    by (rule "1"(1)) (use "1"(3,4) in auto)
  have one: "R c x \<Longrightarrow> loop q emit (tc_recvBuffer_update f x) = Some c' \<Longrightarrow> R c c'" for x f
    using IH trans after(6) by blast
  show ?case
    using "1"(2)
    by (auto simp: Let_def bind_eq_Some_conv split: if_splits intro!: after same dest!: step intro: one)
qed

lemma onReadyRead_R:
  assumes "\<And>sg c. R c (emit sg c)" and "bounded_reads q" and "onReadyRead q emit d c = Some c'"
  shows "R c c'"
  using read_loop_R [OF assms(3) [unfolded onReadyRead_def] assms(2,1)] trans after(6) [OF same]
  by blast

lemma tcp_slots_R:
  assumes E: "\<And>sg c. R c (emit sg c)"
  shows "R a c \<Longrightarrow> R a (tcp_onConnected emit c)" "R a c \<Longrightarrow> R a (tcp_onDisconnected q emit c)"
    "R a c \<Longrightarrow> R a (tcp_onError q emit err c)" "R a c \<Longrightarrow> R a (onHeartbeatTimeout q c)"
  by (auto simp: tcp_onConnected_def tcp_onDisconnected_def tcp_onError_def onHeartbeatTimeout_def
      Let_def intro!: after emits [OF E])

end

section \<open>The windows\<close>

text \<open>
  The transfer table: every row is known under its own file id and every file id leads to
  its row, which has a status.
\<close>

definition window_ok :: "ChatWindow \<Rightarrow> bool" where
  "window_ok cw \<longleftrightarrow>
     (\<forall>k i. map_of (cw_transferRows cw) k = Some i \<longleftrightarrow>
        i < length (cw_table cw) \<and> tr_fileId (cw_table cw ! i) = k) \<and>
     (\<forall>r \<in> set (cw_table cw). tr_status r \<noteq> None)"

definition tables :: "ChatWindow \<Rightarrow> transfer_row list \<times> (qstring \<times> nat) list" where
  "tables cw = (cw_table cw, cw_transferRows cw)"

lemma window_ok_tables: "tables cw' = tables cw \<Longrightarrow> window_ok cw \<Longrightarrow> window_ok cw'"
  by (simp add: window_ok_def tables_def)

lemma window_ok_row:
  assumes "window_ok cw" and "tr_fileId r = tr_fileId (cw_table cw ! i)" and "tr_status r \<noteq> None"
  shows "window_ok (cw\<lparr>cw_table := (cw_table cw)[i := r]\<rparr>)"
proof (cases "i < length (cw_table cw)")
  case True
  then have "tr_fileId ((cw_table cw)[i := r] ! j) = tr_fileId (cw_table cw ! j)" for j
    using assms(2) by (simp add: nth_list_update)
  then show ?thesis
    using assms(1,3) by (auto simp: window_ok_def dest!: set_update_subset_insert [THEN subsetD])
next
  case False
  then have "(cw_table cw)[i := r] = cw_table cw" by (simp add: list_update_beyond)
  then show ?thesis using assms(1) by (simp add: window_ok_def)
qed

lemma updateTransferStatus_ok: "window_ok cw \<Longrightarrow> window_ok (updateTransferStatus k s cw)"
  by (auto simp: updateTransferStatus_def split: option.split intro!: window_ok_row)

lemma addTransferRow_ok:
  assumes "window_ok cw"
  shows "window_ok (addTransferRow q k n z s inc cw)"
proof (cases "map_of (cw_transferRows cw) k")
  case None
  then have "\<forall>i < length (cw_table cw). tr_fileId (cw_table cw ! i) \<noteq> k"
    using assms unfolding window_ok_def by (metis option.distinct(1))
  then show ?thesis
    using assms None
    by (auto simp: addTransferRow_def Let_def window_ok_def nth_append update_conv' less_Suc_eq)
next
  case (Some i)
  then show ?thesis using updateTransferStatus_ok [OF assms] by (simp add: addTransferRow_def)
qed

lemma disable_action_ok:
  assumes "window_ok cw"
  shows "window_ok (disable_action i cw)"
proof (cases "i < length (cw_table cw)")
  case True
  then show ?thesis
    using assms unfolding disable_action_def by (intro window_ok_row) (auto simp: window_ok_def)
next
  case False
  then show ?thesis
    using assms by (simp add: disable_action_def list_update_beyond window_ok_def)
qed

lemma window_texts_ok:
  assumes "window_ok cw"
  shows "window_ok (setStatus t col cw)" "window_ok (set_targets q items cw)"
    "window_ok (appendMessage q s m ts out tg w cw)" "window_ok (updateUserList q us self cw)"
    "window_ok (onChatMessageReceived q i n m pr t tm w cw)"
  by (rule window_ok_tables [OF _ assms], simp add: tables_def setStatus_def set_targets_def
      appendMessage_def updateUserList_def onChatMessageReceived_def Let_def split: prod.split)+

lemma window_transfers_ok:
  assumes "window_ok cw"
  shows "window_ok (onFileOfferReceived q k n z i nk cw)" "window_ok (onFileOfferResponseReceived q k r m cw)"
    "window_ok (onFileTransferProgress q k x y inc cw)" "window_ok (onFileTransferCompleted q k inc su m cw)"
  using assms
  by (simp_all add: updateTransferStatus_ok addTransferRow_ok onFileOfferReceived_def onFileOfferResponseReceived_def
      onFileTransferProgress_def onFileTransferCompleted_def Let_def)

text \<open>What the application's slots and events may do to the windows.\<close>

locale window_relation = client_relation R
  for R :: "('f, 'w) client \<Rightarrow> ('f, 'w) client \<Rightarrow> bool" +
  assumes ui: "(\<And>u. lw_chatWindow (f u) = lw_chatWindow u) \<Longrightarrow> R c (on_ui f c)"
    and chat: "(\<And>cw. window_ok cw \<Longrightarrow> window_ok (g cw)) \<Longrightarrow> R c (on_chat g c)"
    and made: "window_ok cw \<Longrightarrow> R c (on_ui (\<lambda>u. u\<lparr>lw_chatWindow := Some cw\<rparr>) c)"
begin

lemma ui_after: "R a b \<Longrightarrow> (\<And>u. lw_chatWindow (f u) = lw_chatWindow u) \<Longrightarrow> R a (on_ui f b)"
  using trans ui by blast

lemma chat_after: "R a b \<Longrightarrow> (\<And>cw. window_ok cw \<Longrightarrow> window_ok (g cw)) \<Longrightarrow> R a (on_chat g b)"
  using trans chat by blast

lemma updateStatus_R: "R a b \<Longrightarrow> R a (updateStatus q s col b)"
  unfolding updateStatus_def by (rule ui_after) simp_all

lemma window_field_ok:
  "window_ok cw \<Longrightarrow> window_ok (cw\<lparr>cw_visible := v\<rparr>)" "window_ok cw \<Longrightarrow> window_ok (cw\<lparr>cw_input := t\<rparr>)"
  "window_ok cw \<Longrightarrow> window_ok (cw\<lparr>cw_input := t, cw_data := d, cw_text := x\<rparr>)"
  by (simp_all add: window_ok_def)

lemmas window_steps =
  after updateStatus_R ui_after chat_after window_texts_ok window_transfers_ok
  window_field_ok updateTransferStatus_ok addTransferRow_ok disable_action_ok

lemma new_ChatWindow_R:
  assumes "R a c"
  shows "R a (new_ChatWindow q c)"
proof -
  have "R c (on_ui (\<lambda>u. u\<lparr>lw_chatWindow := Some cw\<rparr>) c)" if "tables cw = ([], [])" for cw
    using that by (intro made) (simp add: window_ok_def tables_def)
  with trans [OF assms] show ?thesis
    unfolding new_ChatWindow_def chat_setupUI_def Let_def
    by (intro after) (auto simp: tables_def setStatus_def set_targets_def split: prod.split)
qed

lemma windows_disconnected_R:
  assumes box: "\<And>d c. R c (box d c)"
  shows "R c (windows_disconnected q box c)"
proof -
  note steps = window_steps trans [OF _ box]
  show ?thesis
    by (auto simp: windows_disconnected_def login_onDisconnected_def chat_onDisconnected_def Let_def
        intro!: steps same)
qed

lemma closing_R:
  assumes box: "\<And>d c. R c (box d c)"
  shows "R a b \<Longrightarrow> R a (disconnectFromServer q' (closing q box) b)"
  by (rule disconnect_R) (simp_all add: windows_disconnected_R [where box = box, OF box])

lemma ui_emit_R:
  assumes box: "\<And>d c. R c (box d c)"
  shows "R c (ui_emit q box sg c)"
proof -
  note steps = window_steps new_ChatWindow_R trans [OF _ box] closing_R [where box = box, OF box]
    trans [OF _ windows_disconnected_R [where box = box, OF box]]
  show ?thesis
    by (cases sg)
      (auto simp: ui_emit_def Let_def login_onConnected_def chat_onConnected_def login_onConnectError_def
        login_onLoginResponse_def intro!: steps same)
qed

lemma user_actions_R:
  assumes box: "\<And>d c. R c (box d c)" and pick: "\<And>c. R c (snd (pick c))"
  shows "R c (onSendClicked q box cw c)" "R c (onConnectClicked q box c)" "R c (closeEvent q box c)"
    "R c (cancelClicked q i k c)" "R c (onSelectFile q box pick (ui_emit q box) cw c)"
proof -
  note steps = window_steps box same closing_R [where box = box, OF box]
  show "R c (onSendClicked q box cw c)" "R c (closeEvent q box c)" "R c (cancelClicked q i k c)"
    by (auto simp: onSendClicked_def closeEvent_def cancelClicked_def Let_def split: prod.split
        intro!: steps)
  show "R c (onConnectClicked q box c)"
    by (auto simp: onConnectClicked_def saveConfig_def Let_def split: option.split intro!: steps)
  have p: "pick c = (path, c1) \<Longrightarrow> R c c1" for path c1 using pick [of c] by simp
  have o: "R a b \<Longrightarrow> R a (sendFileOffer (gui_qt q) (ui_emit q box) k path n z t b)" for a b k path n z t
    using trans sendFileOffer_R [where emit = "ui_emit q box", OF ui_emit_R [OF box]] by blast
  show "R c (onSelectFile q box pick (ui_emit q box) cw c)"
    by (auto simp: onSelectFile_def Let_def split: prod.split intro!: steps o dest: p)
qed

lemma offer_clicked_R:
  assumes box: "\<And>d c. R c (box d c)"
  shows "acceptClicked q (ui_emit q box) i k c = Some c' \<Longrightarrow> R c c'"
    "declineClicked q (ui_emit q box) i k c = Some c' \<Longrightarrow> R c c'"
  by (auto simp: acceptClicked_def declineClicked_def bind_eq_Some_conv intro!: window_steps
      dest!: sendFileOfferResponse_R [OF ui_emit_R [OF box]])

lemma client_step_R:
  assumes box: "\<And>d c. R c (box d c)" and pick: "\<And>c. R c (snd (pick c))"
    and B: "bounded_reads (gui_qt q)" and step: "client_step q box pick e c = Some c'"
  shows "R c c'"
proof -
  note E = ui_emit_R [OF box]
  have slots: "e = SocketConnected \<or> e = SocketDisconnected st \<or> e = SocketFailed err st \<or>
      e = HeartbeatTimeout \<Longrightarrow> ?thesis" for st err
    using step by (auto intro!: tcp_slots_R [OF E] after same)
  have clicks: "e = ClickConnect \<or> e = ClickSend \<or> e = KeyPress x y \<or> e = ClickFile \<or>
      e = ClickCancel i \<or> e = CloseChat \<Longrightarrow> ?thesis" for x y i
    using step user_actions_R [OF box pick]
    by (auto simp: chat_do_def eventFilter_def same split: option.splits if_splits)
  have offers: "e = ClickAccept i \<or> e = ClickDecline i \<Longrightarrow> ?thesis" for i
    using step offer_clicked_R [OF box]
    by (auto simp: click_offer_def same split: option.splits if_splits)
  have rest: "e = EditLogin a b x y \<or> e = EditChat a b x \<or> e = WorldChanges w \<Longrightarrow> ?thesis" for a b x y w
    using step by (auto intro!: window_steps same)
  have read: "e = ReadyRead d \<Longrightarrow> ?thesis" for d
    using step onReadyRead_R [OF E B] by simp
  show ?thesis
    using slots clicks offers rest read by (cases e) blast+
qed

lemma client_run_R:
  assumes "\<And>d c. R c (box d c)" and "\<And>c. R c (snd (pick c))" and "bounded_reads (gui_qt q)"
  shows "client_run q box pick es c = Some c' \<Longrightarrow> R c c'"
proof (induction es arbitrary: c)
  case (Cons e es)
  then obtain b where "client_step q box pick e c = Some b" and "R b c'"
    by (auto simp: bind_eq_Some_conv)
  then show ?case
    using client_step_R [where box = box and pick = pick, OF assms] trans by blast
qed (simp add: same)

end

section \<open>The two relations\<close>

text \<open>What was written grows by whole messages of a legal size.\<close>

definition speaks :: "('f, 'w, 'u) TcpClient \<Rightarrow> ('f, 'w, 'u) TcpClient \<Rightarrow> bool" where
  "speaks c c' \<longleftrightarrow> (\<exists>ms. tc_written c' = tc_written c @ wire_stream ms \<and>
     (\<forall>(ty, sq, b) \<in> set ms. length b \<le> 1048576))"

definition windows_ok :: "('f, 'w) client \<Rightarrow> bool" where
  "windows_ok c = (case lw_chatWindow (tc_listeners c) of None \<Rightarrow> True | Some cw \<Rightarrow> window_ok cw)"

lemma speaks_trans:
  assumes "speaks a b" and "speaks b c"
  shows "speaks a c"
proof -
  obtain ms ns where "tc_written b = tc_written a @ wire_stream ms"
    "\<forall>(ty, sq, d) \<in> set ms. length d \<le> 1048576"
    "tc_written c = tc_written b @ wire_stream ns" "\<forall>(ty, sq, d) \<in> set ns. length d \<le> 1048576"
    using assms unfolding speaks_def by blast
  then show ?thesis
    unfolding speaks_def by (intro exI [of _ "ms @ ns"]) (auto simp: wire_stream_def)
qed

lemma speaks_quiet: "tc_written c' = tc_written c \<Longrightarrow> speaks c c'"
  unfolding speaks_def by (intro exI [of _ "[]"]) (simp add: wire_stream_def)

lemma speaks_says:
  "length d \<le> 1048576 \<Longrightarrow> tc_written c' = tc_written c @ wire_message ty sq d \<Longrightarrow> speaks c c'"
  unfolding speaks_def by (intro exI [of _ "[(ty, sq, d)]"]) (simp add: wire_stream_def)

interpretation speaking: window_relation speaks
  by unfold_locales
    (auto intro: speaks_trans speaks_quiet speaks_says simp: on_ui_def on_chat_def)

interpretation tables: window_relation "\<lambda>c c'. windows_ok c \<longrightarrow> windows_ok c'"
  by unfold_locales (auto simp: windows_ok_def on_ui_def on_chat_def split: option.splits)

end
