(* ===== verification/Client_Transfer.thy ===== *)
theory Client_Transfer
  imports Client_Input
begin

text \<open>
  File transfers between two clients: the messages \<open>startFileSend\<close> makes of a file, and
  what \<open>handleFileData\<close> makes of them. What is needed of \<open>QFile\<close> is stated as two
  laws: a file that is being read yields its bytes in order, and one that is being
  written appends what it is given.
\<close>

section \<open>What is asked of Qt and of the listeners\<close>

text \<open>\<open>rest w\<close> are the bytes the open file has not yielded yet.\<close>

definition reads_file :: "('f, 'w) qt \<Rightarrow> 'f \<Rightarrow> ('w \<Rightarrow> bytes option) \<Rightarrow> bool" where
  "reads_file q f rest \<longleftrightarrow>
     (\<forall>w b. rest w = Some b \<longrightarrow>
        file_atEnd q f w = (b = []) \<and>
        (\<forall>n. \<exists>w'. file_read q f n w = (take n b, w') \<and> rest w' = Some (drop n b)))"

text \<open>
  \<open>out w\<close> are the bytes written since the file was opened, at whose end it stands;
  \<open>disk w\<close> is what the file holds once it is closed.
\<close>

definition writes_file :: "('f, 'w) qt \<Rightarrow> 'f \<Rightarrow> ('w \<Rightarrow> bytes option) \<Rightarrow> ('w \<Rightarrow> bytes) \<Rightarrow> bool" where
  "writes_file q f out disk \<longleftrightarrow>
     (\<forall>w b. out w = Some b \<longrightarrow>
        file_isOpen q f w \<and>
        (\<forall>d. \<exists>w'. file_write q f d w = (int (length d), w') \<and> out w' = Some (b @ d)) \<and>
        disk (file_close q f (file_flush q f w)) = b)"

text \<open>
  Listeners that keep to themselves when it is about files, like the labels and tables of
  a window, and leave the receive buffer alone in any case.
\<close>

fun about_files :: "signal \<Rightarrow> bool" where
  "about_files (SigFileOffer i n z f k) = True"
| "about_files (SigFileOfferResponse i r t) = True"
| "about_files (SigFileProgress i b z d) = True"
| "about_files (SigFileCompleted i d s t) = True"
| "about_files _ = False"

definition listens :: "('f, 'w, 'u) emitter \<Rightarrow> (signal \<Rightarrow> 'u \<Rightarrow> 'u) \<Rightarrow> bool" where
  "listens emit g \<longleftrightarrow> blind emit \<and>
     (\<forall>sg c. about_files sg \<longrightarrow> emit sg c = c\<lparr>tc_listeners := g sg (tc_listeners c)\<rparr>)"

lemma listensD:
  "listens emit g \<Longrightarrow> about_files sg \<Longrightarrow> emit sg c = c\<lparr>tc_listeners := g sg (tc_listeners c)\<rparr>"
  by (simp add: listens_def)

lemma listens_blind: "listens emit g \<Longrightarrow> blind emit"
  by (simp add: listens_def)

section \<open>Sending a file\<close>

function file_chunks :: "bytes \<Rightarrow> bytes list" where
  "file_chunks bs =
     (if bs = [] then [] else take kFileChunkSize bs # file_chunks (drop kFileChunkSize bs))"
  by pat_completeness auto
termination
  by (relation "measure length") (auto simp: kFileChunkSize_def)

declare file_chunks.simps [simp del]

lemma concat_file_chunks: "concat (file_chunks bs) = bs"
proof (induction bs rule: file_chunks.induct)
  case (1 bs)
  then show ?case by (subst file_chunks.simps) simp
qed

lemma file_chunks_bound: "d \<in> set (file_chunks bs) \<Longrightarrow> length d \<le> kFileChunkSize"
proof (induction bs rule: file_chunks.induct)
  case (1 bs)
  then show ?case by (subst (asm) file_chunks.simps) (auto split: if_splits)
qed

lemma file_chunks_nonempty: "d \<in> set (file_chunks bs) \<Longrightarrow> d \<noteq> []"
proof (induction bs rule: file_chunks.induct)
  case (1 bs)
  then show ?case by (subst (asm) file_chunks.simps) (auto split: if_splits simp: kFileChunkSize_def)
qed

text \<open>The data messages: consecutive sequence numbers, and the offset of each chunk.\<close>

fun data_messages :: "u32 \<Rightarrow> bytes \<Rightarrow> u64 \<Rightarrow> bytes list \<Rightarrow> message list" where
  "data_messages sq fileId off [] = []"
| "data_messages sq fileId off (d # ds) =
     (MSG_FILE_DATA, sq, wire_file_data fileId off d)
     # data_messages (sq + 1) fileId (off + of_nat (length d)) ds"

lemma data_messages_bound:
  "\<forall>d \<in> set ds. length d \<le> kFileChunkSize \<Longrightarrow>
   (ty, sq', b) \<in> set (data_messages sq fileId off ds) \<Longrightarrow> length b \<le> 1048576"
  by (induction ds arbitrary: sq off) (auto simp: kFileChunkSize_def)

lemma wire_stream_simps [simp]:
  "wire_stream [] = []"
  "wire_stream ((ty, sq, b) # ms) = wire_message ty sq b @ wire_stream ms"
  by (simp_all add: wire_stream_def)

lemma host_frames_simps [simp]:
  "host_frames [] = []"
  "host_frames ((ty, sq, b) # ms) = (host_header ty sq b, b) # host_frames ms"
  by (simp_all add: host_frames_def)

fun progress_signals :: "qstring \<Rightarrow> u64 \<Rightarrow> u64 \<Rightarrow> bool \<Rightarrow> bytes list \<Rightarrow> signal list" where
  "progress_signals fileId off fsize incoming [] = []"
| "progress_signals fileId off fsize incoming (d # ds) =
     SigFileProgress fileId (off + of_nat (length d)) fsize incoming
     # progress_signals fileId (off + of_nat (length d)) fsize incoming ds"

lemma file_send_loop_sends:
  assumes L: "listens emit g" and R: "reads_file q f rest"
  shows "rest (tc_world c) = Some bs \<Longrightarrow> isConnected c \<Longrightarrow>
    \<exists>c'. file_send_loop q emit fileId f session c = Some c' \<and>
      tc_written c' = tc_written c @ wire_stream (data_messages (tc_sequence c + 1)
        (toStdString q fileId) (ss_bytesSent session) (file_chunks bs)) \<and>
      map_of (tc_sendSessions c') fileId = None \<and>
      tc_listeners c' = fold g (progress_signals fileId (ss_bytesSent session) (ss_fileSize session)
        False (file_chunks bs) @ [SigFileCompleted fileId False True (qlit q ''Sent'')]) (tc_listeners c)"
proof (induction bs arbitrary: c session rule: file_chunks.induct)
  case (1 bs)
  note D = listensD [OF L]
  have law: "file_atEnd q f (tc_world c) = (bs = [])"
    "\<exists>w'. file_read q f n (tc_world c) = (take n bs, w') \<and> rest w' = Some (drop n bs)" for n
    using R "1.prems"(1) by (auto simp: reads_file_def)
  show ?case
  proof (cases "bs = []")
    case True
    then show ?thesis
      by (subst file_send_loop.simps, subst (1 2) file_chunks.simps)
        (simp add: law D Let_def close_file_def drop_send_def delete_conv')
  next
    case False
    let ?k = kFileChunkSize
    obtain w where w: "file_read q f ?k (tc_world c) = (take ?k bs, w)" "rest w = Some (drop ?k bs)"
      using law(2) by blast
    have ne: "take ?k bs \<noteq> []" using False by (simp add: kFileChunkSize_def)
    define s' where "s' = session\<lparr>ss_bytesSent := ss_bytesSent session + of_nat (length (take ?k bs))\<rparr>"
    define c1 where "c1 = sendData (packFileData (qt_endian q) (tc_sequence c + 1) (toStdString q fileId)
        (ss_bytesSent session) (take ?k bs)) (next_sequence (c\<lparr>tc_world := w\<rparr>))"
    define c2 where "c2 = c1\<lparr>tc_sendSessions := AList.update fileId s' (tc_sendSessions c1),
        tc_listeners := g (SigFileProgress fileId (ss_bytesSent s') (ss_fileSize s') False)
          (tc_listeners c1)\<rparr>"
    have step: "file_send_loop q emit fileId f session c = file_send_loop q emit fileId f s' c2"
      using False ne
      by (subst file_send_loop.simps)
        (simp add: law w D Let_def s'_def c1_def c2_def, simp add: next_sequence_def)
    have c2: "tc_world c2 = w" "isConnected c2" "tc_sequence c2 = tc_sequence c + 1"
      "tc_written c2 = tc_written c @ wire_message MSG_FILE_DATA (tc_sequence c + 1)
         (wire_file_data (toStdString q fileId) (ss_bytesSent session) (take ?k bs))"
      "tc_listeners c2 = g (SigFileProgress fileId (ss_bytesSent s') (ss_fileSize session) False)
         (tc_listeners c)"
      using "1.prems"(2)
      by (simp_all add: c2_def c1_def sendData_def next_sequence_def isConnected_def
          packFileData_wire s'_def)
    obtain c' where c': "file_send_loop q emit fileId f s' c2 = Some c'"
      "tc_written c' = tc_written c2 @ wire_stream (data_messages (tc_sequence c2 + 1)
        (toStdString q fileId) (ss_bytesSent s') (file_chunks (drop ?k bs)))"
      "map_of (tc_sendSessions c') fileId = None"
      "tc_listeners c' = fold g (progress_signals fileId (ss_bytesSent s') (ss_fileSize s')
        False (file_chunks (drop ?k bs)) @ [SigFileCompleted fileId False True (qlit q ''Sent'')])
        (tc_listeners c2)"
      using "1.IH" [OF False, of c2 s'] w(2) c2(1,2) by auto
    show ?thesis
      using False c' c2(3-)
      by (intro exI [of _ c'], subst (1 2) file_chunks.simps)
        (simp add: step, simp add: s'_def)
  qed
qed

text \<open>Opening the file first.\<close>

lemma startFileSend_sends:
  assumes L: "listens emit g" and R: "reads_file q f rest"
    and s: "map_of (tc_sendSessions c) fileId = Some session" "\<not> ss_started session"
    and o: "file_create q (ss_filePath session) (tc_world c) = (f, w)" "file_open q f ReadOnly w = (True, w')"
      "rest w' = Some bs"
    and conn: "isConnected c"
  shows "\<exists>c'. startFileSend q emit fileId c = Some c' \<and>
      tc_written c' = tc_written c @ wire_stream (data_messages (tc_sequence c + 1)
        (toStdString q fileId) 0 (file_chunks bs)) \<and>
      map_of (tc_sendSessions c') fileId = None \<and>
      tc_listeners c' = fold g (progress_signals fileId 0 (ss_fileSize session) False (file_chunks bs)
        @ [SigFileCompleted fileId False True (qlit q ''Sent'')]) (tc_listeners c)"
proof -
  define s' where "s' = session\<lparr>ss_file := Some f, ss_started := True, ss_bytesSent := 0\<rparr>"
  define c1 where "c1 = c\<lparr>tc_world := w', tc_sendSessions := AList.update fileId s'
      (AList.update fileId (session\<lparr>ss_file := Some f\<rparr>) (tc_sendSessions c))\<rparr>"
  have "startFileSend q emit fileId c = file_send_loop q emit fileId f s' c1"
    using s o by (simp add: startFileSend_def s'_def c1_def Let_def)
  moreover have "rest (tc_world c1) = Some bs" "isConnected c1"
    using o conn by (simp_all add: c1_def isConnected_def)
  ultimately show ?thesis
    using file_send_loop_sends [OF L R, of c1 bs fileId s'] by (simp add: c1_def s'_def)
qed

section \<open>Receiving it\<close>

text \<open>One chunk in its place.\<close>

definition chunk_taken ::
    "(signal \<Rightarrow> 'u \<Rightarrow> 'u) \<Rightarrow> qstring \<Rightarrow> 'f FileReceiveSession \<Rightarrow> nat \<Rightarrow> 'w \<Rightarrow>
     ('f, 'w, 'u) TcpClient \<Rightarrow> ('f, 'w, 'u) TcpClient" where
  "chunk_taken g fileId session n w c =
     c\<lparr>tc_world := w,
       tc_recvSessions := AList.update fileId
         (session\<lparr>rs_bytesReceived := rs_bytesReceived session + of_nat n\<rparr>)
         (AList.update fileId session (tc_recvSessions c)),
       tc_listeners := g (SigFileProgress fileId (rs_bytesReceived session + of_nat n)
         (rs_fileSize session) True) (tc_listeners c)\<rparr>"

definition file_done ::
    "('f, 'w) qt \<Rightarrow> (signal \<Rightarrow> 'u \<Rightarrow> 'u) \<Rightarrow> qstring \<Rightarrow> 'f \<Rightarrow> qstring \<Rightarrow>
     ('f, 'w, 'u) TcpClient \<Rightarrow> ('f, 'w, 'u) TcpClient" where
  "file_done q g fileId f path c =
     drop_recv fileId (c\<lparr>tc_world := file_close q f (file_flush q f (tc_world c)),
       tc_listeners := g (SigFileCompleted fileId True True path) (tc_listeners c)\<rparr>)"

lemma handleFileData_next:
  assumes L: "listens emit g"
    and s: "map_of (tc_recvSessions c) fileId = Some session" "rs_file session = Some f"
      "file_isOpen q f (tc_world c)"
    and o: "rs_bytesReceived session = off"
    and w: "file_write q f d (tc_world c) = (int (length d), w)"
    and d: "d \<noteq> []"
  shows "tcp_handleFileData q emit fileId off d c =
     (let c1 = chunk_taken g fileId session (length d) w c
      in if 0 < rs_fileSize session \<and> rs_fileSize session \<le> off + of_nat (length d)
         then file_done q g fileId f (rs_savePath session) c1 else c1)"
proof -
  have same: "rs_bytesReceived_update (\<lambda>_. off) session = session" using o by (cases session) simp
  have word: "word_of_int (int (length d)) = of_nat (length d)" by simp
  show ?thesis
    unfolding tcp_handleFileData_def s w option.case o
    by (simp add: same Let_def d o w s listensD [OF L] close_file_def chunk_taken_def file_done_def
        del: of_nat_less_iff)
qed

text \<open>The chunks of a file in order, up to the one that completes it.\<close>

lemma processMessage_file_data:
  assumes "length d \<le> kFileChunkSize" and "fromUtf8 q (clip 37 key) = fileId"
  shows "processMessage q emit (host_header MSG_FILE_DATA sq b) (wire_file_data key off d) c =
    Some (tcp_handleFileData q emit fileId off d c)"
proof -
  have "length d < 2 ^ 32" using assms(1) by (simp add: kFileChunkSize_def)
  then show ?thesis
    by (simp add: processMessage_def msg_type_defs host_header_def parseFileData_wire qtext_def
        assms(2))
qed

lemma handle_chunks:
  assumes L: "listens emit g" and W: "writes_file q f out disk"
    and key: "fromUtf8 q (clip 37 key) = fileId"
  shows "ds \<noteq> [] \<Longrightarrow> \<forall>d \<in> set ds. d \<noteq> [] \<and> length d \<le> kFileChunkSize \<Longrightarrow>
    map_of (tc_recvSessions c) fileId = Some s \<Longrightarrow> rs_file s = Some f \<Longrightarrow>
    out (tc_world c) = Some b \<Longrightarrow> rs_bytesReceived s = of_nat (length b) \<Longrightarrow>
    rs_fileSize s = of_nat (length (b @ concat ds)) \<Longrightarrow> length (b @ concat ds) < 2 ^ 64 \<Longrightarrow>
    \<exists>c'. handle_all q emit (host_frames (data_messages sq key (of_nat (length b)) ds)) c = Some c' \<and>
      map_of (tc_recvSessions c') fileId = None \<and> disk (tc_world c') = b @ concat ds \<and>
      tc_listeners c' = fold g (progress_signals fileId (of_nat (length b)) (rs_fileSize s) True ds
        @ [SigFileCompleted fileId True True (rs_savePath s)]) (tc_listeners c)"
proof (induction ds arbitrary: c s b sq)
  case (Cons d ds)
  define off :: u64 where "off = of_nat (length b)"
  obtain w where w: "file_write q f d (tc_world c) = (int (length d), w)" "out w = Some (b @ d)"
    and op: "file_isOpen q f (tc_world c)"
    using W Cons.prems(5) unfolding writes_file_def by metis
  have d: "d \<noteq> []" "length d \<le> kFileChunkSize" using Cons.prems(2) by simp_all
  define n where "n = length b + length d"
  define m where "m = n + length (concat ds)"
  have size: "rs_fileSize s = of_nat m" "m < 2 ^ 64" "0 < n" "n \<le> m"
    using Cons.prems(7,8) d(1) by (simp_all add: m_def n_def add.assoc)
  have off': "off + of_nat (length d) = of_nat n" by (simp add: off_def n_def)
  have nums: "unat (of_nat m :: u64) = m" "unat (of_nat n :: u64) = n"
    using size by (simp_all add: unat_of_nat)
  have pos: "0 < rs_fileSize s"
    unfolding size(1) word_less_nat_alt nums using size(3,4) by simp
  have fin: "rs_fileSize s \<le> off + of_nat (length d) \<longleftrightarrow> concat ds = []"
    unfolding off' size(1) word_le_nat_alt nums by (simp add: m_def)
  let ?c1 = "chunk_taken g fileId s (length d) w c"
  have step: "tcp_handleFileData q emit fileId off d c =
      (if concat ds = [] then file_done q g fileId f (rs_savePath s) ?c1 else ?c1)"
    using handleFileData_next [OF L Cons.prems(3,4) op _ w(1) d(1), of off] Cons.prems(6) pos
    by (simp add: fin off_def [symmetric] Let_def del: concat_eq_Nil_conv)
  note first = processMessage_file_data [OF d(2) key, of emit sq _ off c]
  show ?case
  proof (cases ds)
    case Nil
    have "disk (file_close q f (file_flush q f w)) = b @ d"
      using W w(2) unfolding writes_file_def by blast
    then show ?thesis
      using Nil step Cons.prems(6)
      by (simp add: off_def [symmetric] first file_done_def drop_recv_def chunk_taken_def delete_conv')
  next
    case (Cons d' ds')
    then have more: "concat ds \<noteq> []" "ds \<noteq> []" using Cons.prems(2) by auto
    have step': "tcp_handleFileData q emit fileId off d c = ?c1"
      using step more(1) by (simp only: if_False)
    have c1: "map_of (tc_recvSessions ?c1) fileId =
        Some (s\<lparr>rs_bytesReceived := of_nat (length (b @ d))\<rparr>)"
      "out (tc_world ?c1) = Some (b @ d)"
      "tc_listeners ?c1 = g (SigFileProgress fileId (off + of_nat (length d)) (rs_fileSize s) True)
         (tc_listeners c)"
      using w(2) Cons.prems(6) by (simp_all add: chunk_taken_def update_conv' off_def)
    obtain c' where "handle_all q emit (host_frames (data_messages (sq + 1) key
          (of_nat (length (b @ d))) ds)) ?c1 = Some c'"
      "map_of (tc_recvSessions c') fileId = None" "disk (tc_world c') = (b @ d) @ concat ds"
      "tc_listeners c' = fold g (progress_signals fileId (of_nat (length (b @ d))) (rs_fileSize s)
        True ds @ [SigFileCompleted fileId True True (rs_savePath s)]) (tc_listeners ?c1)"
      using Cons.IH [OF more(2) _ c1(1) _ c1(2), of "sq + 1"] Cons.prems by auto
    then show ?thesis
      using step' by (intro exI [of _ c']) (simp add: first [unfolded off_def] c1(3) off_def)
  qed
qed simp

end
