(* ===== verification/File_Transfer.thy ===== *)
theory File_Transfer
  imports Client_Transfer Server_Properties
begin

text \<open>
  A file from one client to another: the sender's \<open>startFileSend\<close>, the server's relay and
  the receiver's \<open>onReadyRead\<close> composed, with the bytes between them cut in any way.
\<close>

section \<open>The server passes the messages on\<close>

lemma clip_text_field: "0 < n \<Longrightarrow> clip n (text_field n s) = clip n s"
  by (metis clip_c_text clip_idem c_text_text_field)

lemma decode_file_data:
  "decode_request MSG_FILE_DATA (wire_file_data key off d) =
     Relay MSG_FILE_DATA (clip 37 key) (wire_file_data key off d)"
  by (simp add: decode_request_def msg_type_defs field_at_def wire_file_data_def layout_simps
      clip_text_field)

lemma relay_run:
  assumes "ch_files a (clip 37 key) = Some (sfd, rfd)" and "clip 37 key \<noteq> []"
  shows "spec_run clock sfd (host_frames (data_messages sq key off ds)) a =
    (a, map (\<lambda>(ty, sq, b). (rfd, sq, RelayRsp ty b)) (data_messages sq key off ds))"
  using assms by (induction ds arbitrary: sq off) (simp_all add: decode_file_data)

lemma bytes_to_relay:
  "bytes_to g (map deliver (map (\<lambda>(ty, sq, b). (rfd, sq, RelayRsp ty b)) ms)) =
     (if g = rfd then wire_stream ms else [])"
  by (induction ms) auto

lemma file_chunks_Nil_iff: "file_chunks bs = [] \<longleftrightarrow> bs = []"
  by (subst file_chunks.simps) simp

lemma data_messages_Nil_iff: "data_messages sq key off ds = [] \<longleftrightarrow> ds = []"
  by (cases ds) simp_all

lemma relay_file:
  assumes ok: "server_ok s" "alive s sfd" "buffer_of (sv_recvBuffers s) sfd = []"
    and ses: "sv_files s (clip 37 key) = Some fs" "fs_senderFd fs = sfd" "fs_receiverFd fs = rfd"
      "clip 37 key \<noteq> []"
    and data: "concat (read_chunks (os_recv (sv_os s) sfd)) =
        wire_stream (data_messages sq key off (file_chunks bs))" "bs \<noteq> []"
  shows "\<forall>g. out_grows s (client_handleRead sfd s) g
      (if g = rfd then wire_stream (data_messages sq key off (file_chunks bs)) else [])"
proof -
  let ?ms = "data_messages sq key off (file_chunks bs)"
  have ms: "?ms \<noteq> []" "\<forall>(ty, sq, b) \<in> set ?ms. length b \<le> 1048576"
    using data(2) data_messages_bound [of "file_chunks bs"] file_chunks_bound
    by (auto simp: file_chunks_Nil_iff data_messages_Nil_iff)
  have "ch_files (abs_chat s) (clip 37 key) = Some (sfd, rfd)"
    using ses by (simp add: abs_files_def)
  from client_handleRead_stream [OF ok data(1) ms] relay_run [OF this ses(4)] show ?thesis
    by (simp add: bytes_to_relay del: map_map)
qed

section \<open>The receiver takes them\<close>

lemma receive_file:
  assumes L: "listens emit g" and W: "writes_file q f out disk"
    and key: "fromUtf8 q (clip 37 key) = fileId"
    and s: "map_of (tc_recvSessions c) fileId = Some rs" "rs_file rs = Some f"
      "rs_bytesReceived rs = 0" "rs_fileSize rs = of_nat (length bs)"
    and bs: "bs \<noteq> []" "length bs < 2 ^ 64" and o: "out (tc_world c) = Some []"
    and buf: "tc_recvBuffer c = []"
    and data: "concat ds = wire_stream (data_messages sq key 0 (file_chunks bs))"
  shows "\<exists>c'. onReadyReads q emit ds c = Some c' \<and> disk (tc_world c') = bs \<and>
    map_of (tc_recvSessions c') fileId = None \<and> tc_recvBuffer c' = [] \<and>
    tc_listeners c' = fold g (progress_signals fileId 0 (rs_fileSize rs) True (file_chunks bs)
      @ [SigFileCompleted fileId True True (rs_savePath rs)]) (tc_listeners c)"
proof -
  let ?ms = "data_messages sq key 0 (file_chunks bs)"
  have ms: "?ms \<noteq> []" "\<And>ty sq b. (ty, sq, b) \<in> set ?ms \<Longrightarrow> length b \<le> 1048576"
    using bs data_messages_bound [of "file_chunks bs"] file_chunks_bound
    by (auto simp: file_chunks_Nil_iff data_messages_Nil_iff)
  then have "wire_stream ?ms \<noteq> []"
    by (cases ?ms) (auto simp: wire_message_def wire_header_def MAGIC_NUMBER_def
        dest: arg_cong [of _ _ length])
  then have ne: "ds \<noteq> []" using data by auto
  have "deframe (wire_stream ?ms @ []) = (case deframe [] of (fs, r) \<Rightarrow> (host_frames ?ms @ fs, r))"
    using ms(2) by (rule deframe_stream)
  then have df: "deframe (tc_recvBuffer c @ concat ds) = (host_frames ?ms, Some [])"
    by (simp add: buf data)
  have "\<exists>c'. handle_all q emit (host_frames (data_messages sq key (of_nat (length ([]::bytes)))
        (file_chunks bs))) c = Some c' \<and>
      map_of (tc_recvSessions c') fileId = None \<and> disk (tc_world c') = [] @ concat (file_chunks bs) \<and>
      tc_listeners c' = fold g (progress_signals fileId (of_nat (length ([]::bytes))) (rs_fileSize rs)
        True (file_chunks bs) @ [SigFileCompleted fileId True True (rs_savePath rs)]) (tc_listeners c)"
    using bs s o file_chunks_bound file_chunks_nonempty
    by (intro handle_chunks [OF L W key])
      (auto simp: file_chunks_Nil_iff concat_file_chunks)
  then obtain c' where "handle_all q emit (host_frames ?ms) c = Some c'"
    "map_of (tc_recvSessions c') fileId = None" "disk (tc_world c') = bs"
    "tc_listeners c' = fold g (progress_signals fileId 0 (rs_fileSize rs) True (file_chunks bs)
      @ [SigFileCompleted fileId True True (rs_savePath rs)]) (tc_listeners c)"
    by (auto simp: concat_file_chunks)
  then show ?thesis
    using onReadyReads_deframe [OF listens_blind [OF L] df ne, of q]
    by (intro exI [of _ "with_buffer [] c'"]) simp
qed

end
