(* ===== verification/Chat_Delivery.thy ===== *)
theory Chat_Delivery
  imports Client_Steps File_Transfer
begin

text \<open>
  From window to window: what becomes of a login and of a chat message on its way from
  one client through the server to the windows of the clients it reaches.
\<close>

section \<open>The windows do not look at the receive buffer\<close>

lemma with_buffer_more [simp]:
  "tc_clientId (with_buffer b c) = tc_clientId c" "tc_nickname (with_buffer b c) = tc_nickname c"
  "isConnected (with_buffer b c) = isConnected c" "tc_timer (with_buffer b c) = tc_timer c"
  "tc_socket_update f1 (with_buffer b c) = with_buffer b (tc_socket_update f1 c)"
  "tc_timer_update f2 (with_buffer b c) = with_buffer b (tc_timer_update f2 c)"
  "on_ui f3 (with_buffer b d) = with_buffer b (on_ui f3 d)"
  "on_chat f4 (with_buffer b d) = with_buffer b (on_chat f4 d)"
  "has_chat (with_buffer b d) = has_chat d"
  by (simp_all add: with_buffer_def isConnected_def on_ui_def on_chat_def has_chat_def)

lemma with_buffer_sends [simp]:
  "requestUserList q (with_buffer b c) = with_buffer b (requestUserList q c)"
  "sendLoginRequest q i n (with_buffer b c) = with_buffer b (sendLoginRequest q i n c)"
  "sendLogoutRequest q (with_buffer b c) = with_buffer b (sendLogoutRequest q c)"
  by (simp_all add: requestUserList_def sendLoginRequest_def sendLogoutRequest_def Let_def)

lemma with_buffer_clear [simp]:
  "clearFileSessions q (with_buffer b c) = with_buffer b (clearFileSessions q c)"
  by (simp add: clearFileSessions_def)

lemma with_buffer_slot_disconnect:
  assumes "\<And>c b. emit SigDisconnected (with_buffer b c) = with_buffer b (emit SigDisconnected c)"
  shows "disconnectFromServer q emit (with_buffer b c) = with_buffer b (disconnectFromServer q emit c)"
proof -
  define left where "left c = (let c = clearFileSessions q (c\<lparr>tc_timer := False\<rparr>)
    in if isConnected c then sendLogoutRequest q c else c)" for c :: "('a, 'b, 'c) TcpClient"
  have left: "left (with_buffer b c) = with_buffer b (left c)" by (simp add: left_def Let_def)
  have lost: "tcp_onDisconnected q emit (with_buffer b x) = with_buffer b (tcp_onDisconnected q emit x)" for x
    by (simp add: tcp_onDisconnected_def assms)
  have split: "disconnectFromServer q emit c = (if tc_socket (left c) \<noteq> UnconnectedState then
        let (st, w) = disconnectFromHost q (tc_socket (left c)) (tc_world (left c));
            c = (left c)\<lparr>tc_socket := st, tc_world := w\<rparr>
        in if st = UnconnectedState then tcp_onDisconnected q emit c else c
      else left c)" for c
    by (simp only: disconnectFromServer_def left_def Let_def)
  obtain st w where "disconnectFromHost q (tc_socket (left c)) (tc_world (left c)) = (st, w)"
    by fastforce
  then show ?thesis by (simp add: split left lost Let_def)
qed

text \<open>The slots, one by one.\<close>

lemma with_buffer_slots [simp]:
  "updateStatus q st co (with_buffer b c) = with_buffer b (updateStatus q st co c)"
  "new_ChatWindow q (with_buffer b c) = with_buffer b (new_ChatWindow q c)"
  "chat_onConnected q (with_buffer b c) = with_buffer b (chat_onConnected q c)"
  "chat_onDisconnected q (with_buffer b c) = with_buffer b (chat_onDisconnected q c)"
  "login_onConnected q (with_buffer b c) = with_buffer b (login_onConnected q c)"
  by (simp_all add: updateStatus_def new_ChatWindow_def Let_def chat_onConnected_def
      chat_onDisconnected_def login_onConnected_def)

definition blind_box :: "('f, 'w) boxes \<Rightarrow> bool" where
  "blind_box box \<longleftrightarrow> (\<forall>d c b. box d (with_buffer b c) = with_buffer b (box d c))"

lemma ui_emit_blind:
  assumes "blind_box box"
  shows "blind (ui_emit q box)"
proof -
  have box [simp]: "box d (with_buffer b c) = with_buffer b (box d c)" for d c b
    using assms by (simp add: blind_box_def)
  have error: "login_onConnectError q box e (with_buffer b c) = with_buffer b (login_onConnectError q box e c)"
    and lost: "windows_disconnected q box (with_buffer b c) = with_buffer b (windows_disconnected q box c)"
    for e b c
    by (simp_all add: login_onConnectError_def windows_disconnected_def login_onDisconnected_def Let_def)
  note disc = with_buffer_slot_disconnect [of "closing q box", unfolded closing.simps, OF lost]
  have failed: "login_onLoginResponse q box False m (with_buffer b c) =
      with_buffer b (login_onLoginResponse q box False m c)"
    and success: "login_onLoginResponse q box True m (with_buffer b c) =
      with_buffer b (login_onLoginResponse q box True m c)" for m b c
    by (simp_all add: login_onLoginResponse_def Let_def disc)
  have response: "login_onLoginResponse q box r m (with_buffer b c) =
      with_buffer b (login_onLoginResponse q box r m c)" for r m b c
    by (cases r) (simp_all add: failed success)
  have "ui_emit q box sg (with_buffer b c) = with_buffer b (ui_emit q box sg c)" for sg c b
    by (cases sg) (simp_all add: ui_emit_def Let_def error lost response)
  then show ?thesis by (simp add: blind_def)
qed

section \<open>What a window shows of a chat message\<close>

text \<open>
  The line in the specification's words: the time of day, the sender's name (or the id,
  of a sender without one), the addressee of a private message, and the text.
\<close>

definition shown_time :: "('f, 'w, 'd) gui \<Rightarrow> 'w \<Rightarrow> u64 \<Rightarrow> qstring" where
  "shown_time q w ts =
     (let d = (if ts = 0 then currentDateTime q w else fromSecsSinceEpoch q (sint ts))
      in dt_toString q (if dt_isValid q d then d else currentDateTime q w) ''HH:mm:ss'')"

definition chat_line ::
    "('f, 'w, 'd) gui \<Rightarrow> qstring \<Rightarrow> qstring \<Rightarrow> qstring option \<Rightarrow> qstring \<Rightarrow> qstring" where
  "chat_line q time sender addressee text =
     (let prefix = arg (gui_qt q) (glit q ''[%1]'') time
      in case addressee of
           None \<Rightarrow> arg3 q (glit q ''%1 %2: %3'') prefix sender text
         | Some target \<Rightarrow> arg4 q (glit q ''%1 %2 -> %3: %4'') prefix sender target text)"

definition show_message ::
    "('f, 'w, 'd) gui \<Rightarrow> qstring \<Rightarrow> qstring \<Rightarrow> qstring option \<Rightarrow> qstring \<Rightarrow> u64 \<Rightarrow> 'w \<Rightarrow>
     ChatWindow \<Rightarrow> ChatWindow" where
  "show_message q i n addressee text ts w cw =
     cw\<lparr>cw_messages := cw_messages cw @
       [chat_line q (shown_time q w ts) (if n = [] then i else n) addressee text]\<rparr>"

definition shown_addressee :: "('f, 'w, 'd) gui \<Rightarrow> qstring \<Rightarrow> qstring" where
  "shown_addressee q toId = (if toId = [] then glit q ''Private'' else toId)"

lemma onChatMessageReceived_shows:
  assumes "glit q ''Private'' \<noteq> []"
  shows "onChatMessageReceived q i n m isPrivate toId ts w cw =
    show_message q i n (if isPrivate then Some (shown_addressee q toId) else None) m ts w cw"
  using assms
  by (simp add: shown_addressee_def onChatMessageReceived_def appendMessage_def Let_def show_message_def chat_line_def
      shown_time_def)

section \<open>What the server makes of a client's requests\<close>

lemma decode_chat:
  "decode_request MSG_CHAT_MSG (wire_chat sc i n t m ts) = ChatReq sc (clip 32 t) (clip 256 m) ts"
  by (cases sc) (simp_all add: decode_request_def msg_type_defs field_at_def wire_chat_def
      layout_simps clip_text_field)

lemma decode_login:
  "decode_request MSG_LOGIN_REQ (wire_login_req i n) = LoginReq (clip 32 i) (clip 64 n)"
  by (simp add: decode_request_def msg_type_defs field_at_def wire_login_req_def layout_simps
      clip_text_field)

section \<open>Deliveries\<close>

definition recipients :: "chat \<Rightarrow> int \<Rightarrow> ChatScope \<Rightarrow> bytes \<Rightarrow> int list" where
  "recipients a fd scope toId =
     (case scope of
        CHAT_GROUP \<Rightarrow> filter (\<lambda>g. g \<noteq> fd) (online a)
      | CHAT_PRIVATE \<Rightarrow>
          if toId = [] then [] else (case holder a toId of None \<Rightarrow> [] | Some g \<Rightarrow> [g]))"

lemma spec_chat:
  "ch_users a fd = Some (i, n) \<Longrightarrow>
   spec_step clock fd sq (ChatReq scope t m ts) a =
     (a, map (\<lambda>g. (g, sq, ChatRsp scope i n t m (if ts = 0 then clock else ts))) (recipients a fd scope t))"
  by (cases scope) (simp_all add: recipients_def Let_def split: option.split)

lemma distinct_recipients: "distinct (recipients a fd scope t)"
  by (simp add: recipients_def distinct_online split: ChatScope.split option.split)

lemma bytes_to_all:
  "distinct hs \<Longrightarrow> bytes_to g (map deliver (map (\<lambda>h. (h, sq, r)) hs)) =
     (if g \<in> set hs then encode (sq, r) else [])"
  by (induction hs) auto

text \<open>One message read by the server.\<close>

lemma server_reads_one:
  assumes "server_ok s" and "alive s fd" and "buffer_of (sv_recvBuffers s) fd = []"
    and "concat (read_chunks (os_recv (sv_os s) fd)) = wire_message ty sq b" and "length b \<le> 1048576"
    and "spec_step (os_epoch (sv_os s)) fd sq (decode_request ty b) (abs_chat s) = (a', outs)"
  shows "server_ok (client_handleRead fd s)" and "abs_chat (client_handleRead fd s) = a'"
    and "out_grows s (client_handleRead fd s) g (bytes_to g (map deliver outs))"
  using client_handleRead_stream [OF assms(1-3), of "[(ty, sq, b)]"] assms(4-6) by simp_all

text \<open>Messages read by a client's window.\<close>

lemma client_reads:
  assumes "blind_box box" and "tc_recvBuffer c = []" and "ms \<noteq> []"
    and "concat ds = wire_stream ms" and "\<And>ty sq b. (ty, sq, b) \<in> set ms \<Longrightarrow> length b \<le> 1048576"
  shows "onReadyReads (gui_qt q) (ui_emit q box) ds c =
    map_option (with_buffer []) (handle_all (gui_qt q) (ui_emit q box) (host_frames ms) c)"
proof -
  have "wire_stream ms \<noteq> []"
    using assms(3) by (cases ms) (auto simp: wire_message_def wire_header_def MAGIC_NUMBER_def
        dest: arg_cong [of _ _ length])
  then have ne: "ds \<noteq> []" using assms(4) by auto
  have "deframe (wire_stream ms @ []) = (case deframe [] of (fs, r) \<Rightarrow> (host_frames ms @ fs, r))"
    using assms(5) by (rule deframe_stream)
  then have "deframe (tc_recvBuffer c @ concat ds) = (host_frames ms, Some [])"
    using assms(2,4) by simp
  from onReadyReads_deframe [OF ui_emit_blind [OF assms(1)] this ne] show ?thesis .
qed

lemma processMessage_chat:
  "processMessage q emit (host_header MSG_CHAT_MSG sq b) (wire_chat sc i n t m ts) c =
     Some (emit (SigChatMessage (fromUtf8 q (clip 32 i)) (fromUtf8 q (clip 64 n))
       (fromUtf8 q (clip 256 m)) (sc = CHAT_PRIVATE) (fromUtf8 q (clip 32 t)) ts) c)"
  using parseChatMessage_wire [of "qt_endian q" sc i n t m ts "[]"]
  by (cases sc) (simp_all add: processMessage_def msg_type_defs host_header_def client_parse_eq qtext_def)

lemma sent_chat:
  "isConnected c \<Longrightarrow> tc_written (sendChatMessage q scope toId text c) = tc_written c @
     wire_message MSG_CHAT_MSG (tc_sequence c + 1) (wire_chat scope (toStdString q (tc_clientId c))
       (toStdString q (tc_nickname c)) (toStdString q toId) (toStdString q text)
       (currentSecs q (tc_world c)))"
  by (simp add: sendChatMessage_def Let_def client_pack_eq packChatMessage_wire sendData_def
      next_sequence_def isConnected_def)

lemma registered_clipped:
  assumes "server_ok s" and "ch_users (abs_chat s) fd = Some (i, n)"
  shows "clip 32 i = i" and "clip 64 n = n"
  using assms server_okD(5) [OF assms(1)]
  by (auto simp: abs_users_def registry_ok_def entry_ok_def split: option.splits if_splits dest!: map_of_SomeD)

section \<open>Logging in\<close>

lemma connected_writes:
  assumes "\<not> has_chat c"
  shows "tc_written (tcp_onConnected (ui_emit q box) (c\<lparr>tc_socket := ConnectedState\<rparr>)) = tc_written c @
      wire_message MSG_LOGIN_REQ 1 (wire_login_req (toStdString (gui_qt q) (tc_clientId c))
        (toStdString (gui_qt q) (tc_nickname c)))"
    and "tc_recvBuffer (tcp_onConnected (ui_emit q box) (c\<lparr>tc_socket := ConnectedState\<rparr>)) = []"
  using assms
  by (simp_all add: tcp_onConnected_def ui_emit_def Let_def login_onConnected_def updateStatus_def
      on_ui_def has_chat_def sendLoginRequest_def next_sequence_def sendData_def isConnected_def
      packLoginRequest_wire)

lemma processMessage_login:
  "processMessage q emit (host_header MSG_LOGIN_RSP sq b) (wire_login_rsp r m) c =
     Some (emit (SigLoginResponse (r = LOGIN_SUCCESS) (fromUtf8 q (clip 128 m))) c)"
  by (simp add: processMessage_def msg_type_defs host_header_def parseLoginResponse_wire qtext_def)

lemma processMessage_users:
  "length us < 2 ^ 32 \<Longrightarrow>
   processMessage q emit (host_header MSG_USER_LIST_RSP sq b) (wire_user_list us) c =
     Some (emit SigUserListUpdated (c\<lparr>tc_userList := map user_entry us\<rparr>))"
  by (simp add: processMessage_def msg_type_defs host_header_def parseUserListResponse_wire)

text \<open>The ids the combo box offers, besides the group.\<close>

definition listed :: "('f, 'w, 'd) gui \<Rightarrow> qstring \<Rightarrow> (bytes \<times> bytes) list \<Rightarrow> qstring list" where
  "listed q self us = filter (\<lambda>i. \<not> (self \<noteq> [] \<and> i = self)) (map (\<lambda>u. fromUtf8 (gui_qt q) (fst u)) us)"

lemma filter_map_snd: "map snd (filter (\<lambda>(l, i). P i) (map (\<lambda>u. (f u, g u)) us)) = filter P (map g us)"
  by (induction us) simp_all

lemma updateUserList_targets:
  assumes "\<forall>u \<in> set us. clip 32 (fst u) = fst u"
  shows "map snd (cw_targets (updateUserList q (map user_entry us) self cw)) = [] # listed q self us"
proof -
  have "qtext (gui_qt q) (ui_clientId (user_entry u)) = fromUtf8 (gui_qt q) (fst u)" if "u \<in> set us" for u
    using assms that by (simp add: qtext_def user_entry_def)
  then have eq: "map (\<lambda>u. qtext (gui_qt q) (ui_clientId (user_entry u))) us =
      map (\<lambda>u. fromUtf8 (gui_qt q) (fst u)) us"
    by simp
  show ?thesis
    by (simp add: updateUserList_def Let_def set_targets_def group_item_def listed_def comp_def
        filter_map_snd eq split: prod.split)
qed

lemma updateUserList_visible [simp]: "cw_visible (updateUserList q us self cw) = cw_visible cw"
  by (simp add: updateUserList_def Let_def set_targets_def split: prod.split)

lemma requestUserList_listeners [simp]: "tc_listeners (requestUserList q c) = tc_listeners c"
  by (simp add: requestUserList_def sendData_def next_sequence_def Let_def)

lemma new_ChatWindow_window:
  "\<exists>cw. lw_chatWindow (tc_listeners (new_ChatWindow q c)) = Some cw"
  by (simp add: new_ChatWindow_def on_ui_def Let_def)

lemma login_shows_chat:
  "\<exists>cw. lw_chatWindow (tc_listeners (ui_emit q box (SigLoginResponse True m) c)) = Some cw \<and>
     cw_visible cw \<and> \<not> lw_visible (tc_listeners (ui_emit q box (SigLoginResponse True m) c))"
proof -
  define d where "d = box (Information (glit q ''Login'')
      (arg (gui_qt q) (glit q (''Login successful.'' @ [CHR 0x0A] @ ''%1'')) m))
    (updateStatus q ''Login successful'' (QColor 0 200 0) c)"
  define e where "e = (if lw_chatWindow (tc_listeners d) = None then new_ChatWindow q d else d)"
  have "\<exists>cw. lw_chatWindow (tc_listeners e) = Some cw"
    using new_ChatWindow_window [of q d] by (auto simp: e_def)
  moreover have "ui_emit q box (SigLoginResponse True m) c =
      on_ui (\<lambda>u. u\<lparr>lw_visible := False\<rparr>) (on_chat (\<lambda>cw. cw\<lparr>cw_visible := True\<rparr>) e)"
    unfolding d_def e_def by (simp add: ui_emit_def login_onLoginResponse_def Let_def)
  ultimately show ?thesis by (auto simp: on_chat_def on_ui_def)
qed

text \<open>What the windows are after a successful login and the list that follows it.\<close>

lemma login_success_windows:
  assumes "\<forall>u \<in> set us. clip 32 (fst u) = fst u" and "length us < 2 ^ 32"
  shows "\<exists>c' cw. handle_all (gui_qt q) (ui_emit q box)
        (host_frames [(MSG_LOGIN_RSP, 1, wire_login_rsp LOGIN_SUCCESS m), (MSG_USER_LIST_RSP, 0, wire_user_list us)]) c =
      Some c' \<and>
    lw_chatWindow (tc_listeners c') = Some cw \<and> cw_visible cw \<and> \<not> lw_visible (tc_listeners c') \<and>
    map snd (cw_targets cw) = [] # listed q (tc_clientId c') us"
proof -
  define c1 where "c1 = ui_emit q box (SigLoginResponse True (fromUtf8 (gui_qt q) (clip 128 m))) c"
  obtain cw where cw: "lw_chatWindow (tc_listeners c1) = Some cw" "cw_visible cw"
    "\<not> lw_visible (tc_listeners c1)"
    using login_shows_chat [of q box "fromUtf8 (gui_qt q) (clip 128 m)" c] unfolding c1_def by blast
  define c2 where "c2 = ui_emit q box SigUserListUpdated (c1\<lparr>tc_userList := map user_entry us\<rparr>)"
  have h: "handle_all (gui_qt q) (ui_emit q box) (host_frames [(MSG_LOGIN_RSP, 1, wire_login_rsp LOGIN_SUCCESS m),
      (MSG_USER_LIST_RSP, 0, wire_user_list us)]) c = Some c2"
    by (simp add: processMessage_login processMessage_users [OF assms(2)] c1_def c2_def)
  have "lw_chatWindow (tc_listeners c2) = Some (updateUserList q (map user_entry us) (tc_clientId c1) cw)"
    "lw_visible (tc_listeners c2) = lw_visible (tc_listeners c1)" "tc_clientId c2 = tc_clientId c1"
    using cw by (simp_all add: c2_def ui_emit_def on_chat_def on_ui_def)
  then show ?thesis
    using h cw updateUserList_targets [OF assms(1)] by (intro exI [of _ c2]) simp
qed

text \<open>
  And after a refused one; \<open>idle_box\<close> is what is asked of the dialogs: no session is opened
  while one of them is shown.
\<close>

definition idle_box :: "('f, 'w) boxes \<Rightarrow> bool" where
  "idle_box box \<longleftrightarrow>
     (\<forall>d c. tc_timer (box d c) = tc_timer c \<and> tc_sendSessions (box d c) = tc_sendSessions c \<and>
        tc_recvSessions (box d c) = tc_recvSessions c)"

lemma windows_disconnected_idle:
  assumes "idle_box box"
  shows "tc_timer (windows_disconnected q box c) = tc_timer c"
    "tc_sendSessions (windows_disconnected q box c) = tc_sendSessions c"
    "tc_recvSessions (windows_disconnected q box c) = tc_recvSessions c"
  using assms
  by (simp_all add: windows_disconnected_def login_onDisconnected_def chat_onDisconnected_def updateStatus_def
      on_chat_def on_ui_def Let_def idle_box_def)

lemma disconnected_idle:
  assumes "idle_box box"
  shows "\<not> tc_timer (disconnectFromServer q' (closing q box) c)"
    "tc_sendSessions (disconnectFromServer q' (closing q box) c) = []"
    "tc_recvSessions (disconnectFromServer q' (closing q box) c) = []"
  by (auto simp: disconnectFromServer_def tcp_onDisconnected_def Let_def clearFileSessions_def sendLogoutRequest_def
      sendData_def next_sequence_def isConnected_def windows_disconnected_idle [OF assms] split: prod.split)

lemma login_failure_windows:
  assumes "r \<noteq> LOGIN_SUCCESS" and "idle_box box"
  shows "\<exists>c'. handle_all (gui_qt q) (ui_emit q box) (host_frames [(MSG_LOGIN_RSP, 1, wire_login_rsp r m)]) c =
      Some c' \<and> lw_connectEnabled (tc_listeners c') \<and> \<not> tc_timer c' \<and> tc_sendSessions c' = [] \<and>
    tc_recvSessions c' = []"
  using assms(1)
  by (simp add: processMessage_login ui_emit_def login_onLoginResponse_def Let_def on_ui_def
      disconnected_idle [OF assms(2)])

end
