(* ===== verification/Offer_Delivery.thy ===== *)
theory Offer_Delivery
  imports Chat_Delivery
begin

text \<open>
  The negotiation of a file transfer: what becomes of an offer and of its answer on the way
  from one client through the server to the other, up to the file that is sent.
\<close>

section \<open>The windows as listeners\<close>

text \<open>What the connected slots do with the signals about files.\<close>

fun file_slot :: "('f, 'w, 'd) gui \<Rightarrow> signal \<Rightarrow> ChatWindow \<Rightarrow> ChatWindow" where
  "file_slot q (SigFileOffer i n z f k) = onFileOfferReceived q i n z f k"
| "file_slot q (SigFileOfferResponse i r t) = onFileOfferResponseReceived q i r t"
| "file_slot q (SigFileProgress i b z d) = onFileTransferProgress q i b z d"
| "file_slot q (SigFileCompleted i d s t) = onFileTransferCompleted q i d s t"
| "file_slot q _ = id"

definition file_slots :: "('f, 'w, 'd) gui \<Rightarrow> signal \<Rightarrow> ui \<Rightarrow> ui" where
  "file_slots q sg u = u\<lparr>lw_chatWindow := map_option (file_slot q sg) (lw_chatWindow u)\<rparr>"

lemma windows_listen:
  assumes "blind_box box"
  shows "listens (ui_emit q box) (file_slots q)"
proof -
  have "ui_emit q box sg c = c\<lparr>tc_listeners := file_slots q sg (tc_listeners c)\<rparr>"
    if "about_files sg" for sg c
    using that by (cases sg) (simp_all add: ui_emit_def on_chat_def on_ui_def file_slots_def)
  then show ?thesis using ui_emit_blind [OF assms] by (simp add: listens_def)
qed

section \<open>Offers and answers on the wire\<close>

lemma decode_offer:
  "decode_request MSG_FILE_OFFER (wire_offer f nm sz i n t) =
     OfferReq (clip 37 f) (clip 256 nm) sz (clip 32 t)"
  by (simp add: decode_request_def msg_type_defs field_at_def wire_offer_def layout_simps
      clip_text_field)

lemma decode_answer:
  "decode_request MSG_FILE_OFFER_RSP (wire_offer_rsp f r m) = OfferAnswer (clip 37 f) r (clip 64 m)"
  by (simp add: decode_request_def msg_type_defs field_at_def wire_offer_rsp_def layout_simps
      clip_text_field)

lemma processMessage_offer:
  "processMessage q emit (host_header MSG_FILE_OFFER sq b) (wire_offer f nm sz i n t) c =
     Some (emit (SigFileOffer (fromUtf8 q (clip 37 f)) (fromUtf8 q (clip 256 nm)) sz
         (fromUtf8 q (clip 32 i)) (fromUtf8 q (clip 64 n)))
       (c\<lparr>tc_pendingOffers := AList.update (fromUtf8 q (clip 37 f))
          \<lparr>po_fileId = fromUtf8 q (clip 37 f), po_fileName = fromUtf8 q (clip 256 nm),
            po_fileSize = sz, po_fromId = fromUtf8 q (clip 32 i), po_fromNick = fromUtf8 q (clip 64 n)\<rparr>
          (tc_pendingOffers c)\<rparr>))"
  using parseFileOffer_wire [of "qt_endian q" f nm sz i n t "[]"]
  by (simp add: processMessage_def msg_type_defs host_header_def client_parse_eq qtext_def Let_def)

lemma processMessage_answer:
  "processMessage q emit (host_header MSG_FILE_OFFER_RSP sq b) (wire_offer_rsp f r m) c =
     (let fileId = fromUtf8 q (clip 37 f); text = fromUtf8 q (clip 64 m);
          c' = emit (SigFileOfferResponse fileId r text) c
      in if r = FILE_OFFER_ACCEPT then startFileSend q emit fileId c'
         else if map_of (tc_sendSessions c') fileId \<noteq> None then
           Some (drop_send fileId (emit (SigFileCompleted fileId False False text) c'))
         else Some c')"
  using parseFileOfferResponse_wire [of "qt_endian q" f r m "[]"]
  by (simp add: processMessage_def msg_type_defs host_header_def client_parse_eq qtext_def Let_def)

text \<open>One message, cut in any way, for any listeners.\<close>

lemma client_reads_one:
  assumes "blind emit" and "tc_recvBuffer c = []" and "concat ds = wire_message ty sq b"
    and "length b \<le> 1048576"
  shows "onReadyReads q emit ds c =
    map_option (with_buffer []) (processMessage q emit (host_header ty sq b) b c)"
proof -
  have "wire_message ty sq b \<noteq> []"
    by (auto simp: wire_message_def wire_header_def MAGIC_NUMBER_def dest: arg_cong [of _ _ length])
  then have ne: "ds \<noteq> []" using assms(3) by auto
  have "deframe (wire_message ty sq b @ []) =
      (case deframe [] of (fs, r) \<Rightarrow> ((host_header ty sq b, b) # fs, r))"
    using assms(4) by (rule deframe_message)
  then have "deframe (tc_recvBuffer c @ concat ds) = ([(host_header ty sq b, b)], Some [])"
    using assms(2,3) by simp
  from onReadyReads_deframe [OF assms(1) this ne] show ?thesis
    by (cases "processMessage q emit (host_header ty sq b) b c") simp_all
qed

section \<open>The client's side of an offer\<close>

lemma sent_offer:
  assumes "isConnected c" and "info_exists q path (tc_world c)" and "info_isFile q path (tc_world c)"
  shows "tc_written (sendFileOffer q emit fileId path name fsize toId c) = tc_written c @
      wire_message MSG_FILE_OFFER (tc_sequence c + 1) (wire_offer (toStdString q fileId)
        (toStdString q name) fsize (toStdString q (tc_clientId c)) (toStdString q (tc_nickname c))
        (toStdString q toId))"
    and "map_of (tc_sendSessions (sendFileOffer q emit fileId path name fsize toId c)) fileId =
      Some \<lparr>ss_fileId = fileId, ss_filePath = path, ss_fileName = name, ss_fileSize = fsize,
        ss_toId = toId, ss_bytesSent = 0, ss_started = False, ss_file = None\<rparr>"
  using assms
  by (simp_all add: sendFileOffer_def Let_def client_pack_eq packFileOffer_wire sendData_def
      next_sequence_def isConnected_def update_conv')

lemma answered:
  assumes "isConnected c"
  shows "tc_written (answer_offer q fileId r m c) = tc_written c @
      wire_message MSG_FILE_OFFER_RSP (tc_sequence c + 1)
        (wire_offer_rsp (toStdString q fileId) r (toStdString q m))"
    and "tc_recvSessions (answer_offer q fileId r m c) = tc_recvSessions c"
    and "tc_world (answer_offer q fileId r m c) = tc_world c"
  using assms
  by (simp_all add: answer_offer_def Let_def client_pack_eq packFileOfferResponse_wire sendData_def
      next_sequence_def isConnected_def)

lemma accepted:
  assumes "isConnected c" and "map_of (tc_pendingOffers c) fileId = Some offer"
    and "buildDownloadPath q (po_fileName offer) (tc_world c) = Some (path, w)"
    and "file_create q path w = (f, w1)" and "file_open q f WriteOnly w1 = (True, w2)"
  shows "\<exists>c'. sendFileOfferResponse q emit fileId FILE_OFFER_ACCEPT m c = Some c' \<and>
      tc_written c' = tc_written c @ wire_message MSG_FILE_OFFER_RSP (tc_sequence c + 1)
        (wire_offer_rsp (toStdString q fileId) FILE_OFFER_ACCEPT (toStdString q m)) \<and>
      map_of (tc_recvSessions c') fileId =
        Some \<lparr>rs_fileId = po_fileId offer, rs_fileName = po_fileName offer,
          rs_fileSize = po_fileSize offer, rs_bytesReceived = 0, rs_savePath = path, rs_file = Some f\<rparr> \<and>
      tc_world c' = w2 \<and> tc_listeners c' = tc_listeners c"
proof -
  let ?s = "\<lparr>rs_fileId = po_fileId offer, rs_fileName = po_fileName offer,
      rs_fileSize = po_fileSize offer, rs_bytesReceived = 0, rs_savePath = path, rs_file = Some f\<rparr>"
  let ?c = "c\<lparr>tc_world := w2, tc_recvSessions := AList.update fileId ?s (tc_recvSessions c)\<rparr>"
  have conn: "isConnected ?c" using assms(1) by (simp add: isConnected_def)
  have "sendFileOfferResponse q emit fileId FILE_OFFER_ACCEPT m c =
      Some (answer_offer q fileId FILE_OFFER_ACCEPT m ?c)"
    using assms(2-5) by (simp add: sendFileOfferResponse_def Let_def)
  moreover have "tc_listeners (answer_offer q fileId FILE_OFFER_ACCEPT m ?c) = tc_listeners c"
    by (simp add: answer_offer_def Let_def sendData_def next_sequence_def)
  ultimately show ?thesis by (simp add: answered [OF conn] update_conv')
qed

end
