(* ===== verification/Client_Demo.thy ===== *)
theory Client_Demo
  imports Client_Transfer
begin

text \<open>
  A small instance of Qt for the witnesses: texts are widened byte by byte, and the
  world is a directory of files with what is left to read, or was written, of the open
  ones. It satisfies the two laws of files.
\<close>

section \<open>A world of files\<close>

record demo_world =
  dw_files :: "qstring \<rightharpoonup> bytes"
  dw_reading :: "qstring \<rightharpoonup> bytes"
  dw_writing :: "qstring \<rightharpoonup> bytes"

definition demo_qt :: "(qstring, demo_world) qt" where
  "demo_qt = \<lparr>
     qt_endian = Little,
     fromUtf8 = map ucast, toStdString = map ucast, trimmed = id,
     arg = (\<lambda>a b. a @ b), argInt = (\<lambda>a n. a @ replicate (nat n) 49),
     currentSecs = (\<lambda>_. 1000),
     connectToHost = (\<lambda>_ _ st w. (ConnectingState, w)),
     disconnectFromHost = (\<lambda>st w. (ClosingState, w)),
     errorString = (\<lambda>_. []),
     info_exists = (\<lambda>p w. dw_files w p \<noteq> None), info_isFile = (\<lambda>p w. dw_files w p \<noteq> None),
     info_completeBaseName = id, info_suffix = (\<lambda>_. []),
     downloadLocation = (\<lambda>_. [47]), currentFilePath = (\<lambda>p _. p),
     dir_exists = (\<lambda>_ _. True), dir_mkpath = (\<lambda>_ w. w), dir_filePath = (\<lambda>d n. d @ n),
     file_exists = (\<lambda>p w. dw_files w p \<noteq> None),
     file_create = (\<lambda>p w. (p, w)),
     file_open = (\<lambda>p mode w.
       if mode = WriteOnly then
         (True, w\<lparr>dw_files := (dw_files w)(p \<mapsto> []), dw_writing := (dw_writing w)(p \<mapsto> [])\<rparr>)
       else (case dw_files w p of
          None \<Rightarrow> (False, w)
        | Some b \<Rightarrow> (True, w\<lparr>dw_reading := (dw_reading w)(p \<mapsto> b)\<rparr>))),
     file_isOpen = (\<lambda>p w. dw_reading w p \<noteq> None \<or> dw_writing w p \<noteq> None),
     file_atEnd = (\<lambda>p w. case dw_reading w p of None \<Rightarrow> True | Some b \<Rightarrow> b = []),
     file_read = (\<lambda>p n w. case dw_reading w p of
          None \<Rightarrow> ([], w)
        | Some b \<Rightarrow> (take n b, w\<lparr>dw_reading := (dw_reading w)(p \<mapsto> drop n b)\<rparr>)),
     file_write = (\<lambda>p d w. case dw_writing w p of
          None \<Rightarrow> (-1, w)
        | Some b \<Rightarrow> (int (length d), w\<lparr>dw_writing := (dw_writing w)(p \<mapsto> b @ d)\<rparr>)),
     file_seek = (\<lambda>p n w. (dw_writing w p \<noteq> None,
        w\<lparr>dw_writing := (dw_writing w)(p := map_option (\<lambda>b. take (nat n) b @ zeros (nat n - length b))
          (dw_writing w p))\<rparr>)),
     file_flush = (\<lambda>_ w. w),
     file_close = (\<lambda>p w.
       w\<lparr>dw_files := (case dw_writing w p of None \<Rightarrow> dw_files w | Some b \<Rightarrow> (dw_files w)(p \<mapsto> b)),
         dw_reading := (dw_reading w)(p := None), dw_writing := (dw_writing w)(p := None)\<rparr>)\<rparr>"

lemma demo_qt_simps [simp]:
  "qt_endian demo_qt = Little" "fromUtf8 demo_qt = map ucast" "toStdString demo_qt = map ucast"
  "currentSecs demo_qt v = 1000" "file_create demo_qt = Pair" "dir_filePath demo_qt d n = d @ n" "downloadLocation demo_qt w = [47]"
  "trimmed demo_qt = id" "dir_exists demo_qt d w"
  "file_exists demo_qt p w = (dw_files w p \<noteq> None)"
  "argInt demo_qt a i = a @ replicate (nat i) 49" "arg demo_qt a b = a @ b"
  "info_suffix demo_qt p = []" "info_completeBaseName demo_qt p = p"
  "file_isOpen demo_qt p w = (dw_reading w p \<noteq> None \<or> dw_writing w p \<noteq> None)"
  by (simp_all add: demo_qt_def fun_eq_iff)

lemma demo_reads: "reads_file demo_qt p (\<lambda>w. dw_reading w p)"
  by (simp add: reads_file_def demo_qt_def)

lemma demo_writes: "writes_file demo_qt p (\<lambda>w. dw_writing w p) (\<lambda>w. the (dw_files w p))"
  by (simp add: writes_file_def demo_qt_def)

text \<open>Listeners that write the signals down.\<close>

definition demo_log :: "signal \<Rightarrow> signal list \<Rightarrow> signal list" where
  "demo_log sg log = log @ [sg]"

definition demo_emit :: "('f, 'w, signal list) emitter" where
  "demo_emit sg c = c\<lparr>tc_listeners := demo_log sg (tc_listeners c)\<rparr>"

lemma demo_listens: "listens demo_emit demo_log"
  by (simp add: listens_def demo_emit_def blind_def with_buffer_def)

lemma fold_demo_log: "fold demo_log sgs log = log @ sgs"
  by (induction sgs arbitrary: log) (simp_all add: demo_log_def)

section \<open>Two clients with a file between them\<close>

definition demo_file :: bytes where "demo_file = [104, 105, 33]"

definition demo_sender :: "(qstring, demo_world, signal list) TcpClient" where
  "demo_sender = (TcpClient \<lparr>dw_files = [[97] \<mapsto> demo_file], dw_reading = (\<lambda>_. None),
       dw_writing = (\<lambda>_. None)\<rparr> [])
     \<lparr>tc_socket := ConnectedState,
      tc_sendSessions := [([70], \<lparr>ss_fileId = [70], ss_filePath = [97], ss_fileName = [97],
        ss_fileSize = 3, ss_toId = [66], ss_bytesSent = 0, ss_started = False, ss_file = None\<rparr>)]\<rparr>"

definition demo_receiver :: "(qstring, demo_world, signal list) TcpClient" where
  "demo_receiver = (TcpClient \<lparr>dw_files = [[98] \<mapsto> []], dw_reading = (\<lambda>_. None),
       dw_writing = [[98] \<mapsto> []]\<rparr> [])
     \<lparr>tc_socket := ConnectedState,
      tc_recvSessions := [([70], \<lparr>rs_fileId = [70], rs_fileName = [97], rs_fileSize = 3,
        rs_bytesReceived = 0, rs_savePath = [98], rs_file = Some [98]\<rparr>)]\<rparr>"

end
