(* ===== verification/Window_Properties.thy ===== *)
theory Window_Properties
  imports Offer_Delivery Client_Demo
begin

text \<open>
  The properties of the client as an application: what it writes over any run, its
  windows, and the ways of a login and of a chat message from window to window.
\<close>

section \<open>A client for the witnesses\<close>

definition demo_gui :: "(qstring, demo_world, int) gui" where
  "demo_gui = \<lparr>gui_qt = demo_qt, numberF = (\<lambda>v p. replicate (nat \<lfloor>v\<rfloor>) 48), arg2 = (\<lambda>f a b. a @ b),
     arg3 = (\<lambda>f a b c. a @ b @ c), arg4 = (\<lambda>f a b c d. a @ b @ c @ d), toInt = (\<lambda>_. Some 8888),
     currentDateTime = (\<lambda>_. 0), fromSecsSinceEpoch = id, dt_isValid = (\<lambda>_. True),
     dt_toString = (\<lambda>_ _. []), bounded = (\<lambda>a b w. (a, w)), createUuid = (\<lambda>w. ([70], w)),
     info_fileName = id, info_size = (\<lambda>_ _. 3), combo_current = (\<lambda>items. (snd (hd items), fst (hd items))),
     here_exists = (\<lambda>_ _. True), here_mkdir = (\<lambda>_ w. w)\<rparr>"

definition demo_box :: "('f, 'w) boxes" where
  "demo_box d c = c"

definition demo_pick :: "('f, 'w) client \<Rightarrow> qstring \<times> ('f, 'w) client" where
  "demo_pick c = ([97], c)"

lemma demo_gui_qt [simp]: "gui_qt demo_gui = demo_qt"
  by (simp add: demo_gui_def)

lemma demo_box_blind: "blind_box demo_box"
  by (simp add: blind_box_def demo_box_def)

lemma demo_box_idle: "idle_box demo_box"
  by (simp add: idle_box_def demo_box_def)

lemma demo_bounded: "bounded_reads (gui_qt demo_gui)"
  by (simp add: bounded_reads_def demo_gui_def demo_qt_def split: option.split)

definition demo_world0 :: demo_world where
  "demo_world0 = \<lparr>dw_files = (\<lambda>_. None), dw_reading = (\<lambda>_. None), dw_writing = (\<lambda>_. None)\<rparr>"

definition demo_app :: "(qstring, demo_world) client" where
  "demo_app = (new_LoginWindow demo_gui [] demo_world0)\<lparr>tc_clientId := [67], tc_nickname := [67]\<rparr>"

section \<open>Runs of the application\<close>

text \<open>
  C13: whatever the user, the connection and the dialogs do, all the client ever writes are
  whole messages that the server's parser accepts one by one; no header it sends is
  invalid.
\<close>

theorem client_speaks_protocol:
  assumes "\<forall>d c. speaks c (box d c)" and "\<forall>c. speaks c (snd (pick c))" and "bounded_reads (gui_qt q)"
    and "client_run q box pick es c = Some c'"
  shows "\<exists>ms. tc_written c' = tc_written c @ wire_stream ms \<and>
    deframe (wire_stream ms) = (host_frames ms, Some [])"
proof -
  have "speaks c c'"
    using speaking.client_run_R [where box = box and pick = pick] assms by blast
  then obtain ms where ms: "tc_written c' = tc_written c @ wire_stream ms"
    "\<forall>(ty, sq, b) \<in> set ms. length b \<le> 1048576"
    unfolding speaks_def by blast
  have "deframe (wire_stream ms @ []) = (case deframe [] of (fs, r) \<Rightarrow> (host_frames ms @ fs, r))"
    using ms(2) by (intro deframe_stream) auto
  then show ?thesis using ms(1) by auto
qed

lemma demo_app_fields:
  "tc_written demo_app = []" "\<not> has_chat demo_app" "tc_clientId demo_app = [67]"
  "tc_nickname demo_app = [67]"
  by (simp_all add: demo_app_def new_LoginWindow_def login_setupUI_def on_ui_def updateStatus_def TcpClient_def
      has_chat_def loadConfig_def split: prod.split)

theorem client_speaks_protocol_witness:
  "\<exists>c ms. client_run demo_gui demo_box demo_pick [SocketConnected] demo_app = Some c \<and>
     tc_written c = wire_message MSG_LOGIN_REQ 1 (wire_login_req [67] [67]) \<and>
     tc_written c = wire_stream ms \<and> deframe (tc_written c) = (host_frames ms, Some [])"
proof -
  have sp: "\<forall>d c. speaks c (demo_box d c)" "\<forall>c. speaks c (snd (demo_pick c))"
    by (simp_all add: demo_box_def demo_pick_def speaks_quiet)
  show ?thesis
    using client_speaks_protocol [OF sp demo_bounded, of "[SocketConnected]" demo_app] demo_app_fields
      connected_writes(1) [OF demo_app_fields(2), of demo_gui demo_box]
    by auto
qed

text \<open>
  C15: the table of transfers stays consistent over any run: every row has a status and is
  found under its file id, and every file id the window knows leads to its row.
\<close>

theorem transfer_table_consistent:
  assumes "\<forall>d c. windows_ok c \<longrightarrow> windows_ok (box d c)"
    and "\<forall>c. windows_ok c \<longrightarrow> windows_ok (snd (pick c))" and "bounded_reads (gui_qt q)"
    and "client_run q box pick es (new_LoginWindow q settings w) = Some c"
    and "lw_chatWindow (tc_listeners c) = Some cw"
  shows "(\<forall>k i. map_of (cw_transferRows cw) k = Some i \<longleftrightarrow>
      i < length (cw_table cw) \<and> tr_fileId (cw_table cw ! i) = k) \<and>
    (\<forall>r \<in> set (cw_table cw). tr_status r \<noteq> None)"
proof -
  have "windows_ok (new_LoginWindow q settings w)"
    by (simp add: new_LoginWindow_def login_setupUI_def windows_ok_def updateStatus_def on_ui_def loadConfig_def TcpClient_def
        split: prod.split)
  then have "windows_ok c"
    using tables.client_run_R [where box = box and pick = pick, OF _ _ assms(3,4)] assms(1,2) by blast
  then show ?thesis using assms(5) by (simp add: windows_ok_def window_ok_def)
qed

lemma demo_table: "\<forall>d c. windows_ok c \<longrightarrow> windows_ok (demo_box d c)" "\<forall>c. windows_ok c \<longrightarrow> windows_ok (snd (demo_pick c))"
  by (simp_all add: demo_box_def demo_pick_def)

definition demo_messages :: "message list" where
  "demo_messages = [(MSG_LOGIN_RSP, 1, wire_login_rsp LOGIN_SUCCESS []),
     (MSG_FILE_OFFER, 2, wire_offer [70] [97] 3 [66] [66] [67])]"

lemma onReadyReads_one: "onReadyReads q emit [d] c = onReadyRead q emit d c"
  by (cases "onReadyRead q emit d c") simp_all

lemma client_run_one: "client_run q box pick [e] c = client_step q box pick e c"
  by (cases "client_step q box pick e c") simp_all

lemma addTransferRow_known: "map_of (cw_transferRows (addTransferRow q k n z st inc cw)) k \<noteq> None"
  by (auto simp: addTransferRow_def updateTransferStatus_def Let_def update_conv' split: option.split)

lemma demo_run:
  "\<exists>c cw. client_run demo_gui demo_box demo_pick [ReadyRead (wire_stream demo_messages)]
      (new_LoginWindow demo_gui [] demo_world0) = Some c \<and>
    lw_chatWindow (tc_listeners c) = Some cw \<and> map_of (cw_transferRows cw) [70] \<noteq> None"
proof -
  let ?c = "new_LoginWindow demo_gui [] demo_world0"
  define c1 where "c1 = ui_emit demo_gui demo_box (SigLoginResponse True []) ?c"
  have chat: "\<exists>cw. lw_chatWindow (tc_listeners c1) = Some cw"
    by (simp add: c1_def ui_emit_def login_onLoginResponse_def Let_def demo_box_def updateStatus_def on_ui_def
        on_chat_def new_ChatWindow_def chat_setupUI_def new_LoginWindow_def login_setupUI_def TcpClient_def loadConfig_def split: prod.split)
  then obtain cw where cw: "lw_chatWindow (tc_listeners c1) = Some cw" by blast
  have k: "clip 37 [70] = [70]" by (simp add: clip_id)
  have "tc_recvBuffer ?c = []"
    by (simp add: new_LoginWindow_def login_setupUI_def on_ui_def updateStatus_def TcpClient_def split: prod.split)
  then have "onReadyReads demo_qt (ui_emit demo_gui demo_box) [wire_stream demo_messages] ?c =
      map_option (with_buffer []) (handle_all demo_qt (ui_emit demo_gui demo_box) (host_frames demo_messages) ?c)"
    using client_reads [OF demo_box_blind, of ?c demo_messages "[wire_stream demo_messages]" demo_gui]
    by (fastforce simp: demo_messages_def)
  moreover obtain c2 n z st inc where "handle_all demo_qt (ui_emit demo_gui demo_box) (host_frames demo_messages) ?c = Some c2"
    "lw_chatWindow (tc_listeners c2) = Some (addTransferRow demo_gui [70] n z st inc cw)"
    using cw
    by (auto simp: demo_messages_def processMessage_login processMessage_offer Let_def c1_def [symmetric] k
        ui_emit_def [of _ _ "SigFileOffer _ _ _ _ _"] on_chat_def on_ui_def onFileOfferReceived_def)
  ultimately show ?thesis
    by (intro exI [of _ "with_buffer [] c2"] exI [of _ "addTransferRow demo_gui [70] n z st inc cw"])
      (simp add: onReadyReads_one client_run_one addTransferRow_known
        del: not_None_eq onReadyReads.simps client_run.simps)
qed

theorem transfer_table_consistent_witness:
  "\<exists>c cw i. client_run demo_gui demo_box demo_pick [ReadyRead (wire_stream demo_messages)]
      (new_LoginWindow demo_gui [] demo_world0) = Some c \<and>
    lw_chatWindow (tc_listeners c) = Some cw \<and> map_of (cw_transferRows cw) [70] = Some i \<and>
    i < length (cw_table cw) \<and> tr_fileId (cw_table cw ! i) = [70]"
proof -
  obtain c cw where c: "client_run demo_gui demo_box demo_pick [ReadyRead (wire_stream demo_messages)]
      (new_LoginWindow demo_gui [] demo_world0) = Some c"
    "lw_chatWindow (tc_listeners c) = Some cw" "map_of (cw_transferRows cw) [70] \<noteq> None"
    using demo_run by blast
  then show ?thesis
    using transfer_table_consistent [OF demo_table demo_bounded c(1,2)] by blast
qed

section \<open>From window to window\<close>

lemma demo_talk_ok:
  assumes "concat (read_chunks rs) = d"
  shows "server_ok (demo\<lparr>sv_os := demo_os\<lparr>os_recv := (\<lambda>_. [])(5 := rs)\<rparr>\<rparr>)"
    and "alive (demo\<lparr>sv_os := demo_os\<lparr>os_recv := (\<lambda>_. [])(5 := rs)\<rparr>\<rparr>) 5"
    and "buffer_of (sv_recvBuffers (demo\<lparr>sv_os := demo_os\<lparr>os_recv := (\<lambda>_. [])(5 := rs)\<rparr>\<rparr>)) 5 = []"
    and "ch_users (abs_chat (demo\<lparr>sv_os := demo_os\<lparr>os_recv := (\<lambda>_. [])(5 := rs)\<rparr>\<rparr>)) 5 = Some ([65], [65])"
    and "concat (read_chunks (os_recv (sv_os (demo\<lparr>sv_os := demo_os\<lparr>os_recv := (\<lambda>_. [])(5 := rs)\<rparr>\<rparr>)) 5)) = d"
  using demo_ok os_irrelevant(1) [of "demo_os\<lparr>os_recv := (\<lambda>_. [])(5 := rs)\<rparr>" demo] assms
  by (simp_all add: alive_def buffer_of_def, simp_all add: demo_def abs_users_def demo_client_def)

lemma demo_holder: "server_ok s \<Longrightarrow> sv_clients s = sv_clients demo \<Longrightarrow> holder (abs_chat s) [66] = Some 6"
  by (rule holder_unique [OF room_ok_abs, of s 6 "[66]" "[66]"])
    (simp_all add: demo_def abs_users_def demo_client_def)

text \<open>Bytes as they come out of a socket that holds one message.\<close>

lemma read_one_chunk: "d \<noteq> [] \<Longrightarrow> length d \<le> 4096 \<Longrightarrow> concat (read_chunks [Received d]) = d"
  by simp

definition demo_private :: ChatWindow where
  "demo_private = \<lparr>cw_visible = True, cw_status = ([], Red), cw_targets = [([66], [66])], cw_data = [66],
     cw_text = [66], cw_online = [], cw_table = [], cw_transferRows = [], cw_messages = [], cw_input = [104]\<rparr>"

lemma user_list_clipped:
  assumes "server_ok s"
  shows "\<forall>u \<in> set (user_list (abs_chat s)). clip 32 (fst u) = fst u"
proof
  fix u
  assume "u \<in> set (user_list (abs_chat s))"
  moreover have "finite (dom (ch_users (abs_chat s)))"
    using room_ok_abs [OF assms] by (simp add: room_ok_def)
  ultimately obtain g where "ch_users (abs_chat s) g = Some u"
    by (auto simp: user_list_def set_online)
  then show "clip 32 (fst u) = fst u"
    using registered_clipped [OF assms] by (cases u) simp
qed

lemma user_list_length:
  assumes "server_ok s"
  shows "length (user_list (abs_chat s)) \<le> 1024"
  using room_ok_abs [OF assms] by (simp add: user_list_def length_online room_ok_def)

lemma bytes_to_announce:
  assumes "finite (dom (ch_users a))"
  shows "bytes_to fd (map deliver (announce a)) =
    (if fd \<in> dom (ch_users a) then wire_message MSG_USER_LIST_RSP 0 (wire_user_list (user_list a)) else [])"
  unfolding announce_def using bytes_to_all [OF distinct_online, of fd 0] set_online [OF assms]
  by simp

text \<open>
  C9: logging in, from the connection to the windows. The client's first message
  carries its identity; the server registers it when nothing speaks against it and
  answers, and to a success it adds the list of users. The client then hides the login
  window and shows the chat window, whose combo box offers exactly the group and the
  other users online; a refused client has its sessions closed and may try again.
\<close>

theorem login_end_to_end:
  assumes "\<not> has_chat c" and "client_step q box pick SocketConnected c = Some c1"
    and "tc_written c1 = tc_written c @ sent"
    and "server_ok s" and "alive s fd" and "buffer_of (sv_recvBuffers s) fd = []"
    and "concat (read_chunks (os_recv (sv_os s) fd)) = sent"
    and "i = clip 32 (toStdString (gui_qt q) (tc_clientId c))"
    and "n = clip 64 (toStdString (gui_qt q) (tc_nickname c))"
    and "r = login_result fd i n (abs_chat s)" and "s' = client_handleRead fd s" and "blind_box box"
    and "idle_box box"
  shows "\<exists>data. out_grows s s' fd data \<and>
    (if r = LOGIN_SUCCESS then
       ch_users (abs_chat s') = (ch_users (abs_chat s))(fd \<mapsto> (i, n)) \<and>
       (\<forall>ds. concat ds = data \<longrightarrow>
          (\<exists>c' cw. onReadyReads (gui_qt q) (ui_emit q box) ds c1 = Some c' \<and>
             lw_chatWindow (tc_listeners c') = Some cw \<and> cw_visible cw \<and>
             \<not> lw_visible (tc_listeners c') \<and>
             map snd (cw_targets cw) = [] # listed q (tc_clientId c') (user_list (abs_chat s'))))
     else
       abs_chat s' = abs_chat s \<and>
       (\<forall>ds. concat ds = data \<longrightarrow>
          (\<exists>c'. onReadyReads (gui_qt q) (ui_emit q box) ds c1 = Some c' \<and>
             lw_connectEnabled (tc_listeners c') \<and> \<not> tc_timer c' \<and>
             tc_sendSessions c' = [] \<and> tc_recvSessions c' = [])))"
proof -
  let ?i = "toStdString (gui_qt q) (tc_clientId c)" and ?n = "toStdString (gui_qt q) (tc_nickname c)"
  have c1: "c1 = tcp_onConnected (ui_emit q box) (c\<lparr>tc_socket := ConnectedState\<rparr>)" using assms(2) by simp
  note written = connected_writes [OF assms(1), of q box, folded c1]
  have sent: "sent = wire_message MSG_LOGIN_REQ 1 (wire_login_req ?i ?n)"
    using written(1) assms(3) by simp
  have len: "length (wire_login_req ?i ?n) \<le> 1048576" by simp
  let ?a = "abs_chat s" and ?k = "os_epoch (sv_os s)"
  let ?a' = "?a\<lparr>ch_users := (ch_users ?a)(fd \<mapsto> (i, n))\<rparr>"
  let ?reply = "(MSG_LOGIN_RSP, 1, wire_login_rsp r (lit (login_text r)))"
  have run: "spec_step ?k fd 1 (decode_request MSG_LOGIN_REQ (wire_login_req ?i ?n)) ?a =
      (if r = LOGIN_SUCCESS then (?a', (fd, 1, login_reply r) # announce ?a')
       else (?a, [(fd, 1, login_reply r)]))"
    by (simp add: decode_login assms(8-10) Let_def)
  note one = server_reads_one [OF assms(4-6) assms(7) [unfolded sent] len, folded assms(11)]
  show ?thesis
  proof (cases "r = LOGIN_SUCCESS")
    case True
    note server = one [OF run [unfolded if_P [OF True]]]
    have fin: "finite (dom (ch_users ?a'))"
      using room_ok_abs [OF assms(4)] by (simp add: room_ok_def)
    let ?us = "user_list (abs_chat s')"
    let ?ms = "[(MSG_LOGIN_RSP, 1, wire_login_rsp LOGIN_SUCCESS (lit (login_text r))),
      (MSG_USER_LIST_RSP, 0, wire_user_list ?us)] :: message list"
    have us: "\<forall>u \<in> set ?us. clip 32 (fst u) = fst u" "length ?us \<le> 1024"
      using user_list_clipped user_list_length server(1) by blast+
    have "out_grows s s' fd (wire_stream ?ms)"
      using server(3) [of fd] bytes_to_announce [OF fin, of fd] server(2)
      by (simp add: login_reply_def True)
    moreover have "onReadyReads (gui_qt q) (ui_emit q box) ds c1 =
        map_option (with_buffer []) (handle_all (gui_qt q) (ui_emit q box) (host_frames ?ms) c1)"
      if "concat ds = wire_stream ?ms" for ds
      using us(2) that by (intro client_reads [OF assms(12) written(2)]) auto
    moreover have "length ?us < 2 ^ 32" using us(2) by simp
    note login_success_windows [OF us(1) this, of q box "lit (login_text r)" c1]
    moreover have "ch_users (abs_chat s') = (ch_users (abs_chat s))(fd \<mapsto> (i, n))"
      using server(2) by simp
    ultimately show ?thesis
      using True by (intro exI [of _ "wire_stream ?ms"]) (fastforce simp del: host_frames_simps wire_stream_simps)
  next
    case False
    note server = one [OF run [unfolded if_not_P [OF False]]]
    have "out_grows s s' fd (wire_stream [?reply])"
      using server(3) [of fd] by (simp add: login_reply_def)
    moreover have "onReadyReads (gui_qt q) (ui_emit q box) ds c1 =
        map_option (with_buffer []) (handle_all (gui_qt q) (ui_emit q box) (host_frames [?reply]) c1)"
      if "concat ds = wire_stream [?reply]" for ds
      using that by (intro client_reads [OF assms(12) written(2)]) auto
    moreover note login_failure_windows [OF False assms(13), of q "lit (login_text r)" c1]
    ultimately show ?thesis
      using False server(2)
      by (intro exI [of _ "wire_stream [?reply]"]) (fastforce simp del: host_frames_simps wire_stream_simps)
  qed
qed

lemma demo_users: "abs_users (sv_clients demo) = [5 \<mapsto> ([65], [65]), 6 \<mapsto> ([66], [66])]"
  by (auto simp: abs_users_def demo_def demo_client_def fun_eq_iff)

lemma demo_login: "login_result 5 [67] [67] (abs_chat demo) = LOGIN_SUCCESS"
proof -
  have "dom (ch_users (abs_chat demo)) = {5, 6}" by (auto simp: demo_users)
  then have "finite (dom (ch_users (abs_chat demo)))" "card (dom (ch_users (abs_chat demo))) = 2"
    by simp_all
  then show ?thesis
    by (auto simp: login_result_def taken_iff length_online demo_users split: if_splits)
qed

theorem login_end_to_end_witness:
  "\<exists>c1 data c' cw. client_step demo_gui demo_box demo_pick SocketConnected demo_app = Some c1 \<and>
     onReadyReads demo_qt (ui_emit demo_gui demo_box) [data] c1 = Some c' \<and>
     lw_chatWindow (tc_listeners c') = Some cw \<and> cw_visible cw"
proof -
  let ?d = "wire_message MSG_LOGIN_REQ 1 (wire_login_req [67] [67])"
  let ?c1 = "tcp_onConnected (ui_emit demo_gui demo_box) (demo_app\<lparr>tc_socket := ConnectedState\<rparr>)"
  have "?d \<noteq> []" by (auto dest: arg_cong [of _ _ length])
  then have "concat (read_chunks [Received ?d]) = ?d" by (intro read_one_chunk) simp_all
  note s = demo_talk_ok [OF this]
  let ?s = "demo\<lparr>sv_os := demo_os\<lparr>os_recv := (\<lambda>_. [])(5 := [Received ?d])\<rparr>\<rparr>"
  have step: "client_step demo_gui demo_box demo_pick SocketConnected demo_app = Some ?c1" by simp
  have w: "tc_written ?c1 = tc_written demo_app @ ?d"
    using connected_writes(1) [OF demo_app_fields(2), of demo_gui demo_box] demo_app_fields by simp
  have i: "[67] = clip 32 (toStdString (gui_qt demo_gui) (tc_clientId demo_app))"
    "[67] = clip 64 (toStdString (gui_qt demo_gui) (tc_nickname demo_app))"
    by (simp_all add: demo_app_fields clip_id)
  have r: "LOGIN_SUCCESS = login_result 5 [67] [67] (abs_chat ?s)"
    using demo_login by (simp add: abs_chat_def)
  obtain data where "\<forall>ds. concat ds = data \<longrightarrow>
      (\<exists>c' cw. onReadyReads demo_qt (ui_emit demo_gui demo_box) ds ?c1 = Some c' \<and>
         lw_chatWindow (tc_listeners c') = Some cw \<and> cw_visible cw)"
    using login_end_to_end [OF demo_app_fields(2) step w s(1-3,5) i r refl demo_box_blind demo_box_idle,
        unfolded demo_gui_qt if_P [OF refl]] by blast
  moreover have "concat [data] = data" by simp
  ultimately show ?thesis using step by blast
qed

section \<open>A pitfall\<close>

lemma on_chat_window:
  "lw_chatWindow (tc_listeners (on_chat f c)) = map_option f (lw_chatWindow (tc_listeners c))"
  by (simp add: on_chat_def on_ui_def)

text \<open>
  C33: a new list of users resets the choice of the receiver: whatever was chosen
  before, the message sent next goes to the whole group, when the refilled combo box
  shows its first item, as Qt's does.
\<close>

theorem user_list_resets_target:
  assumes "\<forall>x xs. combo_current q (x # xs) = (snd x, fst x)"
    and "trimmed (gui_qt q) [] = []" and "trimmed (gui_qt q) (glit q ''Group (All)'') = glit q ''Group (All)''"
    and "lw_chatWindow (tc_listeners (ui_emit q box SigUserListUpdated c)) = Some cw"
    and "isConnected c" and "trimmed (gui_qt q) (cw_input cw) \<noteq> []"
  shows "tc_written (onSendClicked q box cw (ui_emit q box SigUserListUpdated c)) =
    tc_written c @ wire_message MSG_CHAT_MSG (tc_sequence c + 1)
      (wire_chat CHAT_GROUP (toStdString (gui_qt q) (tc_clientId c)) (toStdString (gui_qt q) (tc_nickname c))
        (toStdString (gui_qt q) []) (toStdString (gui_qt q) (trimmed (gui_qt q) (cw_input cw)))
        (currentSecs (gui_qt q) (tc_world c)))"
proof -
  let ?c = "ui_emit q box SigUserListUpdated c"
  have same: "isConnected ?c" "tc_written ?c = tc_written c" "tc_sequence ?c = tc_sequence c"
    "tc_clientId ?c = tc_clientId c" "tc_nickname ?c = tc_nickname c" "tc_world ?c = tc_world c"
    using assms(5) by (simp_all add: ui_emit_def on_chat_def on_ui_def isConnected_def)
  obtain cw0 where "cw = updateUserList q (tc_userList c) (tc_clientId c) cw0"
    using assms(4) by (auto simp: ui_emit_def on_chat_def on_ui_def)
  then have "cw_data cw = []" "cw_text cw = glit q ''Group (All)''"
    by (simp_all add: updateUserList_def Let_def set_targets_def assms(1) group_item_def)
  then have "chosen_target q cw = (True, [])"
    by (simp add: chosen_target_def assms(2,3))
  then show ?thesis
    using assms(6) sent_chat [OF same(1), of "gui_qt q" CHAT_GROUP "[]"] same
    by (simp add: onSendClicked_def Let_def on_chat_def on_ui_def)
qed

theorem user_list_resets_target_witness:
  "\<exists>c cw. lw_chatWindow (tc_listeners c) = Some demo_private \<and> cw_data demo_private = [66] \<and>
     tc_written (onSendClicked demo_gui demo_box cw (ui_emit demo_gui demo_box SigUserListUpdated c)) =
       wire_message MSG_CHAT_MSG (tc_sequence c + 1) (wire_chat CHAT_GROUP [67] [67] [] [104] 1000)"
proof -
  let ?c = "on_ui (\<lambda>u. u\<lparr>lw_chatWindow := Some demo_private\<rparr>)
    (demo_app\<lparr>tc_socket := ConnectedState, tc_userList := []\<rparr>)"
  let ?cw = "updateUserList demo_gui [] [67] demo_private"
  have combo: "\<forall>x xs. combo_current demo_gui (x # xs) = (snd x, fst x)" by (simp add: demo_gui_def)
  have c: "tc_written ?c = []" "tc_clientId ?c = [67]" "tc_nickname ?c = [67]" "tc_userList ?c = []"
    "lw_chatWindow (tc_listeners ?c) = Some demo_private" "isConnected ?c"
    by (simp_all add: on_ui_def demo_app_fields isConnected_def)
  have cw: "lw_chatWindow (tc_listeners (ui_emit demo_gui demo_box SigUserListUpdated ?c)) = Some ?cw"
    using c by (simp add: ui_emit_def on_chat_window)
  have input: "cw_input ?cw = [104]"
    by (simp add: updateUserList_def Let_def set_targets_def demo_private_def split: prod.split)
  have d: "cw_data demo_private = [66]" by (simp add: demo_private_def)
  from user_list_resets_target [OF combo _ _ cw c(6)] input c(1-3)
  have "tc_written (onSendClicked demo_gui demo_box ?cw (ui_emit demo_gui demo_box SigUserListUpdated ?c)) =
      wire_message MSG_CHAT_MSG (tc_sequence ?c + 1) (wire_chat CHAT_GROUP [67] [67] [] [104] 1000)"
    by simp
  with c(5) d show ?thesis by blast
qed

end
