(* ===== verification/Client_Main.thy ===== *)
theory Client_Main
  imports Window_Properties
begin

text \<open>
  The client's program, \<open>client/main.cpp\<close>: the directory of the settings, the login window,
  the event loop, and what becomes of the connection when the window is destroyed.
\<close>

section \<open>The program\<close>

text \<open>
  \<open>~TcpClient\<close> runs when the children of the login window are deleted, after its widgets;
  what a signal does to a window at that time is the argument \<open>gone\<close>.
\<close>

definition delete_TcpClient ::
    "('f, 'w) qt \<Rightarrow> ('f, 'w, 'u) emitter \<Rightarrow> ('f, 'w, 'u) TcpClient \<Rightarrow> ('f, 'w, 'u) TcpClient" where
  "delete_TcpClient q gone c = disconnectFromServer q gone c"

definition client_begin ::
    "('f, 'w, 'd) gui \<Rightarrow> (qstring \<times> qstring) list \<Rightarrow> 'w \<Rightarrow> ('f, 'w) client" where
  "client_begin q settings w =
     (let w = (if \<not> here_exists q (glit q ''config'') w then here_mkdir q (glit q ''config'') w else w);
          c = new_LoginWindow q settings w
      in on_ui (\<lambda>u. u\<lparr>lw_visible := True\<rparr>) c)"

text \<open>\<open>es\<close> are the events of the loop up to the one that ends it.\<close>

definition client_main ::
    "('f, 'w, 'd) gui \<Rightarrow> ('f, 'w) boxes \<Rightarrow> (('f, 'w) client \<Rightarrow> qstring \<times> ('f, 'w) client) \<Rightarrow>
     ('f, 'w, ui) emitter \<Rightarrow> (qstring \<times> qstring) list \<Rightarrow> 'w \<Rightarrow> 'w event list \<Rightarrow> ('f, 'w) client option" where
  "client_main q box pick gone settings w es =
     map_option (delete_TcpClient (gui_qt q) gone)
       (client_run q box pick es (client_begin q settings w))"

section \<open>The end of a connection\<close>

text \<open>What the listeners leave alone while a connection is closed.\<close>

definition keeps_quiet :: "('f, 'w, 'u) emitter \<Rightarrow> bool" where
  "keeps_quiet emit \<longleftrightarrow>
     (\<forall>c. tc_timer (emit SigDisconnected c) = tc_timer c \<and>
        tc_sendSessions (emit SigDisconnected c) = tc_sendSessions c \<and>
        tc_recvSessions (emit SigDisconnected c) = tc_recvSessions c \<and>
        tc_pendingOffers (emit SigDisconnected c) = tc_pendingOffers c \<and>
        tc_written (emit SigDisconnected c) = tc_written c)"

lemma disconnected:
  assumes "keeps_quiet emit"
  shows "\<not> tc_timer (disconnectFromServer q emit c)"
    "tc_sendSessions (disconnectFromServer q emit c) = []"
    "tc_recvSessions (disconnectFromServer q emit c) = []"
    "tc_pendingOffers (disconnectFromServer q emit c) = []"
    "tc_written (disconnectFromServer q emit c) = tc_written c @
       (if isConnected c then wire_message MSG_LOGOUT_REQ (tc_sequence c + 1) [] else [])"
  using assms
  by (auto simp: disconnectFromServer_def tcp_onDisconnected_def Let_def clearFileSessions_def sendLogoutRequest_def
      sendData_def next_sequence_def isConnected_def keeps_quiet_def pack_simps split: prod.split)

text \<open>
  C14: the program ends its connection: after any run the heartbeat is off, no session is
  left, and what was written over its whole life is a stream of whole messages, whose last
  one is the logout when the connection still stood.
\<close>

theorem client_leaves_cleanly:
  assumes "\<forall>d c. speaks c (box d c)" and "\<forall>c. speaks c (snd (pick c))" and "bounded_reads (gui_qt q)"
    and "keeps_quiet gone" and "client_main q box pick gone settings w es = Some c'"
  shows "\<not> tc_timer c' \<and> tc_sendSessions c' = [] \<and> tc_recvSessions c' = [] \<and> tc_pendingOffers c' = [] \<and>
    (\<exists>c ms. client_run q box pick es (client_begin q settings w) = Some c \<and>
       tc_written c = wire_stream ms \<and> deframe (wire_stream ms) = (host_frames ms, Some []) \<and>
       tc_written c' = wire_stream (ms @
         (if isConnected c then [(MSG_LOGOUT_REQ, tc_sequence c + 1, [])] else [])))"
proof -
  obtain c where c: "client_run q box pick es (client_begin q settings w) = Some c"
    "c' = disconnectFromServer (gui_qt q) gone c"
    using assms(5) by (auto simp: client_main_def delete_TcpClient_def)
  have "tc_written (client_begin q settings w) = []"
    by (simp add: client_begin_def new_LoginWindow_def login_setupUI_def on_ui_def updateStatus_def TcpClient_def
        Let_def split: prod.split)
  moreover have "speaks (client_begin q settings w) c"
    using speaking.client_run_R [where box = box and pick = pick, OF _ _ assms(3) c(1)] assms(1,2) by blast
  ultimately obtain ms where ms: "tc_written c = wire_stream ms"
    "\<forall>(ty, sq, b) \<in> set ms. length b \<le> 1048576"
    unfolding speaks_def by auto
  have "deframe (wire_stream ms @ []) = (case deframe [] of (fs, r) \<Rightarrow> (host_frames ms @ fs, r))"
    using ms(2) by (intro deframe_stream) auto
  moreover have "tc_written c' = wire_stream (ms @
      (if isConnected c then [(MSG_LOGOUT_REQ, tc_sequence c + 1, [])] else []))"
    using disconnected(5) [OF assms(4)] by (simp add: c(2) ms(1) wire_stream_def)
  ultimately show ?thesis
    using disconnected(1-4) [OF assms(4)] c ms(1) by auto
qed

theorem client_leaves_cleanly_witness:
  "\<exists>c. client_main demo_gui demo_box demo_pick (\<lambda>_ c. c) [] demo_world0 [SocketConnected] = Some c \<and>
     \<not> tc_timer c \<and> tc_recvSessions c = []"
proof -
  have sp: "\<forall>d c. speaks c (demo_box d c)" "\<forall>c. speaks c (snd (demo_pick c))"
    by (simp_all add: demo_box_def demo_pick_def speaks_quiet)
  have "keeps_quiet (\<lambda>_ c. c)" by (simp add: keeps_quiet_def)
  moreover obtain c where "client_main demo_gui demo_box demo_pick (\<lambda>_ c. c) [] demo_world0 [SocketConnected] = Some c"
    by (simp add: client_main_def)
  ultimately show ?thesis
    using client_leaves_cleanly [OF sp demo_bounded] by blast
qed

end
