(* ===== verification/Client_Properties.thy ===== *)
theory Client_Properties
  imports File_Transfer Client_Demo
begin

text \<open>The properties of the client, and of a file's way through client, server and client.\<close>

section \<open>Reading\<close>

text \<open>
  C16: the client takes from its connection exactly the messages the server's parser would
  take from the same bytes, in order and whatever the cuts between two reads, and keeps
  the unfinished rest; this holds for any slots that leave the receive buffer alone.
\<close>

theorem client_reads_deframe:
  assumes "blind emit" and "deframe (tc_recvBuffer c @ concat ds) = (fs, Some r)" and "ds \<noteq> []"
  shows "onReadyReads q emit ds c = map_option (with_buffer r) (handle_all q emit fs c)"
  using onReadyReads_deframe [OF assms] .

theorem client_reads_deframe_witness:
  "\<exists>c. onReadyReads demo_qt demo_emit
      [take 20 (wire_message MSG_LOGIN_RSP 1 (wire_login_rsp LOGIN_SUCCESS [79, 75])),
       drop 20 (wire_message MSG_LOGIN_RSP 1 (wire_login_rsp LOGIN_SUCCESS [79, 75]))] demo_sender = Some c \<and>
    tc_listeners c = [SigLoginResponse True [79, 75]] \<and> tc_recvBuffer c = []"
proof -
  let ?b = "wire_login_rsp LOGIN_SUCCESS [79, 75]"
  let ?m = "wire_message MSG_LOGIN_RSP 1 ?b"
  have "deframe (?m @ []) = ([(host_header MSG_LOGIN_RSP 1 ?b, ?b)], Some [])"
    by (subst deframe_message) simp_all
  then have d: "deframe (tc_recvBuffer demo_sender @ concat [take 20 ?m, drop 20 ?m]) =
      ([(host_header MSG_LOGIN_RSP 1 ?b, ?b)], Some [])"
    by (simp add: demo_sender_def TcpClient_def)
  have p: "processMessage demo_qt demo_emit (host_header MSG_LOGIN_RSP 1 ?b) ?b demo_sender =
      Some (demo_emit (SigLoginResponse True [79, 75]) demo_sender)"
    by (simp add: processMessage_def msg_type_defs parseLoginResponse_wire qtext_def clip_id
        demo_qt_def)
  show ?thesis
    using client_reads_deframe [OF listens_blind [OF demo_listens] d, of demo_qt] p
    by (simp add: demo_emit_def demo_log_def demo_sender_def TcpClient_def)
qed

section \<open>Files\<close>

text \<open>
  C17: accepted by the other side, a file is sent completely: the loop over its chunks
  ends, the bytes handed to the socket are the data messages of its content with
  consecutive sequence numbers and offsets, the progress is reported after each, success
  at the end, and the session is gone.
\<close>

theorem startFileSend_sends_file:
  assumes "listens emit g" and "reads_file q f rest"
    and "map_of (tc_sendSessions c) fileId = Some session" and "\<not> ss_started session"
    and "file_create q (ss_filePath session) (tc_world c) = (f, w)"
    and "file_open q f ReadOnly w = (True, w')" and "rest w' = Some bs" and "isConnected c"
  shows "\<exists>c'. startFileSend q emit fileId c = Some c' \<and>
      tc_written c' = tc_written c @ wire_stream (data_messages (tc_sequence c + 1)
        (toStdString q fileId) 0 (file_chunks bs)) \<and>
      map_of (tc_sendSessions c') fileId = None \<and>
      tc_listeners c' = fold g (progress_signals fileId 0 (ss_fileSize session) False (file_chunks bs)
        @ [SigFileCompleted fileId False True (qlit q ''Sent'')]) (tc_listeners c)"
  using startFileSend_sends [OF assms] .

lemma demo_sends:
  "map_of (tc_sendSessions demo_sender) [70] = Some \<lparr>ss_fileId = [70], ss_filePath = [97],
     ss_fileName = [97], ss_fileSize = 3, ss_toId = [66], ss_bytesSent = 0, ss_started = False,
     ss_file = None\<rparr>"
  "isConnected demo_sender"
  "file_open demo_qt [97] ReadOnly (tc_world demo_sender) =
     (True, \<lparr>dw_files = [[97] \<mapsto> demo_file], dw_reading = [[97] \<mapsto> demo_file], dw_writing = (\<lambda>_. None)\<rparr>)"
  "tc_written demo_sender = []" "tc_sequence demo_sender = 0" "tc_listeners demo_sender = []"
  by (simp_all add: demo_sender_def demo_qt_def TcpClient_def isConnected_def)

lemma demo_file_size [simp]: "demo_file \<noteq> []" "length demo_file = 3"
  by (simp_all add: demo_file_def)

lemma demo_file_chunks: "file_chunks demo_file = [demo_file]"
  by (subst file_chunks.simps, subst file_chunks.simps) (simp add: demo_file_def kFileChunkSize_def)

theorem startFileSend_sends_file_witness:
  "\<exists>c. startFileSend demo_qt demo_emit [70] demo_sender = Some c \<and>
     tc_written c = wire_message MSG_FILE_DATA 1 (wire_file_data [70] 0 [104, 105, 33])"
proof -
  let ?w = "\<lparr>dw_files = [[97] \<mapsto> demo_file], dw_reading = [[97] \<mapsto> demo_file], dw_writing = (\<lambda>_. None)\<rparr>"
  have "dw_reading ?w [97] = Some demo_file" by simp
  from startFileSend_sends_file [OF demo_listens demo_reads demo_sends(1) _ _ _ this demo_sends(2),
      of "tc_world demo_sender"] demo_sends(3-)
  show ?thesis
    by (auto simp: demo_file_chunks) (simp add: demo_file_def)
qed

text \<open>
  C7: a file goes from one client to the other: what the sender hands to its socket, the
  server relays unchanged to the receiver (up to a prefix when the receiver's connection
  fails) and to nobody else; from it the receiver, whatever the cuts between its
  reads, writes the very content of the file, reports progress after each chunk and
  success once, and ends the session.
\<close>

theorem file_transfer_end_to_end:
  assumes "listens emitS gS" and "reads_file qS fS rest"
    and "map_of (tc_sendSessions cS) fileId = Some session" and "\<not> ss_started session"
    and "file_create qS (ss_filePath session) (tc_world cS) = (fS, w)"
    and "file_open qS fS ReadOnly w = (True, w')" and "rest w' = Some bs" and "isConnected cS"
    and "bs \<noteq> []" and "length bs < 2 ^ 64" and "key = toStdString qS fileId" and "clip 37 key \<noteq> []"
    and "server_ok s" and "alive s sfd" and "buffer_of (sv_recvBuffers s) sfd = []"
    and "sv_files s (clip 37 key) = Some fs" and "fs_senderFd fs = sfd" and "fs_receiverFd fs = rfd"
    and "concat (read_chunks (os_recv (sv_os s) sfd)) =
      wire_stream (data_messages (tc_sequence cS + 1) key 0 (file_chunks bs))"
    and "listens emitR gR" and "writes_file qR fR out disk"
    and "fromUtf8 qR (clip 37 key) = fileId" and "map_of (tc_recvSessions cR) fileId = Some rs"
    and "rs_file rs = Some fR" and "rs_bytesReceived rs = 0" and "rs_fileSize rs = of_nat (length bs)"
    and "out (tc_world cR) = Some []" and "tc_recvBuffer cR = []"
  shows "\<exists>cS' data. startFileSend qS emitS fileId cS = Some cS' \<and>
    tc_written cS' = tc_written cS @ data \<and>
    concat (read_chunks (os_recv (sv_os s) sfd)) = data \<and>
    (\<forall>h. out_grows s (client_handleRead sfd s) h (if h = rfd then data else [])) \<and>
    (\<forall>ds. concat ds = data \<longrightarrow>
      (\<exists>cR'. onReadyReads qR emitR ds cR = Some cR' \<and> disk (tc_world cR') = bs \<and>
        map_of (tc_recvSessions cR') fileId = None \<and>
        tc_listeners cR' = fold gR (progress_signals fileId 0 (rs_fileSize rs) True (file_chunks bs)
          @ [SigFileCompleted fileId True True (rs_savePath rs)]) (tc_listeners cR)))"
proof -
  obtain cS' where "startFileSend qS emitS fileId cS = Some cS'"
    "tc_written cS' = tc_written cS @ wire_stream (data_messages (tc_sequence cS + 1) key 0 (file_chunks bs))"
    using startFileSend_sends [OF assms(1-8)] unfolding assms(11) by blast
  moreover note relay_file [OF assms(13-18,12,19,9)]
  moreover note receive_file [OF assms(20-26,9,10,27,28), where sq = "tc_sequence cS + 1"]
  ultimately show ?thesis
    using assms(19)
    by (intro exI [of _ cS'] exI [of _ "wire_stream (data_messages (tc_sequence cS + 1) key 0
        (file_chunks bs))"]) blast
qed

lemma demo_receives:
  "map_of (tc_recvSessions demo_receiver) [70] = Some \<lparr>rs_fileId = [70], rs_fileName = [97],
     rs_fileSize = 3, rs_bytesReceived = 0, rs_savePath = [98], rs_file = Some [98]\<rparr>"
  "dw_writing (tc_world demo_receiver) [98] = Some []" "tc_recvBuffer demo_receiver = []"
  "tc_listeners demo_receiver = []"
  by (simp_all add: demo_receiver_def TcpClient_def)

text \<open>A server with the transfer between its two clients, about to read the sender's data.\<close>

definition demo_relay :: server where
  "demo_relay = demo\<lparr>sv_files := [[70] \<mapsto> \<lparr>fs_senderFd = 5, fs_receiverFd = 6\<rparr>],
     sv_os := demo_os\<lparr>os_recv := (\<lambda>_. [])(5 :=
       [Received (wire_message MSG_FILE_DATA 1 (wire_file_data [70] 0 demo_file))])\<rparr>\<rparr>"

lemma server_ok_files:
  "server_ok s \<Longrightarrow> \<forall>f fs. files f = Some fs \<longrightarrow>
     sv_handlers s (fs_senderFd fs) \<noteq> None \<and> sv_handlers s (fs_receiverFd fs) \<noteq> None \<Longrightarrow>
   server_ok (s\<lparr>sv_files := files\<rparr>)"
  unfolding server_ok_def links_ok_def conns_ok_def conn_inv_def by (simp (no_asm_use)) blast

lemma demo_relay_ok: "server_ok demo_relay"
proof -
  have "server_ok (demo\<lparr>sv_files := [[70] \<mapsto> \<lparr>fs_senderFd = 5, fs_receiverFd = 6\<rparr>]\<rparr>)"
    by (rule server_ok_files [OF demo_ok]) simp
  then show ?thesis
    using os_irrelevant(1) [of "demo_os\<lparr>os_recv := (\<lambda>_. [])(5 :=
       [Received (wire_message MSG_FILE_DATA 1 (wire_file_data [70] 0 demo_file))])\<rparr>"
       "demo\<lparr>sv_files := [[70] \<mapsto> \<lparr>fs_senderFd = 5, fs_receiverFd = 6\<rparr>]\<rparr>"]
    by (simp add: demo_relay_def demo_def)
qed

lemma demo_relay_fields:
  "alive demo_relay 5" "buffer_of (sv_recvBuffers demo_relay) 5 = []"
  "sv_files demo_relay [70] = Some \<lparr>fs_senderFd = 5, fs_receiverFd = 6\<rparr>"
  "concat (read_chunks (os_recv (sv_os demo_relay) 5)) =
     wire_stream (data_messages 1 [70] 0 (file_chunks demo_file))"
proof -
  show "concat (read_chunks (os_recv (sv_os demo_relay) 5)) =
     wire_stream (data_messages 1 [70] 0 (file_chunks demo_file))"
    unfolding demo_file_chunks
    by (auto simp: demo_relay_def demo_file_def dest: arg_cong [of _ _ length])
qed (simp_all add: demo_relay_def alive_def buffer_of_def demo_def)

theorem file_transfer_end_to_end_witness:
  "\<exists>c data c'. startFileSend demo_qt demo_emit [70] demo_sender = Some c \<and> tc_written c = data \<and>
     out_grows demo_relay (client_handleRead 5 demo_relay) 6 data \<and>
     onReadyReads demo_qt demo_emit [take 30 data, drop 30 data] demo_receiver = Some c' \<and>
     the (dw_files (tc_world c') [98]) = [104, 105, 33]"
proof -
  let ?w = "\<lparr>dw_files = [[97] \<mapsto> demo_file], dw_reading = [[97] \<mapsto> demo_file], dw_writing = (\<lambda>_. None)\<rparr>"
  have r: "dw_reading ?w [97] = Some demo_file" by simp
  have k: "clip 37 [70] = [70]" by (simp add: clip_id)
  note t = file_transfer_end_to_end [OF demo_listens demo_reads demo_sends(1) _ _ _ r demo_sends(2) _ _
      refl _ demo_relay_ok demo_relay_fields(1,2) _ _ _ _ demo_listens demo_writes _ demo_receives(1) _ _ _
      demo_receives(2,3)]
  from t [of "tc_world demo_sender" "\<lparr>fs_senderFd = 5, fs_receiverFd = 6\<rparr>" 6]
  obtain c data where c: "startFileSend demo_qt demo_emit [70] demo_sender = Some c"
    "tc_written c = data"
    "\<forall>h. out_grows demo_relay (client_handleRead 5 demo_relay) h (if h = 6 then data else [])"
    "\<forall>ds. concat ds = data \<longrightarrow> (\<exists>c'. onReadyReads demo_qt demo_emit ds demo_receiver = Some c' \<and>
        the (dw_files (tc_world c') [98]) = demo_file)"
    using demo_sends(3-) demo_relay_fields(3,4) by (simp add: k) blast
  moreover have "concat [take 30 data, drop 30 data] = data" by simp
  moreover have "out_grows demo_relay (client_handleRead 5 demo_relay) 6 data"
    using spec [OF c(3), of 6] by simp
  ultimately show ?thesis unfolding demo_file_def by blast
qed

text \<open>
  C18: an accepted file never goes onto an existing one: the path chosen for it does not
  exist, and one is found as soon as one of the numbered names is free.
\<close>

definition numbered :: "('f, 'w) qt \<Rightarrow> qstring \<Rightarrow> qstring \<Rightarrow> int \<Rightarrow> qstring" where
  "numbered q dir fileName n = dir_filePath q dir
     (if info_suffix q fileName = [] then
        argInt q (arg q (qlit q ''%1_%2'') (info_completeBaseName q fileName)) n
      else arg q (argInt q (arg q (qlit q ''%1_%2.%3'') (info_completeBaseName q fileName)) n)
        (info_suffix q fileName))"

lemma free_candidate_step:
  "free_candidate q dir (info_completeBaseName q fileName) (info_suffix q fileName) n w =
     (if \<not> file_exists q (numbered q dir fileName n) w then Some (numbered q dir fileName n)
      else free_candidate q dir (info_completeBaseName q fileName) (info_suffix q fileName) (n + 1) w)"
  by (subst free_candidate.simps) (simp add: numbered_def Let_def)

lemma free_candidate_finds:
  "\<not> file_exists q (numbered q dir fileName (i + int k)) w \<Longrightarrow>
   \<exists>p. free_candidate q dir (info_completeBaseName q fileName) (info_suffix q fileName) i w = Some p \<and>
     \<not> file_exists q p w"
proof (induction k arbitrary: i)
  case 0
  then show ?case by (subst free_candidate_step) simp
next
  case (Suc k)
  then have "\<not> file_exists q (numbered q dir fileName ((i + 1) + int k)) w" by (simp add: add.assoc)
  from Suc.IH [OF this] show ?case by (subst free_candidate_step) auto
qed

definition download_dir :: "('f, 'w) qt \<Rightarrow> 'w \<Rightarrow> qstring" where
  "download_dir q w = (if downloadLocation q w = [] then currentFilePath q (qlit q ''downloads'') w
     else downloadLocation q w)"

theorem download_path_is_free:
  assumes "dir = download_dir q w" and "w' = (if dir_exists q dir w then w else dir_mkpath q dir w)"
    and "\<not> file_exists q (numbered q dir fileName (int (Suc k))) w'"
  shows "\<exists>p. buildDownloadPath q fileName w = Some (p, w') \<and> \<not> file_exists q p w'"
proof -
  have "\<not> file_exists q (numbered q dir fileName (1 + int k)) w'" using assms(3) by simp
  from free_candidate_finds [OF this] show ?thesis
    by (auto simp: buildDownloadPath_def Let_def assms(1,2) download_dir_def)
qed

theorem download_path_is_free_witness:
  "\<exists>p. buildDownloadPath demo_qt [97] \<lparr>dw_files = [[47, 97] \<mapsto> []], dw_reading = (\<lambda>_. None),
       dw_writing = (\<lambda>_. None)\<rparr> = Some (p, \<lparr>dw_files = [[47, 97] \<mapsto> []], dw_reading = (\<lambda>_. None),
       dw_writing = (\<lambda>_. None)\<rparr>) \<and> p \<noteq> [47, 97]"
  using download_path_is_free [of "[47]" demo_qt "\<lparr>dw_files = [[47, 97] \<mapsto> []], dw_reading = (\<lambda>_. None),
      dw_writing = (\<lambda>_. None)\<rparr>" _ "[97]" 0]
  by (fastforce simp: download_dir_def numbered_def qlit_def lit_def)

text \<open>
  C19: the receiver believes the offset of a data message: one without data whose offset is
  the size of the file completes a transfer with success although nothing of the file
  has arrived.
\<close>

theorem offset_completes_transfer:
  assumes "listens emit g" and "map_of (tc_recvSessions c) fileId = Some s" and "rs_file s = Some f"
    and "file_isOpen q f (tc_world c)" and "0 < rs_fileSize s" and "rs_bytesReceived s = 0"
    and "file_seek q f (sint (rs_fileSize s)) (tc_world c) = (True, w)"
  shows "tc_world (tcp_handleFileData q emit fileId (rs_fileSize s) [] c) =
      file_close q f (file_flush q f w) \<and>
    map_of (tc_recvSessions (tcp_handleFileData q emit fileId (rs_fileSize s) [] c)) fileId = None \<and>
    tc_listeners (tcp_handleFileData q emit fileId (rs_fileSize s) [] c) =
      g (SigFileCompleted fileId True True (rs_savePath s))
        (g (SigFileProgress fileId (rs_fileSize s) (rs_fileSize s) True) (tc_listeners c))"
proof -
  have "rs_fileSize s \<noteq> rs_bytesReceived s" using assms(5,6) by auto
  then show ?thesis
    using assms(5)
    by (simp add: tcp_handleFileData_def assms(2-4,7) Let_def listensD [OF assms(1)] close_file_def
        drop_recv_def delete_conv')
qed

theorem offset_completes_transfer_witness:
  "tc_listeners (tcp_handleFileData demo_qt demo_emit [70] 3 [] demo_receiver) =
     [SigFileProgress [70] 3 3 True, SigFileCompleted [70] True True [98]]"
proof -
  let ?s = "\<lparr>rs_fileId = [70], rs_fileName = [97], rs_fileSize = 3, rs_bytesReceived = 0,
    rs_savePath = [98], rs_file = Some ([98] :: qstring)\<rparr>"
  obtain w where w: "file_seek demo_qt [98] (sint (rs_fileSize ?s)) (tc_world demo_receiver) = (True, w)"
    using demo_receives(2) by (simp add: demo_qt_def)
  from offset_completes_transfer [OF demo_listens demo_receives(1) _ _ _ _ w]
  show ?thesis using demo_receives by (simp add: demo_log_def)
qed

text \<open>
  An empty file is never received: its sender reports success without sending
  anything, and no data message completes a transfer of size 0.
\<close>

theorem empty_file_not_received:
  assumes "listens emitS gS" and "reads_file qS fS rest"
    and "map_of (tc_sendSessions cS) fileId = Some session" and "\<not> ss_started session"
    and "file_create qS (ss_filePath session) (tc_world cS) = (fS, w)"
    and "file_open qS fS ReadOnly w = (True, w')" and "rest w' = Some []" and "isConnected cS"
    and "listens emitR gR" and "map_of (tc_recvSessions cR) fileId = Some rs" and "rs_fileSize rs = 0"
  shows "(\<exists>cS'. startFileSend qS emitS fileId cS = Some cS' \<and> tc_written cS' = tc_written cS \<and>
      tc_listeners cS' = gS (SigFileCompleted fileId False True (qlit qS ''Sent'')) (tc_listeners cS)) \<and>
    (\<exists>sgs. tc_listeners (tcp_handleFileData qR emitR fileId off payload cR) = fold gR sgs (tc_listeners cR) \<and>
      (\<forall>path. SigFileCompleted fileId True True path \<notin> set sgs))"
proof
  show "\<exists>cS'. startFileSend qS emitS fileId cS = Some cS' \<and> tc_written cS' = tc_written cS \<and>
      tc_listeners cS' = gS (SigFileCompleted fileId False True (qlit qS ''Sent'')) (tc_listeners cS)"
    using startFileSend_sends [OF assms(1-8)] by (auto simp: file_chunks.simps)
  have one: "\<exists>sgs. gR sg l = fold gR sgs l \<and> (\<forall>path. SigFileCompleted fileId True True path \<notin> set sgs)"
    if "\<forall>path. sg \<noteq> SigFileCompleted fileId True True path" for sg l
    using that by (intro exI [of _ "[sg]"]) auto
  show "\<exists>sgs. tc_listeners (tcp_handleFileData qR emitR fileId off payload cR) =
      fold gR sgs (tc_listeners cR) \<and> (\<forall>path. SigFileCompleted fileId True True path \<notin> set sgs)"
    using assms(11)
    by (auto simp: tcp_handleFileData_def assms(10) Let_def listensD [OF assms(9)] fail_recv_def
        close_file_def drop_recv_def split: option.split prod.split intro!: one)
qed

theorem empty_file_not_received_witness:
  "(\<exists>c. startFileSend demo_qt demo_emit [70]
       (demo_sender\<lparr>tc_world := \<lparr>dw_files = [[97] \<mapsto> []], dw_reading = (\<lambda>_. None),
          dw_writing = (\<lambda>_. None)\<rparr>\<rparr>) = Some c \<and> tc_written c = [])"
proof -
  let ?w = "\<lparr>dw_files = [[97] \<mapsto> []], dw_reading = [[97] \<mapsto> []], dw_writing = (\<lambda>_. None)\<rparr>"
  let ?s = "demo_sender\<lparr>tc_world := \<lparr>dw_files = [[97] \<mapsto> []], dw_reading = (\<lambda>_. None),
          dw_writing = (\<lambda>_. None)\<rparr>\<rparr>"
  let ?r = "demo_receiver\<lparr>tc_recvSessions := [([70], \<lparr>rs_fileId = [70], rs_fileName = [97],
     rs_fileSize = 0, rs_bytesReceived = 0, rs_savePath = [98], rs_file = Some [98]\<rparr>)]\<rparr>"
  have s: "map_of (tc_sendSessions ?s) [70] = Some \<lparr>ss_fileId = [70], ss_filePath = [97],
     ss_fileName = [97], ss_fileSize = 3, ss_toId = [66], ss_bytesSent = 0, ss_started = False,
     ss_file = None\<rparr>" "isConnected ?s"
    using demo_sends(1,2) by (simp_all add: isConnected_def)
  have o: "file_open demo_qt [97] ReadOnly (tc_world ?s) = (True, ?w)" by (simp add: demo_qt_def)
  have r: "map_of (tc_recvSessions ?r) [70] = Some \<lparr>rs_fileId = [70], rs_fileName = [97],
     rs_fileSize = 0, rs_bytesReceived = 0, rs_savePath = [98], rs_file = Some [98]\<rparr>" by simp
  have e: "dw_reading ?w [97] = Some []" by simp
  show ?thesis
    using empty_file_not_received [OF demo_listens demo_reads s(1) _ _ o e s(2) demo_listens r,
      where qR = demo_qt and off = 0 and payload = "[]"] demo_sends(4) by auto
qed

end
