(* ===== verification/Offer_Properties.thy ===== *)
theory Offer_Properties
  imports Offer_Delivery Client_Properties Window_Properties
begin

text \<open>
  The properties of a file's negotiation: the offer from window to window, its acceptance
  up to the file that is sent, and its refusal.
\<close>

section \<open>Offers\<close>

definition offer_row :: "('f, 'w, 'd) gui \<Rightarrow> qstring \<Rightarrow> qstring \<Rightarrow> u64 \<Rightarrow> qstring \<Rightarrow> transfer_row" where
  "offer_row q fileId name fsize from_whom =
     \<lparr>tr_file = name, tr_size = formatSize q fsize,
      tr_status = Some (arg (gui_qt q) (glit q ''Incoming from %1'') from_whom),
      tr_fileId = fileId, tr_action = OfferButtons True\<rparr>"

text \<open>
  C10: a file offered by an online client to an online user is announced to that user
  alone, under the sender's registered identity; the server notes the transfer between
  the two connections, the sender a session that has not started, and the receiver an
  offer to answer and a row with the buttons for it.
\<close>

theorem offer_end_to_end:
  assumes "isConnected cA" and "info_exists qA path (tc_world cA)" and "info_isFile qA path (tc_world cA)"
    and "cA' = sendFileOffer qA emitA fileId path name fsize toId cA"
    and "server_ok s" and "alive s fd" and "buffer_of (sv_recvBuffers s) fd = []"
    and "ch_users (abs_chat s) fd = Some (i, n)"
    and "tc_written cA' = tc_written cA @ concat (read_chunks (os_recv (sv_os s) fd))"
    and "key = clip 37 (toStdString qA fileId)" and "key \<noteq> []"
    and "nm = clip 256 (toStdString qA name)"
    and "clip 32 (toStdString qA toId) \<noteq> []" and "holder (abs_chat s) (clip 32 (toStdString qA toId)) = Some g"
    and "blind_box box" and "tc_recvBuffer cB = []" and "lw_chatWindow (tc_listeners cB) = Some cw"
    and "shown = fromUtf8 (gui_qt qB)" and "map_of (cw_transferRows cw) (shown key) = None"
  shows "(\<exists>session. map_of (tc_sendSessions cA') fileId = Some session \<and> ss_filePath session = path \<and>
      \<not> ss_started session) \<and>
    (\<exists>data. abs_chat (client_handleRead fd s) =
        (abs_chat s)\<lparr>ch_files := (ch_files (abs_chat s))(key \<mapsto> (fd, g))\<rparr> \<and>
      (\<forall>h. out_grows s (client_handleRead fd s) h (if h = g then data else [])) \<and>
      (\<forall>ds. concat ds = data \<longrightarrow>
         (\<exists>cB' cw'. onReadyReads (gui_qt qB) (ui_emit qB box) ds cB = Some cB' \<and>
            map_of (tc_pendingOffers cB') (shown key) =
              Some \<lparr>po_fileId = shown key, po_fileName = shown nm, po_fileSize = fsize,
                po_fromId = shown i, po_fromNick = shown n\<rparr> \<and>
            lw_chatWindow (tc_listeners cB') = Some cw' \<and>
            cw_table cw' = cw_table cw @ [offer_row qB (shown key) (shown nm) fsize
              (if shown n = [] then shown i else shown n)])))"
proof -
  let ?sq = "tc_sequence cA + 1"
  let ?t = "clip 32 (toStdString qA toId)"
  let ?b = "wire_offer key nm fsize i n ?t"
  note sent = sent_offer [OF assms(1-3), of emitA fileId name fsize toId, folded assms(4)]
  have clipped: "clip 32 i = i" "clip 64 n = n" "clip 37 key = key" "clip 256 nm = nm"
    using registered_clipped [OF assms(5,8)] by (simp_all add: assms(10,12))
  have run: "spec_step (os_epoch (sv_os s)) fd ?sq (decode_request MSG_FILE_OFFER (wire_offer
      (toStdString qA fileId) (toStdString qA name) fsize (toStdString qA (tc_clientId cA))
      (toStdString qA (tc_nickname cA)) (toStdString qA toId))) (abs_chat s) =
      ((abs_chat s)\<lparr>ch_files := (ch_files (abs_chat s))(key \<mapsto> (fd, g))\<rparr>,
       [(g, ?sq, OfferRsp key nm fsize i n ?t)])"
    using assms(8,11,13,14) by (simp add: decode_offer assms(10,12))
  have len: "length (wire_offer f x z y u v) \<le> 1048576" for f x z y u v by simp
  have data: "concat (read_chunks (os_recv (sv_os s) fd)) = wire_message MSG_FILE_OFFER ?sq (wire_offer
      (toStdString qA fileId) (toStdString qA name) fsize (toStdString qA (tc_clientId cA))
      (toStdString qA (tc_nickname cA)) (toStdString qA toId))"
    using sent(1) unfolding assms(9) by simp
  note server = server_reads_one [OF assms(5-7) data len run]
  have window: "\<exists>cB' cw'. onReadyReads (gui_qt qB) (ui_emit qB box) ds cB = Some cB' \<and>
      map_of (tc_pendingOffers cB') (shown key) =
        Some \<lparr>po_fileId = shown key, po_fileName = shown nm, po_fileSize = fsize,
          po_fromId = shown i, po_fromNick = shown n\<rparr> \<and>
      lw_chatWindow (tc_listeners cB') = Some cw' \<and>
      cw_table cw' = cw_table cw @ [offer_row qB (shown key) (shown nm) fsize
        (if shown n = [] then shown i else shown n)]"
    if "concat ds = wire_message MSG_FILE_OFFER ?sq ?b" for ds
    using client_reads_one [OF ui_emit_blind [OF assms(15)] assms(16) that len, of "gui_qt qB" qB]
      assms(17,19)
    by (simp add: processMessage_offer clipped assms(18) [symmetric] listensD [OF windows_listen [OF assms(15)]]
        file_slots_def onFileOfferReceived_def addTransferRow_def offer_row_def Let_def update_conv')
  have out: "out_grows s (client_handleRead fd s) h (if h = g then wire_message MSG_FILE_OFFER ?sq ?b else [])"
    for h using server(3) [of h] by (simp split: if_splits)
  from sent(2) have "\<exists>session. map_of (tc_sendSessions cA') fileId = Some session \<and>
      ss_filePath session = path \<and> \<not> ss_started session" by simp
  with server(2) out window show ?thesis by blast
qed

text \<open>The demonstration's clients and its server with one message in a socket.\<close>

definition demo_offering :: "(qstring, demo_world) client" where
  "demo_offering = demo_app\<lparr>tc_socket := ConnectedState,
     tc_world := demo_world0\<lparr>dw_files := [[97] \<mapsto> demo_file]\<rparr>\<rparr>"

lemma demo_offering_fields:
  "isConnected demo_offering" "tc_written demo_offering = []" "tc_sequence demo_offering = 0"
  "tc_clientId demo_offering = [67]" "tc_nickname demo_offering = [67]" "tc_recvBuffer demo_offering = []"
  "tc_world demo_offering = demo_world0\<lparr>dw_files := [[97] \<mapsto> demo_file]\<rparr>"
  by (simp_all add: demo_offering_def demo_app_def isConnected_def new_LoginWindow_def login_setupUI_def on_ui_def
      updateStatus_def TcpClient_def split: prod.split)

theorem offer_end_to_end_witness:
  "\<exists>s data c cw. out_grows s (client_handleRead 5 s) 6 data \<and>
     onReadyReads demo_qt (ui_emit demo_gui demo_box) [data]
       (on_ui (\<lambda>u. u\<lparr>lw_chatWindow := Some demo_private\<rparr>) demo_app) = Some c \<and>
     lw_chatWindow (tc_listeners c) = Some cw \<and> cw_table cw = [offer_row demo_gui [70] [97] 3 [65]]"
proof -
  let ?B = "on_ui (\<lambda>u. u\<lparr>lw_chatWindow := Some demo_private\<rparr>) demo_app"
  let ?d = "wire_message MSG_FILE_OFFER 1 (wire_offer [70] [97] 3 [67] [67] [66])"
  let ?s = "demo\<lparr>sv_os := demo_os\<lparr>os_recv := (\<lambda>_. [])(5 := [Received ?d])\<rparr>\<rparr>"
  have "?d \<noteq> []" by (auto dest: arg_cong [of _ _ length])
  then have d: "concat (read_chunks [Received ?d]) = ?d" by (intro read_one_chunk) simp_all
  note s = demo_talk_ok [OF d]
  have fi: "info_exists demo_qt [97] (tc_world demo_offering)" "info_isFile demo_qt [97] (tc_world demo_offering)"
    by (simp_all add: demo_offering_fields demo_qt_def)
  have w: "tc_written (sendFileOffer demo_qt demo_emit' [70] [97] [97] 3 [66] demo_offering) =
      tc_written demo_offering @ concat (read_chunks (os_recv (sv_os ?s) 5))" for demo_emit'
    using sent_offer(1) [OF demo_offering_fields(1) fi] s(5)
    by (simp add: demo_offering_fields)
  have k: "[70] = clip 37 (toStdString demo_qt [70])" "[97] = clip 256 (toStdString demo_qt [97])"
    "clip 32 (toStdString demo_qt [66]) \<noteq> []" "([70] :: bytes) \<noteq> []"
    by (simp_all add: clip_id)
  have h: "holder (abs_chat ?s) (clip 32 (toStdString demo_qt [66])) = Some 6"
    using demo_holder [OF s(1)] by (simp add: clip_id)
  have b: "tc_recvBuffer ?B = []" "lw_chatWindow (tc_listeners ?B) = Some demo_private"
    "map_of (cw_transferRows demo_private) (fromUtf8 (gui_qt demo_gui) [70]) = None"
    by (simp_all add: demo_app_def on_ui_def new_LoginWindow_def login_setupUI_def updateStatus_def TcpClient_def
        demo_private_def split: prod.split)
  obtain data where "\<forall>h. out_grows ?s (client_handleRead 5 ?s) h (if h = 6 then data else [])"
    "\<forall>ds. concat ds = data \<longrightarrow>
         (\<exists>c cw. onReadyReads (gui_qt demo_gui) (ui_emit demo_gui demo_box) ds ?B = Some c \<and>
            lw_chatWindow (tc_listeners c) = Some cw \<and>
            cw_table cw = cw_table demo_private @ [offer_row demo_gui (fromUtf8 (gui_qt demo_gui) [70])
              (fromUtf8 (gui_qt demo_gui) [97]) 3 (fromUtf8 (gui_qt demo_gui) [65])])"
    using offer_end_to_end [OF demo_offering_fields(1) fi refl s(1-4) w k(1,4,2,3) h demo_box_blind
        b(1,2) refl b(3)] by (simp add: demo_gui_qt) blast
  then have "out_grows ?s (client_handleRead 5 ?s) 6 data" and "\<exists>c cw.
      onReadyReads demo_qt (ui_emit demo_gui demo_box) [data] ?B = Some c \<and>
      lw_chatWindow (tc_listeners c) = Some cw \<and> cw_table cw = [offer_row demo_gui [70] [97] 3 [65]]"
    by (auto simp: demo_gui_qt demo_private_def dest: spec [of _ 6] spec [of _ "[data]"])
  then show ?thesis by blast
qed

section \<open>Answers\<close>

lemma click_accept:
  assumes "lw_chatWindow (tc_listeners c) = Some cw" and "row < length (cw_table cw)"
    and "tr_action (cw_table cw ! row) = OfferButtons True" and "tr_fileId (cw_table cw ! row) = fileId"
    and "sendFileOfferResponse (gui_qt q) (ui_emit q box) fileId FILE_OFFER_ACCEPT (glit q ''Accepted'') c = Some c1"
  shows "client_step q box pick (ClickAccept row) c =
    Some (on_chat (disable_action row) (on_chat (updateTransferStatus fileId (glit q ''Accepted'')) c1))"
  using assms by (simp add: click_offer_def acceptClicked_def)

lemma click_decline:
  assumes "lw_chatWindow (tc_listeners c) = Some cw" and "row < length (cw_table cw)"
    and "tr_action (cw_table cw ! row) = OfferButtons True" and "tr_fileId (cw_table cw ! row) = fileId"
  shows "client_step q box pick (ClickDecline row) c =
    Some (on_chat (disable_action row) (on_chat (updateTransferStatus fileId (glit q ''Declined''))
      (answer_offer (gui_qt q) fileId FILE_OFFER_DECLINE (glit q ''Declined'') c)))"
  using assms
  by (simp add: click_offer_def declineClicked_def sendFileOfferResponse_def
      FILE_OFFER_ACCEPT_def FILE_OFFER_DECLINE_def)

text \<open>The server's part: the answer goes to the other side of the transfer.\<close>

lemma server_relays_answer:
  assumes "server_ok s" and "alive s fd" and "buffer_of (sv_recvBuffers s) fd = []"
    and "concat (read_chunks (os_recv (sv_os s) fd)) =
      wire_message MSG_FILE_OFFER_RSP sq (wire_offer_rsp (toStdString q fileId) r m)"
    and "key = clip 37 (toStdString q fileId)" and "key \<noteq> []"
    and "ch_files (abs_chat s) key = Some (sfd, fd)"
  shows "abs_chat (client_handleRead fd s) =
      (if r = FILE_OFFER_ACCEPT then abs_chat s
       else (abs_chat s)\<lparr>ch_files := (ch_files (abs_chat s))(key := None)\<rparr>)"
    and "out_grows s (client_handleRead fd s) h
      (if h = sfd then wire_message MSG_FILE_OFFER_RSP sq (wire_offer_rsp key r (clip 64 m)) else [])"
proof -
  have run: "spec_step (os_epoch (sv_os s)) fd sq (decode_request MSG_FILE_OFFER_RSP
      (wire_offer_rsp (toStdString q fileId) r m)) (abs_chat s) =
      (if r = FILE_OFFER_ACCEPT then abs_chat s
       else (abs_chat s)\<lparr>ch_files := (ch_files (abs_chat s))(key := None)\<rparr>,
       [(sfd, sq, OfferAnswerRsp key r (clip 64 m))])"
    using assms(6,7) by (simp add: decode_answer assms(5))
  have len: "length (wire_offer_rsp (toStdString q fileId) r m) \<le> 1048576" by simp
  note server = server_reads_one [OF assms(1-4) len run]
  show "abs_chat (client_handleRead fd s) =
      (if r = FILE_OFFER_ACCEPT then abs_chat s
       else (abs_chat s)\<lparr>ch_files := (ch_files (abs_chat s))(key := None)\<rparr>)"
    by (rule server(2))
  show "out_grows s (client_handleRead fd s) h
      (if h = sfd then wire_message MSG_FILE_OFFER_RSP sq (wire_offer_rsp key r (clip 64 m)) else [])"
    using server(3) [of h] by (simp split: if_splits)
qed

text \<open>
  C11: an accepted offer starts the transfer: the click opens a free path and a session that
  expects the file, the server passes the answer to the sender alone and keeps the
  transfer, and the sender's client, on reading it in any cuts, sends the whole file.
\<close>

theorem acceptance_end_to_end:
  assumes "isConnected cB" and "lw_chatWindow (tc_listeners cB) = Some cw" and "row < length (cw_table cw)"
    and "tr_action (cw_table cw ! row) = OfferButtons True" and "tr_fileId (cw_table cw ! row) = idB"
    and "map_of (tc_pendingOffers cB) idB = Some offer"
    and "buildDownloadPath (gui_qt qB) (po_fileName offer) (tc_world cB) = Some (path, wB)"
    and "file_create (gui_qt qB) path wB = (fB, wB1)" and "file_open (gui_qt qB) fB WriteOnly wB1 = (True, wB2)"
    and "client_step qB boxB pick (ClickAccept row) cB = Some cB'"
    and "server_ok s" and "alive s bfd" and "buffer_of (sv_recvBuffers s) bfd = []"
    and "tc_written cB' = tc_written cB @ concat (read_chunks (os_recv (sv_os s) bfd))"
    and "key = clip 37 (toStdString (gui_qt qB) idB)" and "key \<noteq> []"
    and "ch_files (abs_chat s) key = Some (sfd, bfd)"
    and "blind_box boxA" and "reads_file (gui_qt qA) fA rest" and "isConnected cA" and "tc_recvBuffer cA = []"
    and "idA = fromUtf8 (gui_qt qA) key" and "map_of (tc_sendSessions cA) idA = Some session"
    and "\<not> ss_started session" and "file_create (gui_qt qA) (ss_filePath session) (tc_world cA) = (fA, wA)"
    and "file_open (gui_qt qA) fA ReadOnly wA = (True, wA')" and "rest wA' = Some bs"
  shows "map_of (tc_recvSessions cB') idB = Some \<lparr>rs_fileId = po_fileId offer, rs_fileName = po_fileName offer,
      rs_fileSize = po_fileSize offer, rs_bytesReceived = 0, rs_savePath = path, rs_file = Some fB\<rparr> \<and>
    (\<exists>data. abs_chat (client_handleRead bfd s) = abs_chat s \<and>
      (\<forall>h. out_grows s (client_handleRead bfd s) h (if h = sfd then data else [])) \<and>
      (\<forall>ds. concat ds = data \<longrightarrow>
         (\<exists>cA'. onReadyReads (gui_qt qA) (ui_emit qA boxA) ds cA = Some cA' \<and>
            tc_written cA' = tc_written cA @ wire_stream (data_messages (tc_sequence cA + 1)
              (toStdString (gui_qt qA) idA) 0 (file_chunks bs)) \<and>
            map_of (tc_sendSessions cA') idA = None)))"
proof -
  let ?sq = "tc_sequence cB + 1"
  let ?m = "toStdString (gui_qt qB) (glit qB ''Accepted'')"
  let ?b = "wire_offer_rsp key FILE_OFFER_ACCEPT (clip 64 ?m)"
  obtain c1 where c1: "sendFileOfferResponse (gui_qt qB) (ui_emit qB boxB) idB FILE_OFFER_ACCEPT
      (glit qB ''Accepted'') cB = Some c1"
    "tc_written c1 = tc_written cB @ wire_message MSG_FILE_OFFER_RSP ?sq
        (wire_offer_rsp (toStdString (gui_qt qB) idB) FILE_OFFER_ACCEPT ?m)"
    "map_of (tc_recvSessions c1) idB = Some \<lparr>rs_fileId = po_fileId offer, rs_fileName = po_fileName offer,
      rs_fileSize = po_fileSize offer, rs_bytesReceived = 0, rs_savePath = path, rs_file = Some fB\<rparr>"
    using accepted [OF assms(1,6-9)] by blast
  have c': "tc_written cB' = tc_written c1" "tc_recvSessions cB' = tc_recvSessions c1"
    using click_accept [OF assms(2-5) c1(1)] assms(10) by (auto simp: on_chat_def on_ui_def)
  have data: "concat (read_chunks (os_recv (sv_os s) bfd)) = wire_message MSG_FILE_OFFER_RSP ?sq
      (wire_offer_rsp (toStdString (gui_qt qB) idB) FILE_OFFER_ACCEPT ?m)"
    using assms(14) c'(1) c1(2) by simp
  note server = server_relays_answer [OF assms(11-13) data assms(15-17)]
  note L = windows_listen [OF assms(18), of qA]
  have sender: "\<exists>cA'. onReadyReads (gui_qt qA) (ui_emit qA boxA) ds cA = Some cA' \<and>
      tc_written cA' = tc_written cA @ wire_stream (data_messages (tc_sequence cA + 1)
        (toStdString (gui_qt qA) idA) 0 (file_chunks bs)) \<and> map_of (tc_sendSessions cA') idA = None"
    if "concat ds = wire_message MSG_FILE_OFFER_RSP ?sq ?b" for ds
  proof -
    let ?c = "ui_emit qA boxA (SigFileOfferResponse idA FILE_OFFER_ACCEPT
        (fromUtf8 (gui_qt qA) (clip 64 (clip 64 ?m)))) cA"
    have k: "fromUtf8 (gui_qt qA) (clip 37 key) = idA" by (simp add: assms(15,22))
    have c: "tc_sendSessions ?c = tc_sendSessions cA" "tc_world ?c = tc_world cA"
      "isConnected ?c = isConnected cA" "tc_written ?c = tc_written cA" "tc_sequence ?c = tc_sequence cA"
      by (simp_all add: listensD [OF L] isConnected_def)
    obtain cA' where "startFileSend (gui_qt qA) (ui_emit qA boxA) idA ?c = Some cA'"
      "tc_written cA' = tc_written cA @ wire_stream (data_messages (tc_sequence cA + 1)
        (toStdString (gui_qt qA) idA) 0 (file_chunks bs))" "map_of (tc_sendSessions cA') idA = None"
      using startFileSend_sends [OF L assms(19), of ?c idA session wA wA' bs] assms(20,23-27)
      unfolding c by blast
    then show ?thesis
      using client_reads_one [OF listens_blind [OF L] assms(21) that, of "gui_qt qA"]
      by (simp add: processMessage_answer k Let_def del: clip_idem)
  qed
  have kept: "abs_chat (client_handleRead bfd s) = abs_chat s" using server(1) by simp
  from c1(3) c'(2) have "map_of (tc_recvSessions cB') idB = Some \<lparr>rs_fileId = po_fileId offer,
      rs_fileName = po_fileName offer, rs_fileSize = po_fileSize offer, rs_bytesReceived = 0,
      rs_savePath = path, rs_file = Some fB\<rparr>" by simp
  with kept server(2) sender show ?thesis by blast
qed

text \<open>A receiver with an offer in its window, and a server with the transfer it belongs to.\<close>

definition demo_asked :: ChatWindow where
  "demo_asked = demo_private\<lparr>cw_table := [offer_row demo_gui [70] [97] 3 [65]], cw_transferRows := [([70], 0)]\<rparr>"

definition demo_offer :: PendingOffer where
  "demo_offer = \<lparr>po_fileId = [70], po_fileName = [97], po_fileSize = 3, po_fromId = [65], po_fromNick = [65]\<rparr>"

definition demo_session :: "qstring FileSendSession" where
  "demo_session = \<lparr>ss_fileId = [70], ss_filePath = [97], ss_fileName = [97], ss_fileSize = 3, ss_toId = [66],
     ss_bytesSent = 0, ss_started = False, ss_file = None\<rparr>"

definition demo_answering :: "(qstring, demo_world) client" where
  "demo_answering = (on_ui (\<lambda>u. u\<lparr>lw_chatWindow := Some demo_asked\<rparr>) demo_app)
     \<lparr>tc_socket := ConnectedState, tc_world := demo_world0, tc_pendingOffers := [([70], demo_offer)]\<rparr>"

lemma demo_answering_fields:
  "isConnected demo_answering" "lw_chatWindow (tc_listeners demo_answering) = Some demo_asked"
  "map_of (tc_pendingOffers demo_answering) [70] = Some demo_offer"
  "tc_world demo_answering = demo_world0" "tc_written demo_answering = []" "tc_sequence demo_answering = 0"
  by (simp_all add: demo_answering_def demo_app_def isConnected_def on_ui_def new_LoginWindow_def
      login_setupUI_def updateStatus_def TcpClient_def split: prod.split)

lemma demo_asked_row:
  "0 < length (cw_table demo_asked)" "tr_action (cw_table demo_asked ! 0) = OfferButtons True"
  "tr_fileId (cw_table demo_asked ! 0) = [70]"
  by (simp_all add: demo_asked_def offer_row_def)

definition demo_negotiating :: "bytes \<Rightarrow> server" where
  "demo_negotiating d = demo\<lparr>sv_files := [[70] \<mapsto> \<lparr>fs_senderFd = 5, fs_receiverFd = 6\<rparr>],
     sv_os := demo_os\<lparr>os_recv := (\<lambda>_. [])(6 := [Received d])\<rparr>\<rparr>"

lemma demo_negotiating_ok:
  "server_ok (demo_negotiating d)" "alive (demo_negotiating d) 6"
  "buffer_of (sv_recvBuffers (demo_negotiating d)) 6 = []"
  "ch_files (abs_chat (demo_negotiating d)) [70] = Some (5, 6)"
  "os_recv (sv_os (demo_negotiating d)) 6 = [Received d]"
proof -
  have "server_ok (demo\<lparr>sv_files := [[70] \<mapsto> \<lparr>fs_senderFd = 5, fs_receiverFd = 6\<rparr>]\<rparr>)"
    by (rule server_ok_files [OF demo_ok]) simp
  then show "server_ok (demo_negotiating d)"
    using os_irrelevant(1) [of "demo_os\<lparr>os_recv := (\<lambda>_. [])(6 := [Received d])\<rparr>"
       "demo\<lparr>sv_files := [[70] \<mapsto> \<lparr>fs_senderFd = 5, fs_receiverFd = 6\<rparr>]\<rparr>"]
    by (simp add: demo_negotiating_def demo_def)
qed (simp_all add: demo_negotiating_def alive_def buffer_of_def demo_def abs_files_def)

definition demo_waiting :: "(qstring, demo_world) client" where
  "demo_waiting = demo_offering\<lparr>tc_sendSessions := [([70], demo_session)]\<rparr>"

lemma demo_waiting_fields:
  "isConnected demo_waiting" "tc_written demo_waiting = []" "tc_sequence demo_waiting = 0"
  "tc_recvBuffer demo_waiting = []" "tc_world demo_waiting = demo_world0\<lparr>dw_files := [[97] \<mapsto> demo_file]\<rparr>"
  "map_of (tc_sendSessions demo_waiting) [70] = Some demo_session"
  using demo_offering_fields by (simp_all add: demo_waiting_def isConnected_def)

theorem acceptance_end_to_end_witness:
  "\<exists>s data c. out_grows s (client_handleRead 6 s) 5 data \<and>
     onReadyReads demo_qt (ui_emit demo_gui demo_box) [data] demo_waiting = Some c \<and>
     tc_written c = wire_message MSG_FILE_DATA 1 (wire_file_data [70] 0 [104, 105, 33])"
proof -
  let ?m = "toStdString demo_qt (glit demo_gui ''Accepted'')"
  let ?d = "wire_message MSG_FILE_OFFER_RSP 1 (wire_offer_rsp [70] FILE_OFFER_ACCEPT ?m)"
  let ?s = "demo_negotiating ?d"
  let ?w = "demo_world0\<lparr>dw_files := [[97] \<mapsto> demo_file], dw_reading := [[97] \<mapsto> demo_file]\<rparr>"
  let ?v = "demo_world0\<lparr>dw_files := [[47, 97] \<mapsto> []], dw_writing := [[47, 97] \<mapsto> []]\<rparr>"
  note a = demo_answering_fields
  have build: "buildDownloadPath (gui_qt demo_gui) (po_fileName demo_offer) (tc_world demo_answering) =
      Some ([47, 97], demo_world0)"
    by (simp add: demo_offer_def a demo_gui_qt buildDownloadPath_def demo_world0_def)
  have create: "file_create (gui_qt demo_gui) [47, 97] demo_world0 = ([47, 97], demo_world0)"
    by (simp add: demo_gui_qt)
  have opens: "file_open (gui_qt demo_gui) [47, 97] WriteOnly demo_world0 = (True, ?v)"
    by (simp add: demo_gui_qt demo_qt_def demo_world0_def)
  obtain c1 where c1: "sendFileOfferResponse (gui_qt demo_gui) (ui_emit demo_gui demo_box) [70]
      FILE_OFFER_ACCEPT (glit demo_gui ''Accepted'') demo_answering = Some c1" "tc_written c1 = ?d"
    using accepted [OF a(1,3) build create opens, of "ui_emit demo_gui demo_box" "glit demo_gui ''Accepted''"]
    by (auto simp: a demo_gui_qt)
  note step = click_accept [OF a(2) demo_asked_row c1(1), of demo_pick]
  have "?d \<noteq> []" by (auto dest: arg_cong [of _ _ length])
  then have d: "concat (read_chunks [Received ?d]) = ?d" by (intro read_one_chunk) simp_all
  have w: "tc_written (on_chat (disable_action 0) (on_chat (updateTransferStatus [70]
      (glit demo_gui ''Accepted'')) c1)) = tc_written demo_answering @ concat (read_chunks (os_recv (sv_os ?s) 6))"
    using c1(2) d by (simp add: a demo_negotiating_ok(5) on_chat_def on_ui_def)
  have k: "[70] = clip 37 (toStdString (gui_qt demo_gui) [70])" "([70] :: bytes) \<noteq> []"
    "[70] = fromUtf8 (gui_qt demo_gui) [70]"
    by (simp_all add: clip_id demo_gui_qt)
  have o: "file_create (gui_qt demo_gui) (ss_filePath demo_session) (tc_world demo_waiting) = ([97], tc_world demo_waiting)"
    "file_open (gui_qt demo_gui) [97] ReadOnly (tc_world demo_waiting) = (True, ?w)"
    by (simp_all add: demo_gui_qt demo_waiting_fields demo_qt_def demo_world0_def demo_session_def)
  have reads: "reads_file (gui_qt demo_gui) [97] (\<lambda>w. dw_reading w [97])"
    using demo_reads by (simp add: demo_gui_qt)
  have start: "\<not> ss_started demo_session" "dw_reading ?w [97] = Some demo_file"
    by (simp_all add: demo_session_def)
  note t = acceptance_end_to_end [OF a(1,2) demo_asked_row a(3) build create opens step demo_negotiating_ok(1-3) w
      k(1,2) demo_negotiating_ok(4) demo_box_blind reads demo_waiting_fields(1,4) k(3) demo_waiting_fields(6)
      start(1) o start(2)]
  obtain data where "\<forall>h. out_grows ?s (client_handleRead 6 ?s) h (if h = 5 then data else [])"
    "\<forall>ds. concat ds = data \<longrightarrow>
       (\<exists>c. onReadyReads (gui_qt demo_gui) (ui_emit demo_gui demo_box) ds demo_waiting = Some c \<and>
          tc_written c = tc_written demo_waiting @ wire_stream (data_messages (tc_sequence demo_waiting + 1)
            (toStdString (gui_qt demo_gui) [70]) 0 (file_chunks demo_file)))"
    using t by auto
  then have "out_grows ?s (client_handleRead 6 ?s) 5 data" and "\<exists>c.
      onReadyReads demo_qt (ui_emit demo_gui demo_box) [data] demo_waiting = Some c \<and>
      tc_written c = wire_message MSG_FILE_DATA 1 (wire_file_data [70] 0 demo_file)"
    by (auto simp: demo_gui_qt demo_waiting_fields demo_file_chunks dest: spec [of _ 5] spec [of _ "[data]"])
  then show ?thesis unfolding demo_file_def by blast
qed

text \<open>
  C12: a declined offer leaves nothing behind: the receiver forgets the offer, the server
  the transfer, and the sender, told so alone, its session; its window is given the
  answer and then the end of the transfer.
\<close>

theorem refusal_end_to_end:
  assumes "isConnected cB" and "lw_chatWindow (tc_listeners cB) = Some cw" and "row < length (cw_table cw)"
    and "tr_action (cw_table cw ! row) = OfferButtons True" and "tr_fileId (cw_table cw ! row) = idB"
    and "client_step qB boxB pick (ClickDecline row) cB = Some cB'"
    and "server_ok s" and "alive s bfd" and "buffer_of (sv_recvBuffers s) bfd = []"
    and "tc_written cB' = tc_written cB @ concat (read_chunks (os_recv (sv_os s) bfd))"
    and "key = clip 37 (toStdString (gui_qt qB) idB)" and "key \<noteq> []"
    and "ch_files (abs_chat s) key = Some (sfd, bfd)"
    and "blind_box boxA" and "tc_recvBuffer cA = []"
    and "idA = fromUtf8 (gui_qt qA) key" and "map_of (tc_sendSessions cA) idA = Some session"
    and "why = fromUtf8 (gui_qt qA) (clip 64 (toStdString (gui_qt qB) (glit qB ''Declined'')))"
  shows "map_of (tc_pendingOffers cB') idB = None \<and>
    (\<exists>data. ch_files (abs_chat (client_handleRead bfd s)) key = None \<and>
      (\<forall>h. out_grows s (client_handleRead bfd s) h (if h = sfd then data else [])) \<and>
      (\<forall>ds. concat ds = data \<longrightarrow>
         (\<exists>cA'. onReadyReads (gui_qt qA) (ui_emit qA boxA) ds cA = Some cA' \<and>
            map_of (tc_sendSessions cA') idA = None \<and> tc_written cA' = tc_written cA \<and>
            tc_listeners cA' = file_slots qA (SigFileCompleted idA False False why)
              (file_slots qA (SigFileOfferResponse idA FILE_OFFER_DECLINE why) (tc_listeners cA)))))"
proof -
  let ?sq = "tc_sequence cB + 1"
  let ?m = "toStdString (gui_qt qB) (glit qB ''Declined'')"
  let ?b = "wire_offer_rsp key FILE_OFFER_DECLINE (clip 64 ?m)"
  define c1 where "c1 = answer_offer (gui_qt qB) idB FILE_OFFER_DECLINE (glit qB ''Declined'') cB"
  have c': "tc_written cB' = tc_written c1" "tc_pendingOffers cB' = tc_pendingOffers c1"
    using click_decline [OF assms(2-5), of qB boxB pick] assms(6)
    by (auto simp: on_chat_def on_ui_def c1_def)
  have data: "concat (read_chunks (os_recv (sv_os s) bfd)) = wire_message MSG_FILE_OFFER_RSP ?sq
      (wire_offer_rsp (toStdString (gui_qt qB) idB) FILE_OFFER_DECLINE ?m)"
    using assms(10) c'(1) answered(1) [OF assms(1)] by (simp add: c1_def)
  have forgotten: "map_of (tc_pendingOffers cB') idB = None"
    unfolding c' c1_def answer_offer_def Let_def by (simp add: delete_conv')
  have no: "FILE_OFFER_DECLINE \<noteq> FILE_OFFER_ACCEPT"
    by (simp add: FILE_OFFER_ACCEPT_def FILE_OFFER_DECLINE_def)
  note server = server_relays_answer [OF assms(7-9) data assms(11-13)]
  have gone: "ch_files (abs_chat (client_handleRead bfd s)) key = None"
    using server(1) no by simp
  note L = windows_listen [OF assms(14), of qA]
  have sender: "\<exists>cA'. onReadyReads (gui_qt qA) (ui_emit qA boxA) ds cA = Some cA' \<and>
      map_of (tc_sendSessions cA') idA = None \<and> tc_written cA' = tc_written cA \<and>
      tc_listeners cA' = file_slots qA (SigFileCompleted idA False False why)
        (file_slots qA (SigFileOfferResponse idA FILE_OFFER_DECLINE why) (tc_listeners cA))"
    if "concat ds = wire_message MSG_FILE_OFFER_RSP ?sq ?b" for ds
  proof -
    have k: "fromUtf8 (gui_qt qA) (clip 37 key) = idA" by (simp add: assms(11,16))
    show ?thesis
      using client_reads_one [OF listens_blind [OF L] assms(15) that, of "gui_qt qA"] assms(17)
      by (simp add: processMessage_answer k Let_def no listensD [OF L] drop_send_def delete_conv'
          assms(18))
  qed
  from forgotten gone server(2) sender show ?thesis by blast
qed

theorem refusal_end_to_end_witness:
  "\<exists>s data c. ch_files (abs_chat (client_handleRead 6 s)) [70] = None \<and>
     out_grows s (client_handleRead 6 s) 5 data \<and>
     onReadyReads demo_qt (ui_emit demo_gui demo_box) [data] demo_waiting = Some c \<and>
     map_of (tc_sendSessions c) [70] = None"
proof -
  let ?m = "toStdString demo_qt (glit demo_gui ''Declined'')"
  let ?d = "wire_message MSG_FILE_OFFER_RSP 1 (wire_offer_rsp [70] FILE_OFFER_DECLINE ?m)"
  let ?s = "demo_negotiating ?d"
  note a = demo_answering_fields
  note step = click_decline [OF a(2) demo_asked_row, of demo_gui demo_box demo_pick]
  have "?d \<noteq> []" by (auto dest: arg_cong [of _ _ length])
  then have d: "concat (read_chunks [Received ?d]) = ?d" by (intro read_one_chunk) simp_all
  have w: "tc_written (on_chat (disable_action 0) (on_chat (updateTransferStatus [70]
      (glit demo_gui ''Declined'')) (answer_offer (gui_qt demo_gui) [70] FILE_OFFER_DECLINE
        (glit demo_gui ''Declined'') demo_answering))) =
      tc_written demo_answering @ concat (read_chunks (os_recv (sv_os ?s) 6))"
    using answered(1) [OF a(1)] d
    by (simp add: a demo_negotiating_ok(5) on_chat_def on_ui_def demo_gui_qt)
  have k: "[70] = clip 37 (toStdString (gui_qt demo_gui) [70])" "([70] :: bytes) \<noteq> []"
    "[70] = fromUtf8 (gui_qt demo_gui) [70]"
    by (simp_all add: clip_id demo_gui_qt)
  obtain data where r: "ch_files (abs_chat (client_handleRead 6 ?s)) [70] = None"
    "\<forall>h. out_grows ?s (client_handleRead 6 ?s) h (if h = 5 then data else [])"
    "\<forall>ds. concat ds = data \<longrightarrow>
       (\<exists>c. onReadyReads (gui_qt demo_gui) (ui_emit demo_gui demo_box) ds demo_waiting = Some c \<and>
          map_of (tc_sendSessions c) [70] = None)"
    using refusal_end_to_end [OF a(1,2) demo_asked_row step demo_negotiating_ok(1-3) w k(1,2)
        demo_negotiating_ok(4) demo_box_blind demo_waiting_fields(4) k(3) demo_waiting_fields(6) refl]
    by blast
  then have "out_grows ?s (client_handleRead 6 ?s) 5 data" and "\<exists>c.
      onReadyReads demo_qt (ui_emit demo_gui demo_box) [data] demo_waiting = Some c \<and>
      map_of (tc_sendSessions c) [70] = None"
    by (auto simp: demo_gui_qt dest: spec [of _ 5] spec [of _ "[data]"])
  with r(1) show ?thesis by blast
qed

section \<open>A pitfall of file ids\<close>

text \<open>
  C20: the server does not ask whom a file id belongs to: an online user who offers a
  file under the id of a transfer of two others takes the transfer over, and what
  its sender still sends under this id reaches nobody.
\<close>

theorem file_id_taken_over:
  assumes "server_ok s" and "alive s fd" and "buffer_of (sv_recvBuffers s) fd = []"
    and "concat (read_chunks (os_recv (sv_os s) fd)) = wire_message MSG_FILE_OFFER sq (wire_offer key nm z x y t)"
    and "ch_users (abs_chat s) fd \<noteq> None" and "holder (abs_chat s) (clip 32 t) = Some g" and "clip 32 t \<noteq> []"
    and "ch_files (abs_chat s) key = Some (sfd, rfd)" and "clip 37 key = key" and "key \<noteq> []"
    and "sfd \<noteq> fd" and "sfd \<noteq> g"
  shows "ch_files (abs_chat (client_handleRead fd s)) key = Some (fd, g) \<and>
    spec_step clock sfd sq' (decode_request MSG_FILE_DATA (wire_file_data key off d))
      (abs_chat (client_handleRead fd s)) = (abs_chat (client_handleRead fd s), [])"
proof -
  obtain i n where u: "ch_users (abs_chat s) fd = Some (i, n)" using assms(5) by auto
  have len: "length (wire_offer key nm z x y t) \<le> 1048576" by simp
  have run: "spec_step (os_epoch (sv_os s)) fd sq (decode_request MSG_FILE_OFFER (wire_offer key nm z x y t))
      (abs_chat s) = ((abs_chat s)\<lparr>ch_files := (ch_files (abs_chat s))(key \<mapsto> (fd, g))\<rparr>,
        [(g, sq, OfferRsp key (clip 256 nm) z i n (clip 32 t))])"
    using assms(6,7,9,10) u by (simp add: decode_offer)
  have taken: "ch_files (abs_chat (client_handleRead fd s)) key = Some (fd, g)"
    unfolding server_reads_one(2) [OF assms(1-4) len run] by simp
  then show ?thesis using assms(9-12) by (simp add: decode_file_data)
qed

theorem file_id_taken_over_witness:
  "\<exists>s. server_ok s \<and> ch_files (abs_chat s) [70] = Some (6, 6) \<and>
     ch_files (abs_chat (client_handleRead 5 s)) [70] = Some (5, 5)"
proof -
  let ?d = "wire_message MSG_FILE_OFFER 1 (wire_offer [70] [97] 3 [65] [65] [65])"
  let ?t = "demo\<lparr>sv_files := [[70] \<mapsto> \<lparr>fs_senderFd = 6, fs_receiverFd = 6\<rparr>]\<rparr>"
  let ?s = "?t\<lparr>sv_os := demo_os\<lparr>os_recv := (\<lambda>_. [])(5 := [Received ?d])\<rparr>\<rparr>"
  have "server_ok ?t" by (rule server_ok_files [OF demo_ok]) simp
  then have ok: "server_ok ?s"
    using os_irrelevant(1) [of "demo_os\<lparr>os_recv := (\<lambda>_. [])(5 := [Received ?d])\<rparr>" ?t]
    by (simp add: demo_def)
  have "?d \<noteq> []" by (auto dest: arg_cong [of _ _ length])
  then have d: "concat (read_chunks [Received ?d]) = ?d" by (intro read_one_chunk) simp_all
  have f: "alive ?s 5" "buffer_of (sv_recvBuffers ?s) 5 = []" "ch_users (abs_chat ?s) 5 = Some ([65], [65])"
    "ch_files (abs_chat ?s) [70] = Some (6, 6)" "concat (read_chunks (os_recv (sv_os ?s) 5)) = ?d"
    using d by (simp_all add: alive_def buffer_of_def demo_users abs_files_def, simp_all add: demo_def)
  have h: "holder (abs_chat ?s) (clip 32 [65]) = Some 5"
    using holder_unique [OF room_ok_abs [OF ok] f(3)] by (simp add: clip_id)
  have "ch_files (abs_chat (client_handleRead 5 ?s)) [70] = Some (5, 5)"
    using file_id_taken_over [OF ok f(1,2,5) _ h _ f(4)] f(3) by (simp add: clip_id)
  with ok f(4) show ?thesis by blast
qed

end
