(* ===== verification/Conversation.thy ===== *)
theory Conversation
  imports Window_Properties
begin

text \<open>
  A conversation: several messages typed one after the other, through the server, to the
  windows of those they are meant for.
\<close>

section \<open>Typing\<close>

text \<open>What is typed: the state of the world at that time, the target and the text.\<close>

type_synonym 'w typed = "'w \<times> ChatScope \<times> qstring \<times> qstring"


fun typed_bodies :: "('f, 'w) qt \<Rightarrow> u32 \<Rightarrow> qstring \<Rightarrow> qstring \<Rightarrow> 'w typed list \<Rightarrow> message list" where
  "typed_bodies q sq i n [] = []"
| "typed_bodies q sq i n ((w, scope, toId, text) # ts) =
     (MSG_CHAT_MSG, sq, wire_chat scope (toStdString q i) (toStdString q n) (toStdString q toId)
       (toStdString q text) (currentSecs q w)) # typed_bodies q (sq + 1) i n ts"



lemma typed_Nil_iff [simp]: "typed_bodies q sq i n ts = [] \<longleftrightarrow> ts = []"
  by (cases ts) auto

section \<open>Through the server\<close>

text \<open>
  What the server makes of them: the sender's registered identity, and a time of its own
  for those without one. \<open>for_whom\<close> says who is meant.
\<close>

definition stamp :: "('f, 'w) qt \<Rightarrow> u64 \<Rightarrow> 'w \<Rightarrow> u64" where
  "stamp q clock w = (if currentSecs q w = 0 then clock else currentSecs q w)"

fun for_whom :: "('f, 'w) qt \<Rightarrow> chat \<Rightarrow> int \<Rightarrow> 'w typed \<Rightarrow> int list" where
  "for_whom q a fd (w, scope, toId, text) = recipients a fd scope (clip 32 (toStdString q toId))"

fun passed_on :: "('f, 'w) qt \<Rightarrow> u64 \<Rightarrow> u32 \<Rightarrow> chat \<Rightarrow> int \<Rightarrow> int \<Rightarrow> bytes \<Rightarrow> bytes \<Rightarrow> 'w typed list \<Rightarrow> message list" where
  "passed_on q clock sq a fd g i n [] = []"
| "passed_on q clock sq a fd g i n ((w, scope, toId, text) # ts) =
     (if g \<in> set (recipients a fd scope (clip 32 (toStdString q toId))) then
        [(MSG_CHAT_MSG, sq, wire_chat scope i n (clip 32 (toStdString q toId)) (clip 256 (toStdString q text))
          (stamp q clock w))]
      else []) @ passed_on q clock (sq + 1) a fd g i n ts"


section \<open>In the windows\<close>




lemma passed_on_Nil: "passed_on q clock sq a fd g i n ts = [] \<Longrightarrow> filter (\<lambda>t. g \<in> set (for_whom q a fd t)) ts = []"
  by (induction ts arbitrary: sq) (auto split: if_splits)






end
