(* ===== verification/Messages_Arrive.thy ===== *)
theory Messages_Arrive
  imports Offer_Delivery Client_Demo
begin

text \<open>
  From the server's packing functions to the client's signals: one message of each kind the
  server builds, cut into reads in any way, is read, parsed and announced by the client.
\<close>

lemma processMessage_heartbeat:
  "processMessage q emit (host_header MSG_HEARTBEAT_RSP sq b) body c = Some c"
  by (simp add: processMessage_def host_header_def)

text \<open>
  C39: what the server tells a client arrives there: whatever the byte order
  of the two hosts and however the bytes are cut into reads, the client takes the message
  out of its stream, leaves nothing of it in its receive buffer and announces it to its
  listeners with every field (texts cut to their fields): a chat message, the result of a
  login, a list of at most 10922 users (the most that fit in the 1 MB it accepts), which it
  also stores, and a file offer, which it also notes as pending. The answer to a heartbeat
  changes nothing.
\<close>

theorem server_messages_arrive:
  assumes "blind emit" and "tc_recvBuffer c = []"
  shows "(concat ds = packChatMessage e sq sc fromId fromNick toId msg ts \<longrightarrow>
      onReadyReads q emit ds c = Some (with_buffer [] (emit
        (SigChatMessage (fromUtf8 q (clip 32 fromId)) (fromUtf8 q (clip 64 fromNick))
           (fromUtf8 q (clip 256 msg)) (sc = CHAT_PRIVATE) (fromUtf8 q (clip 32 toId)) ts) c))) \<and>
    (concat ds = packLoginResponse e sq result msg \<longrightarrow>
      onReadyReads q emit ds c = Some (with_buffer [] (emit
        (SigLoginResponse (result = LOGIN_SUCCESS) (fromUtf8 q (clip 128 msg))) c))) \<and>
    (length us \<le> 10922 \<longrightarrow> concat ds = packUserListResponse e sq (map user_entry us) \<longrightarrow>
      onReadyReads q emit ds c = Some (with_buffer [] (emit
        SigUserListUpdated (c\<lparr>tc_userList := map user_entry us\<rparr>)))) \<and>
    (concat ds = packFileOffer e sq fileId fileName fileSize fromId fromNick toId \<longrightarrow>
      onReadyReads q emit ds c =
        (let f = fromUtf8 q (clip 37 fileId); n = fromUtf8 q (clip 256 fileName);
             i = fromUtf8 q (clip 32 fromId); k = fromUtf8 q (clip 64 fromNick)
         in Some (with_buffer [] (emit (SigFileOffer f n fileSize i k)
              (c\<lparr>tc_pendingOffers := AList.update f
                 \<lparr>po_fileId = f, po_fileName = n, po_fileSize = fileSize, po_fromId = i, po_fromNick = k\<rparr>
                 (tc_pendingOffers c)\<rparr>))))) \<and>
    (concat ds = packHeartbeatResponse e sq \<longrightarrow> onReadyReads q emit ds c = Some c)"
proof -
  note one = client_reads_one [OF assms]
  have same: "with_buffer [] c = c" using assms(2) with_buffer_self [of c] by simp
  have "length (wire_user_list us) \<le> 1048576" if "length us \<le> 10922" using that by simp
  then show ?thesis
    using one [of ds MSG_CHAT_MSG] one [of ds MSG_LOGIN_RSP] one [of ds MSG_USER_LIST_RSP]
      one [of ds MSG_FILE_OFFER] one [of ds MSG_HEARTBEAT_RSP]
    by (intro conjI impI)
      (simp_all add: pack_simps processMessage_chat processMessage_login processMessage_users
        processMessage_offer processMessage_heartbeat same Let_def)
qed

theorem server_messages_arrive_witness:
  "\<exists>c. onReadyReads demo_qt demo_emit [take 20 (packChatMessage Big 1 CHAT_PRIVATE [65] [66] [67] [72, 105] 9),
       drop 20 (packChatMessage Big 1 CHAT_PRIVATE [65] [66] [67] [72, 105] 9)] demo_receiver = Some c \<and>
     tc_listeners c = [SigChatMessage [65] [66] [72, 105] True [67] 9] \<and> tc_recvBuffer c = []"
proof -
  let ?p = "packChatMessage Big 1 CHAT_PRIVATE [65] [66] [67] [72, 105] 9"
  have "concat [take 20 ?p, drop 20 ?p] = ?p" by simp
  moreover have "tc_recvBuffer demo_receiver = []" by (simp add: demo_receiver_def TcpClient_def)
  ultimately show ?thesis
    using server_messages_arrive [OF listens_blind [OF demo_listens], of demo_receiver "[take 20 ?p, drop 20 ?p]" Big 1
      CHAT_PRIVATE "[65]" "[66]" "[67]" "[72, 105]" 9 demo_qt]
    by (simp add: clip_id demo_emit_def demo_log_def demo_receiver_def TcpClient_def with_buffer_def)
qed

end
