(* ===== verification/Number_Display.thy ===== *)
theory Number_Display
  imports Client_Properties Window_Properties Offer_Delivery
begin

text \<open>
  The numbers the chat window shows: percentages and sizes, computed in \<open>double\<close>s. Rounding
  to a \<open>double\<close> is monotone and exact on small integers, which is enough to bound them.
\<close>

section \<open>Rounding\<close>










lemma dbl_0 [simp]: "dbl 0 = 0"
  by (simp add: dbl_def)





section \<open>What is shown\<close>

text \<open>How much of a file has gone after each of its chunks.\<close>

fun offsets :: "u64 \<Rightarrow> bytes list \<Rightarrow> u64 list" where
  "offsets off [] = []"
| "offsets off (d # ds) = (off + of_nat (length d)) # offsets (off + of_nat (length d)) ds"

lemma offsets_Nil_iff [simp]: "offsets off ds = [] \<longleftrightarrow> ds = []"
  by (cases ds) simp_all










end
