(* ===== verification/Spec2Isabelle.thy ===== *)
theory Spec2Isabelle
  imports Header_Layout Server_Main Heartbeat_Properties Client_Main Offer_Properties Conversation
    Messages_Arrive Number_Display
begin

text \<open>
  A model of the instant messenger of this repository, a Linux chat server in C++ and a Qt
  client, with theorems about both and about what they do together.

  \<^bold>\<open>The program.\<close> The server (\<open>server/src\<close>) is one epoll loop beside a heartbeat thread. The
  \<open>Reactor\<close> hands events to a \<open>ListenHandler\<close> or to one of the \<open>ClientHandler\<close>s; bytes go
  through \<open>ProtocolParser::parseData\<close> to \<open>Server::handleMessage\<close>, whose handlers use the
  \<open>ClientManager\<close> and the table of file transfers and answer through per-connection output
  buffers. The client (\<open>client\<close>) is a \<open>TcpClient\<close> whose signals drive a \<open>LoginWindow\<close> and
  a \<open>ChatWindow\<close>; files go in chunks from one client through the server to another.

  \<^bold>\<open>The theories, in the order of the code.\<close>
  \<^item> \<open>IM_Prelude\<close>: bytes, \<open>memcpy\<close>, rule collections. \<open>Byte_Order\<close>: integers in memory and on the
    wire, on hosts of either byte order. \<open>C_Strings\<close>: NUL-terminated arrays and
    \<open>boundedStrnlen\<close>. \<open>Messages\<close>: the packed structures with their memory images, the message
    types and result codes (\<open>common/message.h\<close>). \<open>Header_Layout\<close>: this header and the client's copy
    of it as data, and that the memory images have the layout both declare.
  \<^item> \<open>Stream_Parser\<close>: \<open>parseData\<close> and its specification \<open>deframe\<close>. \<open>Wire_Format\<close>,
    \<open>Server_Protocol\<close>, \<open>Client_Protocol\<close>: every pack and parse function of both sides, proved to
    write and read one format; the locale \<open>codec\<close> gives the transport of each message.
    \<open>Message_Types\<close>: what a parsed structure guarantees.
  \<^item> \<open>Ordered_Map\<close> (the interface of \<open>std::map\<close>, a locale), \<open>Client_Manager\<close>: the registry,
    its invariant and lookups. \<open>Epoll_Reactor\<close>: the kernel's interest set, the handler table,
    their agreement, and the dispatch of one poll. \<open>Connection\<close>: the output buffer of one connection and the send loop.
  \<^item> \<open>Server_Core\<close>, \<open>Server_Handlers\<close>: the server's state, accepting, sending, disconnecting,
    and the handler of each message. \<open>Server_Sending\<close>: what sending does to every
    connection's output. \<open>Chat_Spec\<close>: a chat room without sockets, the server's contract.
    \<open>Server_Refinement\<close> proves that \<open>handleMessage\<close> implements it, \<open>Server_Events\<close> that the events of
    the main loop do; \<open>Server_Properties\<close> and \<open>Heartbeat_Properties\<close> state the results.
  \<^item> \<open>Server_Run\<close>: \<open>start\<close>, both threads and the shutdown as a step relation.
    \<open>Server_Lifecycle\<close>: its invariant, and a measure that bounds every run after \<open>stop\<close>.
    \<open>Lifecycle_Properties\<close>, \<open>Server_Main\<close>: the results, and \<open>main\<close> with its arguments.
  \<^item> \<open>Tcp_Client\<close>: every operation and slot of \<open>TcpClient\<close>. \<open>Client_Input\<close>: its reading refines
    \<open>deframe\<close>. \<open>Client_Transfer\<close>, \<open>File_Transfer\<close>: files, from the sender's disk to the receiver's.
  \<^item> \<open>Chat_Window\<close>, \<open>Login_Window\<close>: both windows, the connections of signals to slots
    (\<open>ui_emit\<close>), the application's events (\<open>client_step\<close>). \<open>Client_Steps\<close>: the locales
    \<open>client_relation\<close> and \<open>window_relation\<close>, in which every slot is shown once to respect a
    relation between the states before and after. \<open>Chat_Delivery\<close>: logins and chat messages
    from window to window; \<open>Offer_Delivery\<close>: file offers and their answers. \<open>Client_Demo\<close>: a
    small Qt for the witnesses. \<open>Client_Properties\<close>, \<open>Window_Properties\<close>, \<open>Offer_Properties\<close>: the
    results. \<open>Conversation\<close>: several messages typed one after the other, through to the windows.
    \<open>Messages_Arrive\<close>: what the server sends becomes the client's signals. \<open>Number_Display\<close>:
    rounding to \<open>double\<close>, and the numbers the window of a sender shows.
    \<open>Client_Main\<close>: the client's \<open>main\<close> and the end of its connection.

  \<^bold>\<open>Correspondence.\<close> Definitions have the names of the code where HOL leaves them free
  (\<open>client_\<close>, \<open>tcp_\<close>, \<open>chat_\<close> and \<open>login_\<close> tell copies apart). A class is a record, its methods
  are functions from state to state; integers have their widths, 64-bit ones included;
  \<open>std::map\<close> is a sorted association list where its order is visible, \<open>QHash\<close> an association
  list. Failing calls are values. A loop over kernel answers is structural on the list of the
  answers that \<open>os\<close> holds for the descriptor; loops that only Qt bounds (\<open>file_send_loop\<close>,
  \<open>free_candidate\<close>, \<open>read_loop\<close>) are partial functions, and that they return is part of the
  theorems: \<open>startFileSend_sends_file\<close>, \<open>download_path_is_free\<close>, and \<open>client_reads_deframe\<close>, which
  reduces reading to handling the finitely many messages in the buffer. No fuel is used.

  \<^bold>\<open>Parameters.\<close> The kernel's answers are the record \<open>os\<close> of scripts, arbitrary in every
  theorem and changed at will by the environment's steps. What the kernel makes of its
  calls is part of the state: the open descriptors, the bytes each socket took, the
  interest set of \<open>epoll\<close> and for which descriptors it refused the last change. Qt is the
  records \<open>qt\<close> and \<open>gui\<close> of functions; the theorems about files assume that a file being
  read yields its bytes in order and that one being written appends (\<open>reads_file\<close>,
  \<open>writes_file\<close>). How bytes decode to texts is arbitrary, but for a string literal of the
  program that is not empty, and where files are transferred the file id is one that
  survives the way there and back. A message box runs its own event loop: what happens
  meanwhile is the function \<open>box\<close>, of which the theorems ask that it keeps the relation
  they state, or does not look at the receive buffer (\<open>blind_box\<close>), or
  opens no session (\<open>idle_box\<close>).

  \<^bold>\<open>Granularity.\<close> One step of the main thread is one dispatched event or one disconnection;
  the heartbeat thread's steps are its scan under the registry's lock and one
  \<open>queueDisconnect\<close> each, since these are the accesses the mutexes protect. Slots run in place,
  as direct connections do, and so does \<open>disconnected\<close> when \<open>disconnectFromHost\<close> closes the
  socket at once. An error that \<open>flush\<close> meets on a broken connection is delivered after the
  slot that wrote.

  \<^bold>\<open>Not modelled.\<close> Printing and logging, thread creation, the installation of signal handlers
  and the sleeping of the heartbeat thread; widget geometry, fonts and palettes beyond the
  colour of a status; \<open>QSettings\<close>' file; the application's name and exit code; the unused
  \<open>getClient\<close> and \<open>printClients\<close>. Raising an exception (\<open>std::bad_alloc\<close>) is not considered.
  \<open>client_step\<close> stands for Qt's dispatch of events and is no function of the source.
\<close>

end
